(* ===== verification/GoPrelude.thy ===== *)
theory GoPrelude
  imports Main "HOL-Library.Word"
begin

text \<open>
  Shared vocabulary of the development: machine integers of the Go sources, the outcome of a
  computation that may panic or run forever, and generic lemmas on words and lists.

  Go's fixed-width integers are words (\<open>u8\<close>, \<open>u16\<close>, \<open>u32\<close>, \<open>u64\<close>); signed integers of the same
  width use the same type and are read with \<open>sint\<close>.  Go's \<open>int\<close> and \<open>int64\<close> are \<open>int\<close> where they
  index files and buffers whose size bounds them.
\<close>

unbundle bit_operations_syntax

type_synonym u8 = "8 word"
type_synonym u16 = "16 word"
type_synonym u32 = "32 word"
type_synonym u64 = "64 word"

text \<open>
  A run of code that may return a value, panic (an out-of-range index, an explicit call of
  \<open>panic\<close>), or not return: \<open>Loop\<close> is the value of a loop whose fuel ran out.
\<close>

datatype 'a run = Ret 'a | Panic | Loop

primrec run_bind :: "'a run \<Rightarrow> ('a \<Rightarrow> 'b run) \<Rightarrow> 'b run" where
  "run_bind (Ret x) f = f x"
| "run_bind Panic f = Panic"
| "run_bind Loop f = Loop"

named_theorems go_simps \<open>facts that evaluate or normalise modelled Go operations\<close>

lemma run_bind_eq_Ret [simp]:
  "run_bind m f = Ret y \<longleftrightarrow> (\<exists>x. m = Ret x \<and> f x = Ret y)"
  by (cases m) auto

text \<open>The cases of a step that continues by the kind of its result.\<close>

lemma run_bind_case_sum:
  "run_bind m (case_sum f g) = Ret y \<longleftrightarrow>
     (\<exists>e. m = Ret (Inl e) \<and> f e = Ret y) \<or> (\<exists>v. m = Ret (Inr v) \<and> g v = Ret y)"
proof (cases m)
  case (Ret x)
  then show ?thesis by (cases x) auto
qed auto

lemma run_bind_case_option:
  "run_bind m (case_option a g) = Ret y \<longleftrightarrow>
     m = Ret None \<and> a = Ret y \<or> (\<exists>v. m = Ret (Some v) \<and> g v = Ret y)"
proof (cases m)
  case (Ret x)
  then show ?thesis by (cases x) auto
qed auto

lemma run_bind_case_prod:
  "run_bind m (case_prod f) = Ret y \<longleftrightarrow> (\<exists>a b. m = Ret (a, b) \<and> f a b = Ret y)"
  by (cases m) auto

lemma run_bind_map: "run_bind m (\<lambda>x. Ret (g x)) = Ret y \<longleftrightarrow> (\<exists>x. m = Ret x \<and> y = g x)"
  by (cases m) auto

lemmas run_cases = run_bind_case_sum run_bind_case_option run_bind_case_prod run_bind_map

text \<open>The same for a case distinction that is not the first thing a step does.\<close>

lemma case_sum_Ret:
  "case_sum f g a = Ret y \<longleftrightarrow> (\<exists>e. a = Inl e \<and> f e = Ret y) \<or> (\<exists>v. a = Inr v \<and> g v = Ret y)"
  by (cases a) auto

lemma case_option_Ret:
  "case_option x g a = Ret y \<longleftrightarrow> a = None \<and> x = Ret y \<or> (\<exists>v. a = Some v \<and> g v = Ret y)"
  by (cases a) auto

lemma if_Ret: "(if c then x else z) = Ret y \<longleftrightarrow> c \<and> x = Ret y \<or> \<not> c \<and> z = Ret y"
  by simp

lemmas run_elims = run_cases case_sum_Ret case_option_Ret if_Ret

lemma run_bind_cong [fundef_cong]:
  "m = m' \<Longrightarrow> (\<And>x. m' = Ret x \<Longrightarrow> f x = f' x) \<Longrightarrow> run_bind m f = run_bind m' f'"
  by (cases m') auto

text \<open>Go's \<open>int64\<close> arithmetic: the value of the 64-bit two's complement pattern.\<close>

definition int64 :: "int \<Rightarrow> int" where
  "int64 x = sint (word_of_int x :: u64)"

lemma int64_id [simp]: "- (2 ^ 63) \<le> x \<Longrightarrow> x < 2 ^ 63 \<Longrightarrow> int64 x = x"
  by (simp add: int64_def int_word_sint signed_take_bit_int_eq_self)

lemma int64_range: "- (2 ^ 63) \<le> int64 x \<and> int64 x < 2 ^ 63"
  using sint_ge [of "word_of_int x :: u64"] sint_lt [of "word_of_int x :: u64"] by (simp add: int64_def)

lemma int64_int64 [simp]: "int64 (int64 x + y) = int64 (x + y)" "int64 (x + int64 y) = int64 (x + y)" "int64 (int64 x) = int64 x"
  by (simp_all add: int64_def)

section \<open>Words and natural numbers\<close>

lemma word_neq_0_unat: "(x :: 'a::len word) \<noteq> 0 \<longleftrightarrow> 0 < unat x"
  by (simp add: unat_gt_0)

lemma unat_drop_bit_1: "unat (drop_bit (Suc 0) (x :: 'a::len word)) = unat x div 2"
  by (metis One_nat_def drop_bit_eq_div power_one_right unat_drop_bit_eq)

lemma unat_sub_le: "y \<le> x \<Longrightarrow> unat (x - y :: 'a::len word) = unat x - unat y"
  by (simp add: unat_sub)

lemma unat_add_le:
  fixes x y z :: "'a::len word"
  assumes "x \<le> z" and "y \<le> z - x"
  shows "unat (x + y) = unat x + unat y" and "x + y \<le> z"
proof -
  have "unat y \<le> unat z - unat x" "unat x \<le> unat z"
    using assms by (simp_all add: word_le_nat_alt unat_sub)
  moreover have "unat z < 2 ^ LENGTH('a)" by (rule unsigned_less)
  ultimately have lt: "unat x + unat y < 2 ^ LENGTH('a)" and le: "unat x + unat y \<le> unat z"
    by arith+
  show eq: "unat (x + y) = unat x + unat y"
    using lt by (simp add: unat_word_ariths)
  show "x + y \<le> z" using eq le by (simp add: word_le_nat_alt)
qed

lemma unat_plus_le: "unat (x + y :: 'a::len word) \<le> unat x + unat y"
  by (simp add: unat_word_ariths)

lemma u64_bound: "unat (x :: u64) < 2 ^ 64"
  using unsigned_less [of x] by simp

lemma unat_power2_u64: "k < 64 \<Longrightarrow> unat (2 ^ k :: u64) = 2 ^ k"
proof -
  assume "k < 64"
  then have "(2::nat) ^ k < 2 ^ 64" by (intro power_strict_increasing) auto
  then have "unat (of_nat (2 ^ k) :: u64) = 2 ^ k" by (simp only: unat_of_nat) (simp add: take_bit_nat_eq_self)
  then show ?thesis by simp
qed

lemma unat_ucast_up:
  "LENGTH('a::len) \<le> LENGTH('b::len) \<Longrightarrow> unat (ucast (x :: 'a word) :: 'b word) = unat x"
  by (simp add: unsigned_ucast_eq take_bit_nat_eq_self unsigned_less [THEN less_le_trans])

lemma and_not_mask: "(x :: 'a::len word) AND NOT (mask n) = push_bit n (drop_bit n x)"
  by (rule bit_word_eqI) (auto simp: bit_simps)

lemma unat_and_not_mask: "unat ((x :: 'a::len word) AND NOT (mask n)) = unat x - unat x mod 2 ^ n"
proof -
  have "unat x div 2 ^ n * 2 ^ n < 2 ^ LENGTH('a)"
    using unsigned_less [of x] div_times_less_eq_dividend [of "unat x" "2 ^ n"] by (rule le_less_trans [rotated])
  then have "unat (push_bit n (drop_bit n x)) = unat x div 2 ^ n * 2 ^ n"
    unfolding unsigned_push_bit_eq unat_drop_bit_eq by (simp add: push_bit_eq_mult drop_bit_eq_div take_bit_nat_eq_self)
  then show ?thesis by (simp add: and_not_mask minus_mod_eq_div_mult)
qed

lemma unat_add_less: "unat (x :: 'a::len word) + unat y < 2 ^ LENGTH('a) \<Longrightarrow> unat (x + y) = unat x + unat y"
  by (simp add: unat_word_ariths)

section \<open>Words as bytes\<close>

text \<open>The value of bytes in little-endian order, and the bytes of a value.\<close>

fun LittleEndian :: "u8 list \<Rightarrow> 'a::len word" where
  "LittleEndian [] = 0"
| "LittleEndian (b # bs) = ucast b OR push_bit 8 (LittleEndian bs)"

fun le_bytes :: "nat \<Rightarrow> 'a::len word \<Rightarrow> u8 list" where
  "le_bytes 0 w = []"
| "le_bytes (Suc n) w = ucast w # le_bytes n (drop_bit 8 w)"

lemma length_le_bytes [simp]: "length (le_bytes n w) = n"
  by (induction n arbitrary: w) simp_all

lemma le_bytes_nth: "i < n \<Longrightarrow> le_bytes n w ! i = ucast (drop_bit (8 * i) w)"
  by (induction n arbitrary: w i) (auto simp: nth_Cons less_Suc_eq_0_disj add.commute split: nat.split)

lemma LittleEndian_le_bytes: "LittleEndian (le_bytes n (w :: 'a::len word)) = take_bit (8 * n) w"
proof (induction n arbitrary: w)
  case (Suc n)
  show ?case
  proof (rule bit_word_eqI)
    fix i
    assume "i < LENGTH('a)"
    then show "bit (LittleEndian (le_bytes (Suc n) w) :: 'a word) i \<longleftrightarrow> bit (take_bit (8 * Suc n) w) i"
      by (cases "i < 8") (auto simp: Suc bit_simps)
  qed
qed simp

section \<open>Binary search of the standard library\<close>

text \<open>
  The loop of \<open>sort.Search\<close> and of \<open>slices.BinarySearchFunc\<close> on the index interval \<open>[i, j)\<close>: the
  smallest index at which \<open>f\<close> holds, when \<open>f\<close> is monotone.
\<close>

function Search_loop :: "nat \<Rightarrow> nat \<Rightarrow> (nat \<Rightarrow> bool) \<Rightarrow> nat" where
  "Search_loop i j f =
     (if i < j
      then (let h = (i + j) div 2 in if \<not> f h then Search_loop (h + 1) j f else Search_loop i h f)
      else i)"
  by pat_completeness auto
termination
  by (relation "measure (\<lambda>(i, j, f). j - i)") auto

declare Search_loop.simps [simp del]

lemma Search_loop_bounds:
  assumes "i \<le> j"
  shows "i \<le> Search_loop i j f" "Search_loop i j f \<le> j"
    "Search_loop i j f < j \<Longrightarrow> f (Search_loop i j f)"
    "i < Search_loop i j f \<Longrightarrow> \<not> f (Search_loop i j f - 1)"
proof -
  have "i \<le> Search_loop i j f \<and> Search_loop i j f \<le> j \<and> (Search_loop i j f < j \<longrightarrow> f (Search_loop i j f)) \<and>
      (i < Search_loop i j f \<longrightarrow> \<not> f (Search_loop i j f - 1))"
    using assms
  proof (induction i j f rule: Search_loop.induct)
    case (1 i j f)
    define h where "h = (i + j) div 2"
    consider "\<not> i < j" | "i < j" "f h" | "i < j" "\<not> f h" by blast
    then show ?case
    proof cases
      case 1
      with \<open>i \<le> j\<close> show ?thesis by (simp add: Search_loop.simps)
    next
      case 2
      then have h: "i \<le> h" "h < j" by (simp_all add: h_def)
      from 2 have "Search_loop i j f = Search_loop i h f"
        by (simp add: Search_loop.simps [of i j] h_def)
      with "1.IH"(2) [OF \<open>i < j\<close> h_def] 2 h show ?thesis by (auto simp: le_less)
    next
      case 3
      then have h: "i \<le> h" "h < j" by (simp_all add: h_def)
      from 3 have "Search_loop i j f = Search_loop (h + 1) j f"
        by (simp add: Search_loop.simps [of i j] h_def)
      with "1.IH"(1) [OF \<open>i < j\<close> h_def] 3 h show ?thesis
        by (cases "Search_loop (h + 1) j f = h + 1") auto
    qed
  qed
  then show "i \<le> Search_loop i j f" "Search_loop i j f \<le> j"
    "Search_loop i j f < j \<Longrightarrow> f (Search_loop i j f)"
    "i < Search_loop i j f \<Longrightarrow> \<not> f (Search_loop i j f - 1)" by blast+
qed

lemma Search_loop_monotone:
  assumes mono: "\<And>h k. h \<le> k \<Longrightarrow> k < n \<Longrightarrow> f h \<Longrightarrow> f k"
  shows "h < n \<Longrightarrow> f h \<longleftrightarrow> Search_loop 0 n f \<le> h"
proof -
  assume "h < n"
  note b = Search_loop_bounds [of 0 n f]
  show ?thesis
  proof
    assume "Search_loop 0 n f \<le> h"
    with \<open>h < n\<close> b show "f h" by (meson le_less_trans mono zero_le)
  next
    assume "f h"
    show "Search_loop 0 n f \<le> h"
    proof (rule ccontr)
      assume "\<not> Search_loop 0 n f \<le> h"
      with b have "h \<le> Search_loop 0 n f - 1" "Search_loop 0 n f - 1 < n" "\<not> f (Search_loop 0 n f - 1)"
        by auto
      with \<open>f h\<close> mono show False by blast
    qed
  qed
qed

section \<open>Runs of concurrent code\<close>

text \<open>
  Code that several goroutines enter is a transition system whose steps are labelled with the events
  they contribute; a run collects the events of its steps in order.
\<close>

inductive trace_run :: "('e list \<Rightarrow> 's \<Rightarrow> 's \<Rightarrow> bool) \<Rightarrow> 's \<Rightarrow> 'e list \<Rightarrow> 's \<Rightarrow> bool" for stp s0 where
  start: "trace_run stp s0 [] s0"
| extend: "trace_run stp s0 es s \<Longrightarrow> stp es' s s' \<Longrightarrow> trace_run stp s0 (es @ es') s'"

lemma trace_run_silent: "trace_run stp s0 es s \<Longrightarrow> stp [] s s' \<Longrightarrow> trace_run stp s0 es s'"
  using trace_run.extend [of stp s0 es s "[]" s'] by simp

text \<open>An invariant relates the events so far to the state; each step keeps it.\<close>

locale trace_invariant =
  fixes stp :: "'e list \<Rightarrow> 's \<Rightarrow> 's \<Rightarrow> bool" and inv :: "'e list \<Rightarrow> 's \<Rightarrow> bool"
  assumes inv_step: "inv es s \<Longrightarrow> stp es' s s' \<Longrightarrow> inv (es @ es') s'"
begin

lemma run_inv: "trace_run stp s0 es s \<Longrightarrow> inv [] s0 \<Longrightarrow> inv es s"
  by (induction rule: trace_run.induct) (simp_all add: inv_step)

end

end
