(* ===== verification/Lpm.thy ===== *)
theory Lpm
  imports GoPrelude
begin

text \<open>
  Longest-prefix-match keys for an address range: \<open>src/lpm/lpm.go\<close>.  The process manager splits
  every executable mapping into such keys before it writes the \<open>pid_page_to_mapping_info\<close> trie.
\<close>

section \<open>The code\<close>

record Prefix =
  Key :: u64
  Length :: u32

definition getRightmostSetBit :: "u64 \<Rightarrow> u64" where
  "getRightmostSetBit x = x AND (- x)"

text \<open>The loop \<^verbatim>\<open>for rmb > end-currentVal { rmb >>= 1 }\<close>.\<close>

function calculateRmb_shrink :: "u64 \<Rightarrow> u64 \<Rightarrow> u64" where
  "calculateRmb_shrink rmb rest =
     (if rmb > rest then calculateRmb_shrink (drop_bit 1 rmb) rest else rmb)"
  by pat_completeness auto
termination
  by (relation "measure (unat o fst)") (auto simp: unat_drop_bit_1 word_less_nat_alt)

definition calculateRmb :: "u64 \<Rightarrow> u64 \<Rightarrow> u64" where
  "calculateRmb currentVal end' =
     (let rmb = getRightmostSetBit currentVal;
          rmb = (if rmb = 0 then push_bit 63 1 else rmb)
      in calculateRmb_shrink rmb (end' - currentVal))"

text \<open>\<open>math/bits\<close>: the number of bits needed for a value, and the leading zeros of a 64-bit one.\<close>

fun bits_Len :: "nat \<Rightarrow> nat" where
  "bits_Len n = (if n = 0 then 0 else Suc (bits_Len (n div 2)))"

definition LeadingZeros64 :: "u64 \<Rightarrow> nat" where
  "LeadingZeros64 x = 64 - bits_Len (unat x)"

declare calculateRmb_shrink.simps [simp del]
declare bits_Len.simps [simp del]

section \<open>Powers of two and the rightmost set bit\<close>

lemma bits_Len_power [simp]: "bits_Len (2 ^ k) = Suc k"
proof (induction k)
  case 0
  then show ?case by (simp add: bits_Len.simps)
next
  case (Suc k)
  then show ?case by (subst bits_Len.simps) simp
qed

lemma odd_and_uminus: "odd (q :: 'a::len word) \<Longrightarrow> q AND - q = 1"
proof -
  assume "odd q"
  then have q1: "NOT q AND 1 = 0" "q AND 1 = 1"
    by (simp_all add: and_one_eq flip: odd_iff_mod_2_eq_one even_iff_mod_2_eq_zero)
  have "- q = NOT (q - 1)" by (simp add: minus_eq_not_minus_1 not_diff_distrib)
  also have "q - 1 = q AND NOT 1"
    using q1(1) by (rule disjunctive_diff_eq_and_not)
  finally have "q AND - q = q AND 1" by (simp add: bit.conj_disj_distrib)
  then show ?thesis using q1(2) by simp
qed

lemma getRightmostSetBit_0 [simp]: "getRightmostSetBit 0 = 0"
  by (simp add: getRightmostSetBit_def)

lemma getRightmostSetBit_power:
  assumes "unat x = 2 ^ k * q" and "odd q"
  shows "getRightmostSetBit x = 2 ^ k"
proof -
  have x: "x = push_bit k (of_nat q)"
  proof -
    have "x = of_nat (unat x)" by simp
    also have "\<dots> = of_nat (2 ^ k * q)" by (simp only: assms(1))
    finally show ?thesis by (simp add: push_bit_eq_mult mult.commute)
  qed
  have "odd (of_nat q :: u64)" using assms(2) by simp
  then have "of_nat q AND - of_nat q = (1 :: u64)" by (rule odd_and_uminus)
  moreover have "getRightmostSetBit x = push_bit k (of_nat q AND - of_nat q)"
    unfolding getRightmostSetBit_def x by (simp add: push_bit_minus)
  ultimately show ?thesis by (simp add: push_bit_eq_mult)
qed

lemma odd_part: "0 < (n::nat) \<Longrightarrow> \<exists>k q. n = 2 ^ k * q \<and> odd q"
proof (induction n rule: less_induct)
  case (less n)
  show ?case
  proof (cases "odd n")
    case True
    then have "n = 2 ^ 0 * n \<and> odd n" by simp
    then show ?thesis by blast
  next
    case False
    then obtain m where m: "n = 2 * m" by auto
    with less.prems have "0 < m" "m < n" by simp_all
    with less.IH obtain k q where "m = 2 ^ k * q \<and> odd q" by blast
    with m have "n = 2 ^ Suc k * q \<and> odd q" by simp
    then show ?thesis by blast
  qed
qed


section \<open>The size of one block\<close>

lemma calculateRmb_shrink_power:
  assumes "unat rmb = 2 ^ i" and "0 < unat rest"
  shows "\<exists>j\<le>i. unat (calculateRmb_shrink rmb rest) = 2 ^ j \<and> 2 ^ j \<le> unat rest \<and>
           (j = i \<or> unat rest < 2 ^ Suc j)"
  using assms
proof (induction rmb rest arbitrary: i rule: calculateRmb_shrink.induct)
  case (1 rmb rest)
  show ?case
  proof (cases "rmb > rest")
    case False
    then show ?thesis
      using 1 by (intro exI [of _ i]) (simp add: calculateRmb_shrink.simps [of rmb rest] word_less_nat_alt)
  next
    case True
    then have less: "unat rest < 2 ^ i" using "1.prems"(1) by (simp add: word_less_nat_alt)
    with "1.prems"(2) obtain m where i: "i = Suc m" by (cases i) auto
    have half: "unat (drop_bit 1 rmb) = 2 ^ m" using "1.prems"(1) i by (simp add: unat_drop_bit_1)
    with "1.IH" [OF True half "1.prems"(2)] obtain j where
      "j \<le> m" "unat (calculateRmb_shrink (drop_bit 1 rmb) rest) = 2 ^ j" "2 ^ j \<le> unat rest"
      "j = m \<or> unat rest < 2 ^ Suc j" by blast
    then show ?thesis
      using True less i by (intro exI [of _ j]) (auto simp: calculateRmb_shrink.simps [of rmb rest])
  qed
qed

text \<open>
  The block chosen at \<open>cur\<close> is a power of two that divides \<open>cur\<close>, it stays below the end, and a
  block of twice the size at \<open>cur\<close> is either not aligned or passes the end.
\<close>

lemma calculateRmb_block:
  assumes "cur < end'"
  shows "\<exists>j<64. unat (calculateRmb cur end') = 2 ^ j \<and> 2 ^ j dvd unat cur \<and>
           unat cur + 2 ^ j \<le> unat end' \<and>
           (2 ^ Suc j dvd unat cur \<longrightarrow> unat end' < unat cur + 2 ^ Suc j)"
proof -
  have rest: "unat (end' - cur) = unat end' - unat cur" "unat cur < unat end'"
    using unat_sub [OF less_imp_le [OF assms]] assms by (simp_all add: word_less_nat_alt)
  then have pos: "0 < unat (end' - cur)" by simp
  have bound: "unat end' < 2 ^ 64" by (rule u64_bound)
  show ?thesis
  proof (cases "cur = 0")
    case True
    have "unat (push_bit 63 1 :: u64) = 2 ^ 63" by simp
    from calculateRmb_shrink_power [OF this pos] obtain j where
      "j \<le> 63" "unat (calculateRmb_shrink (push_bit 63 1) (end' - cur)) = 2 ^ j"
      "2 ^ j \<le> unat (end' - cur)" "j = 63 \<or> unat (end' - cur) < 2 ^ Suc j" by blast
    moreover have "unat end' < 2 ^ Suc 63" using bound by simp
    ultimately show ?thesis
      using True rest by (intro exI [of _ j]) (auto simp: calculateRmb_def)
  next
    case False
    then obtain k q where kq: "unat cur = 2 ^ k * q" "odd q"
      using odd_part [of "unat cur"] by (auto simp: word_neq_0_unat)
    have k: "k < 64"
    proof (rule ccontr)
      assume "\<not> k < 64"
      then have "(2::nat) ^ 64 \<le> 2 ^ k" by (intro power_increasing) auto
      moreover have "2 ^ k \<le> unat cur" using kq by (cases q) auto
      ultimately show False using u64_bound [of cur] by linarith
    qed
    have rmb: "getRightmostSetBit cur = 2 ^ k" "unat (2 ^ k :: u64) = 2 ^ k"
      using getRightmostSetBit_power [OF kq] k by (simp_all add: unat_power2_u64)
    then have nz: "getRightmostSetBit cur \<noteq> 0" by (metis unsigned_0 power_not_zero zero_neq_numeral)
    from calculateRmb_shrink_power [OF rmb(2) pos] obtain j where
      j: "j \<le> k" "unat (calculateRmb_shrink (2 ^ k) (end' - cur)) = 2 ^ j"
      "2 ^ j \<le> unat (end' - cur)" "j = k \<or> unat (end' - cur) < 2 ^ Suc j" by blast
    have "\<not> 2 ^ Suc k dvd unat cur" using kq by simp
    moreover have "2 ^ j dvd unat cur" using kq(1) j(1) by (simp add: le_imp_power_dvd)
    ultimately show ?thesis
      using j k rest nz rmb(1) by (intro exI [of _ j]) (auto simp: calculateRmb_def)
  qed
qed

lemma calculateRmb_bounds:
  assumes "cur < end'"
  shows "0 < unat (calculateRmb cur end')" "calculateRmb cur end' \<le> end' - cur"
    "unat (cur + calculateRmb cur end') = unat cur + unat (calculateRmb cur end')"
    "cur + calculateRmb cur end' \<le> end'"
proof -
  obtain j where j: "unat (calculateRmb cur end') = 2 ^ j" "unat cur + 2 ^ j \<le> unat end'"
    using calculateRmb_block [OF assms] by blast
  show "0 < unat (calculateRmb cur end')" using j by simp
  show le: "calculateRmb cur end' \<le> end' - cur"
    using j assms by (simp add: word_le_nat_alt unat_sub word_less_nat_alt)
  show "unat (cur + calculateRmb cur end') = unat cur + unat (calculateRmb cur end')"
    "cur + calculateRmb cur end' \<le> end'"
    using unat_add_le [OF less_imp_le [OF assms] le] by simp_all
qed


section \<open>The list of keys\<close>

text \<open>
  \<open>CalculatePrefixList\<close> runs the walk twice: once to count the keys, once to fill a slice of that
  size.  A write past the slice would panic.
\<close>

function CalculatePrefixList_count :: "u64 \<Rightarrow> u64 \<Rightarrow> nat \<Rightarrow> nat" where
  "CalculatePrefixList_count currentVal end' listSize =
     (if currentVal < end'
      then CalculatePrefixList_count (currentVal + calculateRmb currentVal end') end' (Suc listSize)
      else listSize)"
  by pat_completeness auto
termination
  by (relation "measure (\<lambda>(c, e, n). unat e - unat c)")
    (auto simp: calculateRmb_bounds word_less_nat_alt intro!: diff_less_mono2)

function CalculatePrefixList_fill :: "u64 \<Rightarrow> u64 \<Rightarrow> nat \<Rightarrow> Prefix list \<Rightarrow> Prefix list run" where
  "CalculatePrefixList_fill currentVal end' idx list =
     (if currentVal < end'
      then (let rmb = calculateRmb currentVal end' in
            if idx < length list
            then CalculatePrefixList_fill (currentVal + rmb) end' (Suc idx)
                   (list[idx := \<lparr>Key = currentVal, Length = of_nat (1 + LeadingZeros64 rmb)\<rparr>])
            else Panic)
      else Ret list)"
  by pat_completeness auto
termination
  by (relation "measure (\<lambda>(c, e, n, l). unat e - unat c)")
    (auto simp: calculateRmb_bounds word_less_nat_alt intro!: diff_less_mono2)

declare CalculatePrefixList_count.simps [simp del]
declare CalculatePrefixList_fill.simps [simp del]

datatype lpm_error = EndNotAfterStart u64 u64

definition CalculatePrefixList :: "u64 \<Rightarrow> u64 \<Rightarrow> (lpm_error + Prefix list) run" where
  "CalculatePrefixList start end' =
     (if end' \<le> start then Ret (Inl (EndNotAfterStart end' start))
      else (let listSize = CalculatePrefixList_count start end' 0;
                list = replicate listSize \<lparr>Key = 0, Length = 0\<rparr>
            in run_bind (CalculatePrefixList_fill start end' 0 list) (\<lambda>list. Ret (Inr list))))"

section \<open>The keys as a chain of blocks\<close>

text \<open>The walk without the slice: one key per step.\<close>

function prefix_chain :: "u64 \<Rightarrow> u64 \<Rightarrow> Prefix list" where
  "prefix_chain c e =
     (if c < e
      then \<lparr>Key = c, Length = of_nat (1 + LeadingZeros64 (calculateRmb c e))\<rparr> #
           prefix_chain (c + calculateRmb c e) e
      else [])"
  by pat_completeness auto
termination
  by (relation "measure (\<lambda>(c, e). unat e - unat c)")
    (auto simp: calculateRmb_bounds word_less_nat_alt intro!: diff_less_mono2)

declare prefix_chain.simps [simp del]

lemma CalculatePrefixList_count_chain:
  "CalculatePrefixList_count c e n = n + length (prefix_chain c e)"
proof (induction c e n rule: CalculatePrefixList_count.induct)
  case (1 c e n)
  then show ?case
    by (simp add: CalculatePrefixList_count.simps [of c e] prefix_chain.simps [of c e])
qed

lemma CalculatePrefixList_fill_chain:
  assumes "length list = idx + length (prefix_chain c e)"
  shows "CalculatePrefixList_fill c e idx list = Ret (take idx list @ prefix_chain c e)"
  using assms
proof (induction c e idx list rule: CalculatePrefixList_fill.induct)
  case (1 c e idx list)
  show ?case
  proof (cases "c < e")
    case False
    with 1 show ?thesis
      by (simp add: CalculatePrefixList_fill.simps [of c e] prefix_chain.simps [of c e])
  next
    case True
    let ?p = "\<lparr>Key = c, Length = of_nat (1 + LeadingZeros64 (calculateRmb c e))\<rparr>"
    have idx: "idx < length list"
      using "1.prems" True by (simp add: prefix_chain.simps [of c e])
    have "CalculatePrefixList_fill (c + calculateRmb c e) e (Suc idx) (list[idx := ?p]) =
        Ret (take (Suc idx) (list[idx := ?p]) @ prefix_chain (c + calculateRmb c e) e)"
      using "1.prems" True idx
      by (intro "1.IH") (simp_all add: prefix_chain.simps [of c e])
    then show ?thesis
      using True idx
      by (simp add: CalculatePrefixList_fill.simps [of c e] prefix_chain.simps [of c e] Let_def
          take_Suc_conv_app_nth)
  qed
qed

lemma CalculatePrefixList_chain:
  "start < end' \<Longrightarrow> CalculatePrefixList start end' = Ret (Inr (prefix_chain start end'))"
  by (simp add: CalculatePrefixList_def CalculatePrefixList_count_chain CalculatePrefixList_fill_chain)


section \<open>What a key matches\<close>

text \<open>
  A longest-prefix-match trie entry matches an address when the \<open>Length\<close> most significant bits of
  key and address agree.
\<close>

definition prefix_shift :: "Prefix \<Rightarrow> nat" where
  "prefix_shift p = 64 - unat (Length p)"

definition prefix_match :: "Prefix \<Rightarrow> u64 \<Rightarrow> bool" where
  "prefix_match p a \<longleftrightarrow> drop_bit (prefix_shift p) a = drop_bit (prefix_shift p) (Key p)"

lemma prefix_match_div:
  "prefix_match p a \<longleftrightarrow>
     unat a div 2 ^ prefix_shift p = unat (Key p) div 2 ^ prefix_shift p"
  unfolding prefix_match_def word_unat_eq_iff unat_drop_bit_eq by (simp only: drop_bit_eq_div)

text \<open>Key and shift of the entry for one step of the walk.\<close>

lemma prefix_shift_block:
  assumes "unat rmb = 2 ^ j" and "j < 64"
  shows "prefix_shift \<lparr>Key = c, Length = of_nat (1 + LeadingZeros64 rmb)\<rparr> = j"
proof -
  have "LeadingZeros64 rmb = 63 - j" using assms by (simp add: LeadingZeros64_def)
  moreover have "unat (of_nat (1 + (63 - j)) :: u32) = 1 + (63 - j)"
    by (simp only: unat_of_nat) (simp add: take_bit_nat_eq_self)
  ultimately show ?thesis using assms(2) by (simp add: prefix_shift_def del: of_nat_Suc)
qed

lemma div_power_eq_iff:
  fixes a k :: nat
  assumes "2 ^ j dvd k"
  shows "a div 2 ^ j = k div 2 ^ j \<longleftrightarrow> k \<le> a \<and> a < k + 2 ^ j"
proof -
  obtain m where k: "k = 2 ^ j * m" using assms by (elim dvdE)
  have pos: "0 < (2::nat) ^ j" by simp
  have "a div 2 ^ j = m \<longleftrightarrow> 2 ^ j * m \<le> a \<and> a < 2 ^ j * Suc m"
  proof
    assume "a div 2 ^ j = m"
    then show "2 ^ j * m \<le> a \<and> a < 2 ^ j * Suc m"
      using dividend_less_times_div [OF pos, of a] times_div_less_eq_dividend [of "2 ^ j" a] by simp
  next
    assume "2 ^ j * m \<le> a \<and> a < 2 ^ j * Suc m"
    then show "a div 2 ^ j = m" by (intro div_nat_eqI) simp_all
  qed
  then show ?thesis using k by (simp add: algebra_simps)
qed

text \<open>The invariant of the walk: blocks that fit at an address reach back before \<open>start\<close>.\<close>

definition grows_from :: "nat \<Rightarrow> nat \<Rightarrow> nat \<Rightarrow> bool" where
  "grows_from start c e \<longleftrightarrow>
     (\<forall>j. 2 ^ j dvd c \<and> \<not> 2 ^ Suc j dvd c \<and> c + 2 ^ j \<le> e \<longrightarrow> c < start + 2 ^ j)"

lemma grows_from_start [simp]: "grows_from s s e"
  by (simp add: grows_from_def)

lemma dvd_power_add_half:
  assumes "2 ^ j dvd (c::nat)"
  shows "2 ^ Suc j dvd c + 2 ^ j \<longleftrightarrow> \<not> 2 ^ Suc j dvd c"
proof -
  obtain m where "c = 2 ^ j * m" using assms by (elim dvdE)
  then have c: "c + 2 ^ j = 2 ^ j * Suc m" "c = 2 ^ j * m" "(2::nat) ^ Suc j = 2 ^ j * 2" by simp_all
  have "2 ^ j * 2 dvd 2 ^ j * x \<longleftrightarrow> even x" for x :: nat by (rule nat_mult_dvd_cancel1) simp
  then show ?thesis by (metis c even_Suc)
qed

lemma grows_from_step:
  assumes "grows_from s c e" and "2 ^ j dvd c" and "c + 2 ^ j \<le> e"
    and max: "2 ^ Suc j dvd c \<longrightarrow> e < c + 2 ^ Suc j"
  shows "grows_from s (c + 2 ^ j) e"
  unfolding grows_from_def
proof (intro allI impI, elim conjE)
  fix i assume i: "2 ^ i dvd c + 2 ^ j" "\<not> 2 ^ Suc i dvd c + 2 ^ j" "c + 2 ^ j + 2 ^ i \<le> e"
  show "c + 2 ^ j < s + 2 ^ i"
  proof (cases "2 ^ Suc j dvd c")
    case False
    then have c: "c < s + 2 ^ j" using assms(1-3) by (simp add: grows_from_def)
    have "2 ^ Suc j dvd c + 2 ^ j" using dvd_power_add_half [OF assms(2)] False by blast
    then have "\<not> Suc i \<le> Suc j" using i(2) le_imp_power_dvd dvd_trans by blast
    then have "(2::nat) ^ Suc j \<le> 2 ^ i" by (intro power_increasing) auto
    then show ?thesis using c by simp
  next
    case True
    then have no: "\<not> 2 ^ Suc j dvd c + 2 ^ j" using dvd_power_add_half [OF assms(2)] by blast
    have "2 ^ j dvd c + 2 ^ j" using assms(2) by simp
    then have "\<not> Suc i \<le> j" using i(2) le_imp_power_dvd dvd_trans by blast
    moreover have "\<not> Suc j \<le> i" using no i(1) le_imp_power_dvd dvd_trans by blast
    ultimately have "i = j" by simp
    then show ?thesis using i(3) max True by simp
  qed
qed


text \<open>
  One step of the walk: an entry whose block lies in \<open>[c, e)\<close> and is aligned; its parent block (twice
  the size) does not fit between \<open>s\<close> and \<open>e\<close>.
\<close>

definition parent_start :: "Prefix \<Rightarrow> nat" where
  "parent_start p = unat (Key p) div 2 ^ Suc (prefix_shift p) * 2 ^ Suc (prefix_shift p)"

definition maximal_block :: "nat \<Rightarrow> nat \<Rightarrow> Prefix \<Rightarrow> bool" where
  "maximal_block s e p \<longleftrightarrow>
     \<not> (s \<le> parent_start p \<and> parent_start p + 2 ^ Suc (prefix_shift p) \<le> e)"

definition block_in :: "nat \<Rightarrow> nat \<Rightarrow> Prefix \<Rightarrow> bool" where
  "block_in c e p \<longleftrightarrow> prefix_shift p < 64 \<and> 2 ^ prefix_shift p dvd unat (Key p) \<and>
     c \<le> unat (Key p) \<and> unat (Key p) + 2 ^ prefix_shift p \<le> e"

lemma block_in_match:
  "block_in c e p \<Longrightarrow>
     prefix_match p a \<longleftrightarrow> unat (Key p) \<le> unat a \<and> unat a < unat (Key p) + 2 ^ prefix_shift p"
  by (simp add: block_in_def prefix_match_div div_power_eq_iff)

lemma parent_start_half:
  assumes "2 ^ prefix_shift p dvd unat (Key p)"
  shows "parent_start p =
    (if 2 ^ Suc (prefix_shift p) dvd unat (Key p) then unat (Key p)
     else unat (Key p) - 2 ^ prefix_shift p)"
proof -
  let ?j = "prefix_shift p"
  obtain m where k: "unat (Key p) = m * 2 ^ ?j" using assms by (metis dvdE mult.commute)
  have dvd: "2 ^ Suc ?j dvd unat (Key p) \<longleftrightarrow> even m"
    using k by (simp add: mult.commute)
  have "unat (Key p) div 2 ^ Suc ?j = m div 2"
    using k by (simp only: power_Suc2 div_mult2_eq) simp
  then have "parent_start p = m div 2 * 2 * 2 ^ ?j" by (simp add: parent_start_def)
  also have "m div 2 * 2 = (if even m then m else m - 1)" by (auto elim!: oddE)
  finally show ?thesis using dvd k by (simp add: diff_mult_distrib)
qed

lemma prefix_chain_step:
  assumes "c < e" and grow: "grows_from s (unat c) (unat e)"
  defines "p \<equiv> \<lparr>Key = c, Length = of_nat (1 + LeadingZeros64 (calculateRmb c e))\<rparr>"
  shows "block_in (unat c) (unat e) p" "maximal_block s (unat e) p"
    "grows_from s (unat (c + calculateRmb c e)) (unat e)"
    "unat (c + calculateRmb c e) = unat c + 2 ^ prefix_shift p"
proof -
  obtain j where j: "j < 64" "unat (calculateRmb c e) = 2 ^ j" "2 ^ j dvd unat c"
    "unat c + 2 ^ j \<le> unat e" "2 ^ Suc j dvd unat c \<longrightarrow> unat e < unat c + 2 ^ Suc j"
    using calculateRmb_block [OF assms(1)] by blast
  have shift: "prefix_shift p = j" and key: "Key p = c"
    unfolding p_def using prefix_shift_block [OF j(2,1)] by simp_all
  show "block_in (unat c) (unat e) p" using j shift key by (simp add: block_in_def)
  show next_addr: "unat (c + calculateRmb c e) = unat c + 2 ^ prefix_shift p"
    using calculateRmb_bounds(3) [OF assms(1)] j(2) shift by simp
  show "grows_from s (unat (c + calculateRmb c e)) (unat e)"
    unfolding next_addr shift using grow j(3,4,5) by (rule grows_from_step)
  show "maximal_block s (unat e) p"
  proof (cases "2 ^ Suc j dvd unat c")
    case True
    then show ?thesis
      using j shift key parent_start_half [of p] by (simp add: maximal_block_def)
  next
    case False
    then have "unat c < s + 2 ^ j" using grow j by (simp add: grows_from_def)
    moreover have "2 ^ j \<le> unat c" using False j(3) by (intro dvd_imp_le) (auto intro: ccontr)
    ultimately show ?thesis
      using False j shift key parent_start_half [of p] by (simp add: maximal_block_def)
  qed
qed

lemma prefix_chain_blocks:
  assumes "c \<le> e" and "grows_from s (unat c) (unat e)" and "p \<in> set (prefix_chain c e)"
  shows "block_in (unat c) (unat e) p \<and> maximal_block s (unat e) p"
  using assms
proof (induction c e rule: prefix_chain.induct)
  case (1 c e)
  let ?c' = "c + calculateRmb c e"
  have lt: "c < e" using "1.prems"(3) by (auto simp: prefix_chain.simps [of c e] split: if_splits)
  note step = prefix_chain_step [OF lt "1.prems"(2)]
  show ?case
  proof (cases "p \<in> set (prefix_chain ?c' e)")
    case True
    have "block_in (unat ?c') (unat e) p \<and> maximal_block s (unat e) p"
      using "1.IH" [OF lt calculateRmb_bounds(4) [OF lt] step(3) True] .
    moreover have "unat c \<le> unat ?c'" using step(4) by simp
    ultimately show ?thesis by (auto simp: block_in_def)
  next
    case False
    with "1.prems"(3) lt have "p = \<lparr>Key = c, Length = of_nat (1 + LeadingZeros64 (calculateRmb c e))\<rparr>"
      by (simp add: prefix_chain.simps [of c e])
    then show ?thesis using step(1,2) by blast
  qed
qed

lemma prefix_chain_unique_match:
  assumes "c \<le> e"
  shows "length (filter (\<lambda>p. prefix_match p a) (prefix_chain c e)) =
    (if c \<le> a \<and> a < e then 1 else 0)"
  using assms
proof (induction c e rule: prefix_chain.induct)
  case (1 c e)
  show ?case
  proof (cases "c < e")
    case False
    then show ?thesis by (auto simp: prefix_chain.simps [of c e])
  next
    case True
    let ?c' = "c + calculateRmb c e"
    let ?p = "\<lparr>Key = c, Length = of_nat (1 + LeadingZeros64 (calculateRmb c e))\<rparr>"
    note step = prefix_chain_step [OF True grows_from_start]
    have "prefix_match ?p a \<longleftrightarrow> c \<le> a \<and> a < ?c'"
      using block_in_match [OF step(1), of a] step(4) by (simp add: word_le_nat_alt word_less_nat_alt)
    moreover have "length (filter (\<lambda>p. prefix_match p a) (prefix_chain ?c' e)) =
        (if ?c' \<le> a \<and> a < e then 1 else 0)"
      using "1.IH" [OF True calculateRmb_bounds(4) [OF True]] .
    moreover have "unat c \<le> unat ?c'" "?c' \<le> e"
      using step(4) calculateRmb_bounds(4) [OF True] by simp_all
    ultimately show ?thesis
      using True by (auto simp: prefix_chain.simps [of c e] word_le_nat_alt word_less_nat_alt)
  qed
qed


subsection \<open>Minimality\<close>

text \<open>
  A prefix whose matches stay inside \<open>[s, e)\<close> and which matches the first address of a maximal block
  has a block no larger than it, so two maximal blocks are never served by one prefix.
\<close>

definition covers_exactly :: "Prefix list \<Rightarrow> u64 \<Rightarrow> u64 \<Rightarrow> bool" where
  "covers_exactly qs start end' \<longleftrightarrow>
     (\<forall>a. (\<exists>q \<in> set qs. prefix_match q a) \<longleftrightarrow> start \<le> a \<and> a < end')"

lemma dyadic_nested:
  assumes "i < (j::nat)" "x div 2 ^ j = y div 2 ^ (j::nat)"
  shows "(y::nat) div 2 ^ j * 2 ^ j \<le> x div 2 ^ Suc i * 2 ^ Suc i"
    "x div 2 ^ Suc i * 2 ^ Suc i + 2 ^ Suc i \<le> y div 2 ^ j * 2 ^ j + 2 ^ j"
proof -
  obtain d where d: "j = Suc i + d" using assms(1) by (metis less_iff_Suc_add add_Suc)
  have y: "y div 2 ^ j = x div 2 ^ Suc i div 2 ^ d"
    using assms(2) d by (simp only: power_add div_mult2_eq)
  let ?q = "x div 2 ^ Suc i"
  have le: "?q div 2 ^ d * 2 ^ d \<le> ?q" by simp
  have lt: "?q + 1 \<le> ?q div 2 ^ d * 2 ^ d + 2 ^ d"
    using dividend_less_times_div [of "2 ^ d" ?q] by (simp add: mult.commute)
  have e: "y div 2 ^ j * 2 ^ j = ?q div 2 ^ d * 2 ^ d * 2 ^ Suc i"
    unfolding y unfolding d power_add by (simp only: ac_simps)
  show "y div 2 ^ j * 2 ^ j \<le> ?q * 2 ^ Suc i" unfolding e using le by (intro mult_le_mono1)
  have "(?q + 1) * 2 ^ Suc i \<le> (?q div 2 ^ d * 2 ^ d + 2 ^ d) * 2 ^ Suc i"
    using lt by (intro mult_le_mono1)
  then show "?q * 2 ^ Suc i + 2 ^ Suc i \<le> y div 2 ^ j * 2 ^ j + 2 ^ j"
    unfolding e unfolding d by (simp add: power_add algebra_simps)
qed


lemma aligned_room: "k * 2 ^ n < (2::nat) ^ 64 \<Longrightarrow> n \<le> 64 \<Longrightarrow> k * 2 ^ n + 2 ^ n \<le> 2 ^ 64"
proof -
  assume "k * 2 ^ n < (2::nat) ^ 64" "n \<le> 64"
  moreover from \<open>n \<le> 64\<close> have "(2::nat) ^ 64 = 2 ^ (64 - n) * 2 ^ n" by (simp flip: power_add)
  ultimately have "k < 2 ^ (64 - n)" by (metis mult_less_cancel2)
  then have "Suc k * 2 ^ n \<le> 2 ^ (64 - n) * 2 ^ n" by (intro mult_le_mono1) simp
  with \<open>(2::nat) ^ 64 = _\<close> show ?thesis by simp
qed

lemma match_at_nat:
  assumes "a < 2 ^ 64" "unat (Key q) div 2 ^ prefix_shift q * 2 ^ prefix_shift q \<le> a"
    "a < unat (Key q) div 2 ^ prefix_shift q * 2 ^ prefix_shift q + 2 ^ prefix_shift q"
  shows "prefix_match q (of_nat a)" "unat (of_nat a :: u64) = a"
proof -
  show a: "unat (of_nat a :: u64) = a"
    using assms(1) by (simp add: unat_of_nat take_bit_nat_eq_self)
  show "prefix_match q (of_nat a)"
    unfolding prefix_match_div a using assms(2,3) by (intro div_nat_eqI) (simp_all add: mult.commute)
qed

lemma maximal_block_dominates:
  assumes p: "block_in s e p" "maximal_block s e p"
    and q: "prefix_match q (Key p)" "\<And>a. prefix_match q a \<Longrightarrow> s \<le> unat a \<and> unat a < e"
  shows "prefix_shift q \<le> prefix_shift p"
proof (rule ccontr)
  assume "\<not> prefix_shift q \<le> prefix_shift p"
  then have lt: "prefix_shift p < prefix_shift q" by simp
  let ?P = "parent_start p" and ?B = "2 ^ Suc (prefix_shift p)"
  let ?Y = "unat (Key q) div 2 ^ prefix_shift q * 2 ^ prefix_shift q"
  have nest: "?Y \<le> ?P" "?P + ?B \<le> ?Y + 2 ^ prefix_shift q"
    using dyadic_nested [OF lt q(1) [unfolded prefix_match_div]] by (simp_all only: parent_start_def)
  have "?P \<le> unat (Key p)" by (simp only: parent_start_def div_times_less_eq_dividend)
  then have "?P < 2 ^ 64" using u64_bound [of "Key p"] by linarith
  moreover have "Suc (prefix_shift p) \<le> 64" using p(1) by (simp only: block_in_def Suc_le_eq)
  ultimately have room: "?P + ?B \<le> 2 ^ 64" unfolding parent_start_def by (rule aligned_room)
  have pos: "0 < (?B::nat)" by simp
  have "s \<le> ?P"
    using match_at_nat [of ?P q] q(2) [of "of_nat ?P"] nest room pos by linarith
  moreover have "?P + ?B - 1 < e"
    using match_at_nat [of "?P + ?B - 1" q] q(2) [of "of_nat (?P + ?B - 1)"] nest room pos by linarith
  ultimately show False using p(2) pos unfolding maximal_block_def by linarith
qed

lemma coarser_match:
  assumes "prefix_match q x" "prefix_match q y" "prefix_shift q \<le> prefix_shift p" "prefix_match p x"
  shows "prefix_match p y"
proof -
  obtain d where d: "prefix_shift p = prefix_shift q + d" using assms(3) by (metis le_iff_add)
  have "unat x div 2 ^ prefix_shift p = unat y div 2 ^ prefix_shift p"
    using assms(1,2) unfolding d power_add div_mult2_eq prefix_match_div by simp
  then show ?thesis using assms(4) by (simp add: prefix_match_div)
qed

lemma prefix_chain_distinct:
  assumes "c \<le> e" shows "distinct (prefix_chain c e)"
  using assms
proof (induction c e rule: prefix_chain.induct)
  case (1 c e)
  show ?case
  proof (cases "c < e")
    case True
    let ?c' = "c + calculateRmb c e"
    note step = prefix_chain_step [OF True grows_from_start]
    have "Key p \<noteq> c" if "p \<in> set (prefix_chain ?c' e)" for p
      using prefix_chain_blocks [OF calculateRmb_bounds(4) [OF True] grows_from_start that] step(4)
      by (auto simp: block_in_def)
    with 1 True calculateRmb_bounds(4) [OF True] show ?thesis
      by (fastforce simp: prefix_chain.simps [of c e])
  qed (simp add: prefix_chain.simps [of c e])
qed

lemma filter_single_unique:
  assumes "length (filter P xs) \<le> 1" "x \<in> set xs" "y \<in> set xs" "P x" "P y"
  shows "x = y"
proof -
  have "x \<in> set (filter P xs)" "y \<in> set (filter P xs)" using assms by simp_all
  with assms(1) show ?thesis by (cases "filter P xs") auto
qed

lemma prefix_chain_minimal:
  assumes "s < e" and cover: "covers_exactly qs s e"
  shows "length (prefix_chain s e) \<le> length qs"
proof -
  let ?ps = "prefix_chain s e"
  have le: "s \<le> e" using assms(1) by simp
  have blk: "block_in (unat s) (unat e) p" "maximal_block (unat s) (unat e) p" if "p \<in> set ?ps" for p
    using prefix_chain_blocks [OF le grows_from_start that] by simp_all
  have self: "prefix_match p (Key p)" for p by (simp add: prefix_match_def)
  have "s \<le> Key p \<and> Key p < e" if "p \<in> set ?ps" for p
    using blk(1) [OF that] unfolding block_in_def word_le_nat_alt word_less_nat_alt
    by (auto elim!: less_le_trans [rotated])
  then have "\<exists>q \<in> set qs. prefix_match q (Key p)" if "p \<in> set ?ps" for p
    using cover that unfolding covers_exactly_def by blast
  then obtain f where f: "f p \<in> set qs" "prefix_match (f p) (Key p)" if "p \<in> set ?ps" for p by metis
  have inside: "unat s \<le> unat a \<and> unat a < unat e" if "q \<in> set qs" "prefix_match q a" for q a
    using cover that unfolding covers_exactly_def by (auto simp: word_le_nat_alt word_less_nat_alt)
  have "inj_on f (set ?ps)"
  proof (rule inj_onI)
    fix p p' assume pp: "p \<in> set ?ps" "p' \<in> set ?ps" "f p = f p'"
    have "prefix_shift (f p) \<le> prefix_shift p"
      using maximal_block_dominates [OF blk [OF pp(1)] f(2) [OF pp(1)]] inside [OF f(1) [OF pp(1)]] by blast
    then have "prefix_match p (Key p')"
      using coarser_match [of "f p" "Key p" "Key p'" p] f(2) [OF pp(1)] f(2) [OF pp(2)] pp(3) self by simp
    then show "p = p'"
      using prefix_chain_unique_match [OF le, of "Key p'"] pp self
      by (intro filter_single_unique [of "\<lambda>p. prefix_match p (Key p')" ?ps]) auto
  qed
  moreover have "f ` set ?ps \<subseteq> set qs" using f(1) by blast
  ultimately have "card (set ?ps) \<le> card (set qs)" by (intro card_inj_on_le) simp_all
  then show ?thesis
    using distinct_card [OF prefix_chain_distinct [OF le]] card_length [of qs] by linarith
qed


section \<open>Properties\<close>

text \<open>
  C7: For every non-empty address range the routine returns (it neither panics on its second pass
  nor fails), and each address of the range is matched by exactly one of the returned keys while no
  address outside the range is matched by any.
\<close>

theorem CalculatePrefixList_covers:
  assumes "start < end'"
  shows "\<exists>ps. CalculatePrefixList start end' = Ret (Inr ps) \<and>
    (\<forall>a. length (filter (\<lambda>p. prefix_match p a) ps) = (if start \<le> a \<and> a < end' then 1 else 0))"
  using assms CalculatePrefixList_chain prefix_chain_unique_match by (meson less_imp_le)

theorem CalculatePrefixList_covers_witness:
  "\<exists>ps. CalculatePrefixList 10 22 = Ret (Inr ps) \<and>
    (\<forall>a. length (filter (\<lambda>p. prefix_match p a) ps) = (if 10 \<le> a \<and> a < 22 then 1 else 0))"
  by (rule CalculatePrefixList_covers) simp

text \<open>
  C10: The returned key list is minimal: any list of keys that matches exactly the addresses of the
  range has at least as many entries.
\<close>

theorem CalculatePrefixList_minimal:
  assumes "CalculatePrefixList start end' = Ret (Inr ps)" and "covers_exactly qs start end'"
  shows "length ps \<le> length qs"
proof -
  have "start < end'" using assms(1) by (auto simp: CalculatePrefixList_def split: if_splits)
  then show ?thesis using assms CalculatePrefixList_chain prefix_chain_minimal by auto
qed

lemma two_addresses: "covers_exactly [\<lparr>Key = 2, Length = 64\<rparr>, \<lparr>Key = 3, Length = 64\<rparr>] 2 4"
proof -
  have "a = 2 \<or> a = 3 \<longleftrightarrow> 2 \<le> a \<and> a < 4" for a :: u64
    by (auto simp: word_le_nat_alt word_less_nat_alt word_unat_eq_iff)
  then show ?thesis by (simp add: covers_exactly_def prefix_match_def prefix_shift_def)
qed

theorem CalculatePrefixList_minimal_witness:
  "CalculatePrefixList 2 4 = Ret (Inr [\<lparr>Key = 2, Length = 63\<rparr>]) \<and>
   covers_exactly [\<lparr>Key = 2, Length = 64\<rparr>, \<lparr>Key = 3, Length = 64\<rparr>] 2 4 \<and>
   length [\<lparr>Key = 2 :: u64, Length = 63 :: u32\<rparr>] \<le> length [\<lparr>Key = 2, Length = 64\<rparr>, \<lparr>Key = 3, Length = 64\<rparr>]"
proof -
  have eq: "CalculatePrefixList 2 4 = Ret (Inr [\<lparr>Key = 2, Length = 63\<rparr>])" by code_simp
  show ?thesis using eq two_addresses CalculatePrefixList_minimal [OF eq two_addresses] by blast
qed

text \<open>
  An empty or inverted range is refused with an error, and every other range is accepted.
\<close>

theorem CalculatePrefixList_error:
  "CalculatePrefixList start end' = Ret (Inl err) \<longleftrightarrow>
     end' \<le> start \<and> err = EndNotAfterStart end' start"
proof (cases "start < end'")
  case True
  then show ?thesis by (auto simp: CalculatePrefixList_chain)
next
  case False
  then show ?thesis by (auto simp: CalculatePrefixList_def not_less)
qed

end
