(* ===== verification/Pfbufio.thy ===== *)
theory Pfbufio
  imports GoPrelude
begin

text \<open>
  The buffered section reader \<open>src/libpf/pfbufio/reader.go\<close> on top of the memory-mapped file
  \<open>src/libpf/pfelf/internal/mmap/mmap.go\<close>, and its refinement to an unbuffered byte stream with a
  position and a stack of section ends.

  The record \<open>Reader\<close> has the fields of the Go struct.  Of the pooled buffer it keeps the \<open>nbuf\<close> bytes
  that \<open>fill\<close> wrote; an access behind them, which would see stale bytes of an earlier user of the
  buffer, is a panic of the model, as is a slice expression that is out of range in Go.
\<close>

section \<open>The code\<close>

datatype io_error = EOF | ErrUnexpectedEOF | ErrBufferTooSmall | ErrNegativeCount | ErrWhence
  | ErrOffset | ErrClosed | ErrInvalidOffset | ErrFault

abbreviation (input) maxBufferSize :: int where "maxBufferSize \<equiv> 65536"

text \<open>
  \<open>ReadAt\<close> of the memory-mapped file into a slice of \<open>len\<close> bytes: the bytes copied and the error.
  \<open>None\<close> is a closed file.
\<close>

definition ReadAt :: "u8 list option \<Rightarrow> nat \<Rightarrow> int \<Rightarrow> u8 list \<times> io_error option" where
  "ReadAt source len off =
     (case source of
        None \<Rightarrow> ([], Some ErrClosed)
      | Some data \<Rightarrow>
          if off < 0 \<or> int (length data) < off then ([], Some ErrInvalidOffset)
          else let got = take len (drop (nat off) data)
               in (got, if length got < len then Some EOF else None))"

record Reader =
  r_source :: "u8 list option"
  r_start :: int
  r_off :: int
  r_limit :: int
  r_slimit :: int
  r_pos :: int
  r_nbuf :: int
  r_nlim :: int
  r_bufSize :: int
  r_sectionEnds :: "int list"
  r_buf :: "u8 list"

definition flush :: "Reader \<Rightarrow> Reader" where
  "flush r = r\<lparr>r_pos := 0, r_nbuf := 0, r_nlim := 0, r_buf := []\<rparr>"

definition Init :: "Reader \<Rightarrow> u8 list option \<Rightarrow> int \<Rightarrow> int \<Rightarrow> Reader" where
  "Init r source start maxLen =
     flush (r\<lparr>r_source := source, r_start := start, r_off := start, r_limit := int64 (start + maxLen),
              r_slimit := int64 (start + maxLen), r_bufSize := maxBufferSize\<rparr>)"

definition zero_Reader :: Reader where
  "zero_Reader = \<lparr>r_source = None, r_start = 0, r_off = 0, r_limit = 0, r_slimit = 0, r_pos = 0,
     r_nbuf = 0, r_nlim = 0, r_bufSize = 0, r_sectionEnds = [], r_buf = []\<rparr>"

definition NewReader :: "u8 list option \<Rightarrow> int \<Rightarrow> int \<Rightarrow> Reader" where
  "NewReader source start maxLen = Init zero_Reader source start maxLen"

definition Release :: "Reader \<Rightarrow> Reader" where
  "Release r = flush (r\<lparr>r_source := None, r_off := 0, r_limit := 0, r_slimit := 0, r_sectionEnds := []\<rparr>)"

definition SetBufferSize :: "Reader \<Rightarrow> int \<Rightarrow> Reader" where
  "SetBufferSize r sz = r\<lparr>r_bufSize := min (max sz 1024) maxBufferSize\<rparr>"

definition Outer :: "Reader \<Rightarrow> u8 list option \<times> int \<times> int" where
  "Outer r = (r_source r, r_start r, r_limit r - r_start r)"

definition Remaining :: "Reader \<Rightarrow> int" where
  "Remaining r = r_slimit r - r_off r + (r_nbuf r - r_pos r)"

definition Tell :: "Reader \<Rightarrow> int" where
  "Tell r = r_off r - r_start r - (r_nbuf r - r_pos r)"

text \<open>Only \<open>io.SeekStart\<close>, whose value is 0, is supported.\<close>

definition Seek :: "Reader \<Rightarrow> int \<Rightarrow> int \<Rightarrow> (int \<times> io_error option) \<times> Reader" where
  "Seek r offset whence =
     (if whence \<noteq> 0 then ((0, Some ErrWhence), r)
      else let offset = int64 (offset + r_start r)
           in if offset < r_start r then ((0, Some ErrOffset), r)
              else ((offset - r_start r, None), flush (r\<lparr>r_off := offset\<rparr>)))"

definition updateBufferLimit :: "Reader \<Rightarrow> Reader" where
  "updateBufferLimit r = r\<lparr>r_nlim := r_nbuf r - max 0 (r_off r - r_slimit r)\<rparr>"

definition fill :: "Reader \<Rightarrow> (io_error option \<times> Reader) run" where
  "fill r =
     (if r_off r \<ge> r_slimit r then Ret (Some EOF, r)
      else if r_nbuf r \<noteq> r_nlim r then Ret (Some EOF, r)
      else let preserve = r_nbuf r - r_pos r;
               toRead = min (r_bufSize r - preserve) (r_limit r - r_off r)
           in if preserve < 0 \<or> toRead < 0 \<or> preserve + toRead > maxBufferSize then Panic
              else let kept = take (nat preserve) (drop (nat (r_pos r)) (r_buf r));
                       (got, err) = ReadAt (r_source r) (nat toRead) (r_off r);
                       n = int (length got);
                       r' = updateBufferLimit (r\<lparr>r_pos := 0, r_nbuf := n + preserve,
                              r_off := r_off r + n, r_buf := kept @ got\<rparr>)
                   in Ret (if n > 0 then None else if err = None then Some EOF else err, r'))"

text \<open>The slice expression \<^verbatim>\<open>r.buf[from:to]\<close>.\<close>

definition buf_slice :: "Reader \<Rightarrow> int \<Rightarrow> int \<Rightarrow> u8 list run" where
  "buf_slice r from to =
     (if 0 \<le> from \<and> from \<le> to \<and> to \<le> int (length (r_buf r))
      then Ret (take (nat (to - from)) (drop (nat from) (r_buf r))) else Panic)"

definition ReadByte :: "Reader \<Rightarrow> ((u8 \<times> io_error option) \<times> Reader) run" where
  "ReadByte r =
     run_bind (if r_pos r \<ge> r_nlim r then fill r else Ret (None, r)) (\<lambda>(err, r).
     case err of
       Some e \<Rightarrow> Ret ((0, Some e), r)
     | None \<Rightarrow>
         if 0 \<le> r_pos r \<and> r_pos r < int (length (r_buf r))
         then Ret ((r_buf r ! nat (r_pos r), None), r\<lparr>r_pos := r_pos r + 1\<rparr>)
         else Panic)"

definition Peek :: "Reader \<Rightarrow> int \<Rightarrow> ((u8 list option \<times> io_error option) \<times> Reader) run" where
  "Peek r n =
     (if n > r_bufSize r then Ret ((None, Some ErrBufferTooSmall), r)
      else run_bind (if r_nlim r - r_pos r < n then fill r else Ret (None, r)) (\<lambda>(err, r).
        case err of
          Some e \<Rightarrow> Ret ((None, Some e), r)
        | None \<Rightarrow>
            if r_nlim r - r_pos r < n then Ret ((None, Some EOF), r)
            else run_bind (buf_slice r (r_pos r) (r_pos r + n)) (\<lambda>b. Ret ((Some b, None), r))))"

definition ReadN :: "Reader \<Rightarrow> int \<Rightarrow> ((u8 list option \<times> io_error option) \<times> Reader) run" where
  "ReadN r n =
     run_bind (Peek r n) (\<lambda>((b, err), r).
       Ret ((b, err), if b = None then r else r\<lparr>r_pos := r_pos r + n\<rparr>))"

text \<open>Little-endian numbers; an error reads as 0.\<close>

definition Uint8 :: "Reader \<Rightarrow> (u8 \<times> Reader) run" where
  "Uint8 r = run_bind (ReadByte r) (\<lambda>((val, _), r). Ret (val, r))"

definition Uint16 :: "Reader \<Rightarrow> (u16 \<times> Reader) run" where
  "Uint16 r = run_bind (ReadN r 2) (\<lambda>((buf, err), r).
     Ret (case (buf, err) of (Some bs, None) \<Rightarrow> LittleEndian bs | _ \<Rightarrow> 0, r))"

definition Uint32 :: "Reader \<Rightarrow> (u32 \<times> Reader) run" where
  "Uint32 r = run_bind (ReadN r 4) (\<lambda>((buf, err), r).
     Ret (case (buf, err) of (Some bs, None) \<Rightarrow> LittleEndian bs | _ \<Rightarrow> 0, r))"

definition Uint64 :: "Reader \<Rightarrow> (u64 \<times> Reader) run" where
  "Uint64 r = run_bind (ReadN r 8) (\<lambda>((buf, err), r).
     Ret (case (buf, err) of (Some bs, None) \<Rightarrow> LittleEndian bs | _ \<Rightarrow> 0, r))"

text \<open>The signed variants reinterpret the same bits.\<close>

definition Int16 :: "Reader \<Rightarrow> (int \<times> Reader) run" where
  "Int16 r = run_bind (Uint16 r) (\<lambda>(v, r). Ret (sint v, r))"

definition Int32 :: "Reader \<Rightarrow> (int \<times> Reader) run" where
  "Int32 r = run_bind (Uint32 r) (\<lambda>(v, r). Ret (sint v, r))"

definition Int64 :: "Reader \<Rightarrow> (int \<times> Reader) run" where
  "Int64 r = run_bind (Uint64 r) (\<lambda>(v, r). Ret (sint v, r))"

text \<open>The bytes a source still holds behind an offset: the measure of the reading loops.\<close>

definition unread :: "Reader \<Rightarrow> nat" where
  "unread r = (case r_source r of None \<Rightarrow> 0 | Some data \<Rightarrow> nat (int (length data) - r_off r))"

lemma unread_pos [simp]: "unread (r\<lparr>r_pos := p\<rparr>) = unread r"
  by (simp add: unread_def split: option.splits)

lemma ReadAt_unread:
  "ReadAt (r_source r) len (r_off r) = (got, err) \<Longrightarrow> got \<noteq> [] \<Longrightarrow>
     0 \<le> r_off r \<and> length got \<le> unread r \<and> 0 < unread r"
  by (auto simp: ReadAt_def unread_def Let_def split: option.splits if_splits)

lemma fill_unread:
  assumes "fill r = Ret (None, r')"
  shows "unread r' < unread r"
  using assms ReadAt_unread [of r]
  by (fastforce simp: fill_def Let_def unread_def updateBufferLimit_def
      split: if_splits prod.splits option.splits)

text \<open>The loop of \<open>Discard\<close>, entered with \<open>discarded\<close> bytes skipped.\<close>

function Discard_loop :: "Reader \<Rightarrow> int \<Rightarrow> int \<Rightarrow> ((int \<times> io_error option) \<times> Reader) run" where
  "Discard_loop r n discarded =
     (if discarded < n
      then run_bind (if r_pos r \<ge> r_nlim r then fill r else Ret (None, r)) (\<lambda>(err, r').
           case err of
             Some e \<Rightarrow> Ret ((discarded, Some e), r')
           | None \<Rightarrow>
               let partial = min (r_nlim r' - r_pos r') (n - discarded)
               in Discard_loop (r'\<lparr>r_pos := r_pos r' + partial\<rparr>) n (discarded + partial))
      else Ret ((discarded, None), r))"
  by pat_completeness auto
termination
proof (relation "measures [\<lambda>(r, n, d). unread r, \<lambda>(r, n, d). nat (n - d)]", goal_cases)
  case (2 r n d x err r' partial)
  then show ?case
    using fill_unread [of r r'] by (auto split: if_splits)
qed simp

definition Discard :: "Reader \<Rightarrow> int \<Rightarrow> ((int \<times> io_error option) \<times> Reader) run" where
  "Discard r n = (if n < 0 then Ret ((0, Some ErrNegativeCount), r) else Discard_loop r n 0)"

declare Discard_loop.simps [simp del]

text \<open>
  The loop of \<open>Read\<close> into a slice of \<open>len\<close> bytes, entered with the bytes \<open>p\<close> already copied; the result
  is the copied prefix (whose length is the code's \<open>n\<close>) and the error.
\<close>

function Read_loop :: "Reader \<Rightarrow> nat \<Rightarrow> u8 list \<Rightarrow> ((u8 list \<times> io_error option) \<times> Reader) run" where
  "Read_loop r len p =
     (if length p < len
      then if r_pos r < r_nlim r
           then run_bind (buf_slice r (r_pos r) (r_nlim r)) (\<lambda>avail.
                let copied = take (len - length p) avail
                in Read_loop (r\<lparr>r_pos := r_pos r + int (length copied)\<rparr>) len (p @ copied))
           else if r_nlim r \<noteq> r_nbuf r \<or> r_off r \<ge> r_limit r
           then Ret (if p \<noteq> [] then (p, None) else ([], Some EOF), r)
           else let toRead = int (len - length p)
                in if toRead \<ge> r_bufSize r
                   then let toRead = (if toRead > r_slimit r - r_off r then r_slimit r - r_off r else toRead)
                        in if toRead < 0 then Panic
                           else let (got, ferr) = ReadAt (r_source r) (nat toRead) (r_off r)
                                in Ret ((p @ got, ferr), r\<lparr>r_off := r_off r + int (length got)\<rparr>)
                   else run_bind (fill r) (\<lambda>(err, r').
                        case err of
                          Some e \<Rightarrow> Ret ((p, if length p = len then None else Some e), r')
                        | None \<Rightarrow> Read_loop r' len p)
      else Ret ((p, None), r))"
  by pat_completeness auto
termination
proof (relation "measures [\<lambda>(r, len, p). unread r, \<lambda>(r, len, p). len - length p]", goal_cases)
  case (2 r len p avail copied)
  then have "avail \<noteq> []" by (auto simp: buf_slice_def split: if_splits)
  with 2 show ?case by (simp add: diff_less_mono2)
next
  case (3 r len p)
  then show ?case using fill_unread by auto
qed simp

definition Read :: "Reader \<Rightarrow> nat \<Rightarrow> ((u8 list \<times> io_error option) \<times> Reader) run" where
  "Read r len = Read_loop r len []"

text \<open>\<open>bytes.IndexByte\<close> and \<open>bytes.Index\<close>: the position of the first occurrence.\<close>

fun IndexByte :: "u8 list \<Rightarrow> u8 \<Rightarrow> nat option" where
  "IndexByte [] c = None"
| "IndexByte (b # bs) c = (if b = c then Some 0 else map_option Suc (IndexByte bs c))"

fun bytes_Index :: "u8 list \<Rightarrow> u8 list \<Rightarrow> nat option" where
  "bytes_Index bs pat =
     (if take (length pat) bs = pat then Some 0
      else case bs of [] \<Rightarrow> None | _ # bs' \<Rightarrow> map_option Suc (bytes_Index bs' pat))"

function ReadSlice :: "Reader \<Rightarrow> u8 \<Rightarrow> ((u8 list option \<times> io_error option) \<times> Reader) run" where
  "ReadSlice r delim =
     run_bind (buf_slice r (r_pos r) (r_nlim r)) (\<lambda>view.
     case IndexByte view delim of
       Some i \<Rightarrow> Ret ((Some (take i view), None), r\<lparr>r_pos := r_pos r + int i + 1\<rparr>)
     | None \<Rightarrow>
         if r_off r \<ge> r_slimit r then Ret ((Some view, Some EOF), r\<lparr>r_pos := r_nlim r\<rparr>)
         else if r_nlim r \<noteq> r_nbuf r \<or> r_pos r = 0 \<and> r_nbuf r = r_bufSize r
         then Ret ((Some view, Some ErrBufferTooSmall), r\<lparr>r_pos := r_nlim r\<rparr>)
         else run_bind (fill r) (\<lambda>(err, r').
              case err of Some e \<Rightarrow> Ret ((None, Some e), r') | None \<Rightarrow> ReadSlice r' delim))"
  by pat_completeness auto
termination
  by (relation "measure (\<lambda>(r, delim). unread r)") (auto simp: fill_unread)

definition ReadStringN :: "Reader \<Rightarrow> int \<Rightarrow> ((u8 list option \<times> io_error option) \<times> Reader) run" where
  "ReadStringN r n = ReadN r n"

definition ReadString :: "Reader \<Rightarrow> u8 \<Rightarrow> ((u8 list option \<times> io_error option) \<times> Reader) run" where
  "ReadString r delim = ReadSlice r delim"

text \<open>
  \<open>WalkStrings\<close>: the callback is a function of its own state \<open>c\<close>, the offset and the string; it returns
  an error or none, and the new state.  The error is the reader's (\<open>Inl\<close>) or the callback's (\<open>Inr\<close>).
\<close>

primrec WalkStrings ::
  "nat \<Rightarrow> Reader \<Rightarrow> ('c \<Rightarrow> int \<Rightarrow> u8 list \<Rightarrow> 'e option \<times> 'c) \<Rightarrow> 'c \<Rightarrow>
     ((io_error + 'e) option \<times> 'c \<times> Reader) run" where
  "WalkStrings 0 r fn c = Ret (None, c, r)"
| "WalkStrings (Suc n) r fn c =
     (let offset = Tell r in
      run_bind (ReadString r 0) (\<lambda>((s, err), r).
      case err of
        Some e \<Rightarrow> Ret (Some (Inl e), c, r)
      | None \<Rightarrow>
          (case fn c offset (case s of Some b \<Rightarrow> b | None \<Rightarrow> []) of
             (Some e, c) \<Rightarrow> Ret (Some (Inr e), c, r)
           | (None, c) \<Rightarrow> WalkStrings n r fn c)))"

definition WalkAllStrings ::
  "Reader \<Rightarrow> ('c \<Rightarrow> int \<Rightarrow> u8 list \<Rightarrow> 'e option \<times> 'c) \<Rightarrow> 'c \<Rightarrow>
     ((io_error + 'e) option \<times> 'c \<times> Reader) run" where
  "WalkAllStrings r fn c =
     run_bind (WalkStrings (2 ^ 63 - 1) r fn c) (\<lambda>(err, c, r).
       Ret (if err = Some (Inl EOF) then None else err, c, r))"

function SearchSlice_loop :: "Reader \<Rightarrow> u8 list \<Rightarrow> ((int \<times> io_error option) \<times> Reader) run" where
  "SearchSlice_loop r pattern =
     run_bind (buf_slice r (r_pos r) (r_nlim r)) (\<lambda>view.
     case bytes_Index view pattern of
       Some i \<Rightarrow> Ret ((Tell r + int i, None), r\<lparr>r_pos := r_pos r + int i + int (length pattern)\<rparr>)
     | None \<Rightarrow>
         let r = r\<lparr>r_pos := r_nlim r - min (r_nlim r - r_pos r) (int (length pattern) - 1)\<rparr>
         in run_bind (fill r) (\<lambda>(err, r').
            case err of Some e \<Rightarrow> Ret ((-1, Some e), r'\<lparr>r_pos := r_nlim r'\<rparr>)
            | None \<Rightarrow> SearchSlice_loop r' pattern))"
  by pat_completeness auto
termination
  by (relation "measure (\<lambda>(r, pattern). unread r)") (auto dest: fill_unread)

definition SearchSlice :: "Reader \<Rightarrow> u8 list \<Rightarrow> ((int \<times> io_error option) \<times> Reader) run" where
  "SearchSlice r pattern = (if pattern = [] then Ret ((Tell r, None), r) else SearchSlice_loop r pattern)"

definition StartSection :: "Reader \<Rightarrow> int \<Rightarrow> io_error option \<times> Reader" where
  "StartSection r n =
     (if n < 0 then (Some ErrNegativeCount, r)
      else if Remaining r < n then (Some ErrUnexpectedEOF, r)
      else (None, updateBufferLimit (r\<lparr>r_sectionEnds := r_sectionEnds r @ [r_slimit r],
                    r_slimit := r_off r - (r_nbuf r - r_pos r) + n\<rparr>)))"

definition EndSection :: "Reader \<Rightarrow> Reader run" where
  "EndSection r =
     (if r_sectionEnds r = [] then Panic
      else let oldEnd = last (r_sectionEnds r);
               r = r\<lparr>r_sectionEnds := butlast (r_sectionEnds r)\<rparr>
           in run_bind (if Remaining r > 0 then Discard r (Remaining r) else Ret ((0, None), r))
                (\<lambda>(_, r). Ret (updateBufferLimit (r\<lparr>r_slimit := oldEnd\<rparr>))))"

declare Read_loop.simps [simp del] ReadSlice.simps [simp del] SearchSlice_loop.simps [simp del]

section \<open>The stream a reader implements\<close>

text \<open>
  Without its buffer a reader is a file, a position in it, the end of the current section and the
  ends of the enclosing ones.  The bytes at hand are those before the section's end and the file's.
\<close>

record strm =
  s_source :: "u8 list option"
  s_start :: int
  s_limit :: int
  s_bufSize :: int
  s_cur :: int
  s_slimit :: int
  s_ends :: "int list"

definition content :: "u8 list option \<Rightarrow> u8 list" where
  "content src = (case src of None \<Rightarrow> [] | Some data \<Rightarrow> data)"

definition s_avail :: "strm \<Rightarrow> int" where
  "s_avail s =
     (if s_cur s < 0 then 0
      else max 0 (min (s_slimit s) (int (length (content (s_source s)))) - s_cur s))"

definition s_bytes :: "strm \<Rightarrow> u8 list" where
  "s_bytes s = take (nat (s_avail s)) (drop (nat (s_cur s)) (content (s_source s)))"

text \<open>The error of a read that finds no byte.\<close>

definition s_error :: "strm \<Rightarrow> io_error" where
  "s_error s =
     (if s_cur s \<ge> s_slimit s then EOF
      else case s_source s of None \<Rightarrow> ErrClosed
           | Some data \<Rightarrow>
               if s_cur s < 0 \<or> int (length data) < s_cur s then ErrInvalidOffset else EOF)"

definition s_advance :: "strm \<Rightarrow> int \<Rightarrow> strm" where
  "s_advance s n = s\<lparr>s_cur := s_cur s + n\<rparr>"

definition s_ReadByte :: "strm \<Rightarrow> (u8 \<times> io_error option) \<times> strm" where
  "s_ReadByte s = (case s_bytes s of [] \<Rightarrow> ((0, Some (s_error s)), s) | b # _ \<Rightarrow> ((b, None), s_advance s 1))"

definition s_ReadN :: "strm \<Rightarrow> nat \<Rightarrow> (u8 list option \<times> io_error option) \<times> strm" where
  "s_ReadN s n =
     (if int n > s_bufSize s then ((None, Some ErrBufferTooSmall), s)
      else if n \<le> length (s_bytes s) then ((Some (take n (s_bytes s)), None), s_advance s (int n))
      else ((None, Some (s_error s)), s))"

definition s_Discard :: "strm \<Rightarrow> int \<Rightarrow> (int \<times> io_error option) \<times> strm" where
  "s_Discard s n =
     (if n < 0 then ((0, Some ErrNegativeCount), s)
      else let k = min n (s_avail s); s' = s_advance s k
           in ((k, if k = n then None else Some (s_error s')), s'))"

definition s_Remaining :: "strm \<Rightarrow> int" where
  "s_Remaining s = s_slimit s - s_cur s"

definition s_Tell :: "strm \<Rightarrow> int" where
  "s_Tell s = s_cur s - s_start s"

definition s_Seek :: "strm \<Rightarrow> int \<Rightarrow> int \<Rightarrow> (int \<times> io_error option) \<times> strm" where
  "s_Seek s offset whence =
     (if whence \<noteq> 0 then ((0, Some ErrWhence), s)
      else let offset = int64 (offset + s_start s)
           in if offset < s_start s then ((0, Some ErrOffset), s)
              else ((offset - s_start s, None), s\<lparr>s_cur := offset\<rparr>))"

definition s_StartSection :: "strm \<Rightarrow> int \<Rightarrow> io_error option \<times> strm" where
  "s_StartSection s n =
     (if n < 0 then (Some ErrNegativeCount, s)
      else if s_Remaining s < n then (Some ErrUnexpectedEOF, s)
      else (None, s\<lparr>s_ends := s_ends s @ [s_slimit s], s_slimit := s_cur s + n\<rparr>))"

definition s_EndSection :: "strm \<Rightarrow> strm run" where
  "s_EndSection s =
     (if s_ends s = [] then Panic
      else let s' = (if s_Remaining s > 0 then snd (s_Discard s (s_Remaining s)) else s)
           in Ret (s'\<lparr>s_slimit := last (s_ends s), s_ends := butlast (s_ends s)\<rparr>))"

section \<open>Refinement\<close>

definition r_cur :: "Reader \<Rightarrow> int" where
  "r_cur r = r_off r - (r_nbuf r - r_pos r)"

definition stream_of :: "Reader \<Rightarrow> strm" where
  "stream_of r = \<lparr>s_source = r_source r, s_start = r_start r, s_limit = r_limit r,
     s_bufSize = r_bufSize r, s_cur = r_cur r, s_slimit = r_slimit r, s_ends = r_sectionEnds r\<rparr>"

text \<open>
  The invariant: the buffer holds the file's bytes in front of \<open>off\<close>, the position lies in it and
  before the section's end, and the enclosing sections end no earlier than the inner ones.
\<close>

definition reader_wf :: "Reader \<Rightarrow> bool" where
  "reader_wf r \<longleftrightarrow>
     0 \<le> r_pos r \<and> r_pos r \<le> r_nlim r \<and> 0 \<le> r_off r - r_nbuf r \<and>
     r_nlim r = (if r_nbuf r = 0 then 0 else r_nbuf r - max 0 (r_off r - r_slimit r)) \<and>
     int (length (r_buf r)) = r_nbuf r \<and>
     r_buf r = take (length (r_buf r)) (drop (nat (r_off r - r_nbuf r)) (content (r_source r))) \<and>
     r_nbuf r \<le> r_bufSize r \<and> 0 < r_bufSize r \<and> r_bufSize r \<le> maxBufferSize \<and> 0 \<le> r_start r \<and>
     sorted_wrt (\<ge>) (r_limit r # r_sectionEnds r @ [r_slimit r])"

lemma stream_of_simps [simp]:
  "s_source (stream_of r) = r_source r" "s_start (stream_of r) = r_start r"
  "s_limit (stream_of r) = r_limit r" "s_bufSize (stream_of r) = r_bufSize r"
  "s_cur (stream_of r) = r_cur r" "s_slimit (stream_of r) = r_slimit r"
  "s_ends (stream_of r) = r_sectionEnds r"
  by (simp_all add: stream_of_def)

lemma reader_wfD:
  assumes "reader_wf r"
  shows "0 \<le> r_pos r" "r_pos r \<le> r_nlim r" "r_nlim r \<le> r_nbuf r" "r_nbuf r \<le> r_off r"
    "int (length (r_buf r)) = r_nbuf r" "r_nbuf r - r_pos r \<le> r_bufSize r" "0 < r_bufSize r"
    "r_bufSize r \<le> maxBufferSize" "r_slimit r \<le> r_limit r" "r_nbuf r \<le> r_bufSize r" "0 \<le> r_start r"
    "r_nbuf r = 0 \<and> r_nlim r = 0 \<or> r_nlim r = r_nbuf r - max 0 (r_off r - r_slimit r)"
  using assms unfolding reader_wf_def by (auto split: if_splits)

lemma reader_wf_cur: "reader_wf r \<Longrightarrow> 0 \<le> r_cur r \<and> r_cur r \<le> r_off r"
  using reader_wfD [of r] by (simp add: r_cur_def)

lemma stream_avail:
  "reader_wf r \<Longrightarrow> s_avail (stream_of r) =
     max 0 (min (r_slimit r) (int (length (content (r_source r)))) - r_cur r)"
  using reader_wf_cur [of r] by (simp add: s_avail_def)

lemma reader_wf_buf_eq:
  "reader_wf r \<Longrightarrow>
     r_buf r = take (length (r_buf r)) (drop (nat (r_off r - r_nbuf r)) (content (r_source r)))"
  unfolding reader_wf_def by blast

lemma reader_wf_off:
  assumes "reader_wf r" "0 < r_nbuf r"
  shows "r_off r \<le> int (length (content (r_source r)))" "r_source r \<noteq> None"
proof -
  let ?c = "content (r_source r)" and ?b = "nat (r_off r - r_nbuf r)"
  note wf = reader_wfD [OF assms(1)]
  have "length (r_buf r) \<le> length ?c - ?b"
    using arg_cong [OF reader_wf_buf_eq [OF assms(1)], of length] by simp
  then show "r_off r \<le> int (length ?c)" using wf assms(2) by linarith
  then have "?c \<noteq> []" using wf assms(2) by auto
  then show "r_source r \<noteq> None" by (auto simp: content_def split: option.splits)
qed

text \<open>The buffered bytes are the ones at the stream's position.\<close>

lemma reader_wf_buf:
  assumes "reader_wf r"
  shows "drop (nat (r_pos r)) (r_buf r) =
    take (nat (r_nbuf r - r_pos r)) (drop (nat (r_cur r)) (content (r_source r)))"
proof -
  let ?b = "nat (r_off r - r_nbuf r)"
  have eq: "nat (r_cur r) = nat (r_pos r) + ?b" "length (r_buf r) - nat (r_pos r) = nat (r_nbuf r - r_pos r)"
    using reader_wfD [OF assms] unfolding r_cur_def by linarith+
  have "drop (nat (r_pos r)) (r_buf r) =
      drop (nat (r_pos r)) (take (length (r_buf r)) (drop ?b (content (r_source r))))"
    using reader_wf_buf_eq [OF assms] by simp
  also have "\<dots> = take (length (r_buf r) - nat (r_pos r)) (drop (nat (r_pos r) + ?b) (content (r_source r)))"
    by (simp add: drop_take)
  finally show ?thesis by (simp only: eq)
qed

lemma reader_wf_avail:
  assumes "reader_wf r"
  shows "r_nlim r - r_pos r \<le> s_avail (stream_of r)"
    "r_off r \<ge> r_slimit r \<or> r_nbuf r \<noteq> r_nlim r \<Longrightarrow> s_avail (stream_of r) = r_nlim r - r_pos r"
  using reader_wfD [OF assms] reader_wf_off(1) [OF assms] unfolding stream_avail [OF assms] r_cur_def
  by linarith+

lemma reader_wf_bytes:
  assumes "reader_wf r" "0 \<le> n" "n \<le> r_nlim r - r_pos r"
  shows "take (nat n) (drop (nat (r_pos r)) (r_buf r)) = take (nat n) (s_bytes (stream_of r))"
    "length (take (nat n) (drop (nat (r_pos r)) (r_buf r))) = nat n"
proof -
  have "nat n \<le> nat (r_nbuf r - r_pos r)" "nat n \<le> nat (s_avail (stream_of r))"
    using assms reader_wf_avail(1) [OF assms(1)] reader_wfD [OF assms(1)] by linarith+
  then show "take (nat n) (drop (nat (r_pos r)) (r_buf r)) = take (nat n) (s_bytes (stream_of r))"
    by (simp only: reader_wf_buf [OF assms(1)] s_bytes_def take_take stream_of_simps min.absorb1)
  have "nat n + nat (r_pos r) \<le> length (r_buf r)"
    using assms(2,3) reader_wfD [OF assms(1)] by linarith
  then show "length (take (nat n) (drop (nat (r_pos r)) (r_buf r))) = nat n" by simp
qed

lemma length_s_bytes: "length (s_bytes s) = nat (s_avail s)"
  by (simp add: s_bytes_def s_avail_def)

text \<open>Filling the buffer is invisible in the stream.\<close>

lemma fill_blocked:
  assumes wf: "reader_wf r" and "r_off r \<ge> r_slimit r \<or> r_nbuf r \<noteq> r_nlim r"
  shows "fill r = Ret (Some EOF, r)" "s_error (stream_of r) = EOF"
proof -
  show "fill r = Ret (Some EOF, r)" using assms(2) by (auto simp: fill_def)
  have "r_slimit r \<le> r_off r" using assms(2) reader_wfD [OF wf] by linarith
  then show "s_error (stream_of r) = EOF"
    using reader_wfD [OF wf] reader_wf_off [OF wf]
    by (cases "r_nbuf r = 0") (auto simp: s_error_def r_cur_def content_def split: option.splits)
qed

text \<open>What \<open>fill\<close> does when it reads: \<open>got\<close> are the bytes behind the buffered ones.\<close>

lemma fill_reads:
  assumes wf: "reader_wf r" and go: "r_off r < r_slimit r" "r_nbuf r = r_nlim r"
  defines "toRead \<equiv> min (r_bufSize r - (r_nbuf r - r_pos r)) (r_limit r - r_off r)"
  defines "got \<equiv> take (nat toRead) (drop (nat (r_off r)) (content (r_source r)))"
  defines "r' \<equiv> updateBufferLimit (r\<lparr>r_pos := 0, r_nbuf := int (length got) + (r_nbuf r - r_pos r),
      r_off := r_off r + int (length got), r_buf := drop (nat (r_pos r)) (r_buf r) @ got\<rparr>)"
  shows "fill r = Ret (if got \<noteq> [] then None else
      (case snd (ReadAt (r_source r) (nat toRead) (r_off r)) of None \<Rightarrow> Some EOF | e \<Rightarrow> e), r')"
    "0 \<le> toRead"
proof -
  note w = reader_wfD [OF wf]
  show tr: "0 \<le> toRead" using w go unfolding toRead_def by linarith
  have fst: "fst (ReadAt (r_source r) (nat toRead) (r_off r)) = got"
    using w go by (auto simp: ReadAt_def got_def content_def Let_def split: option.splits)
  have kept: "take (nat (r_nbuf r - r_pos r)) (drop (nat (r_pos r)) (r_buf r)) = drop (nat (r_pos r)) (r_buf r)"
    using w by (intro take_all) simp
  have room: "r_nbuf r - r_pos r + toRead \<le> maxBufferSize" using w unfolding toRead_def by linarith
  show "fill r = Ret (if got \<noteq> [] then None else
      (case snd (ReadAt (r_source r) (nat toRead) (r_off r)) of None \<Rightarrow> Some EOF | e \<Rightarrow> e), r')"
    using go w(1-4) tr fst room unfolding fill_def Let_def kept toRead_def [symmetric] r'_def
    by (cases "ReadAt (r_source r) (nat toRead) (r_off r)") (auto split: option.splits)
qed

lemma take_drop_join:
  "a = n + b \<Longrightarrow> take n (drop b xs) @ take m (drop a xs) = take (n + m) (drop b xs)"
  by (simp add: take_add)

lemma take_length_self: "xs = take n ys \<Longrightarrow> xs = take (length xs) ys"
  by (auto simp: min_def)

lemma fill_wf:
  assumes wf: "reader_wf r" and go: "r_off r < r_slimit r" "r_nbuf r = r_nlim r"
    and m: "0 \<le> m" "m \<le> r_bufSize r - (r_nbuf r - r_pos r)"
  defines "got \<equiv> take (nat m) (drop (nat (r_off r)) (content (r_source r)))"
  defines "r' \<equiv> updateBufferLimit (r\<lparr>r_pos := 0, r_nbuf := int (length got) + (r_nbuf r - r_pos r),
      r_off := r_off r + int (length got), r_buf := drop (nat (r_pos r)) (r_buf r) @ got\<rparr>)"
  shows "reader_wf r'" "stream_of r' = stream_of r"
    "r_nlim r' - r_pos r' = min (r_off r + int (length got)) (r_slimit r) - r_cur r"
proof -
  note w = reader_wfD [OF wf]
  let ?c = "content (r_source r)" and ?k = "r_nbuf r - r_pos r"
  have len: "int (length got) \<le> m" using m(1) by (simp add: got_def)
  show str: "stream_of r' = stream_of r"
    by (simp add: stream_of_def r'_def updateBufferLimit_def r_cur_def)
  have nl: "r_nlim r' = (int (length got) + ?k) - max 0 (r_off r + int (length got) - r_slimit r)"
    by (simp add: r'_def updateBufferLimit_def)
  then show "r_nlim r' - r_pos r' = min (r_off r + int (length got)) (r_slimit r) - r_cur r"
    by (simp add: r'_def updateBufferLimit_def r_cur_def)
  have buf: "r_buf r' = take (length (r_buf r')) (drop (nat (r_cur r)) ?c)"
  proof (cases "0 < r_nbuf r")
    case True
    have "r_buf r' = take (nat ?k) (drop (nat (r_cur r)) ?c) @ got"
      by (simp add: r'_def updateBufferLimit_def reader_wf_buf [OF wf])
    also have "\<dots> = take (nat ?k + nat m) (drop (nat (r_cur r)) ?c)"
      unfolding got_def using w by (intro take_drop_join) (auto simp: r_cur_def)
    finally show ?thesis by (rule take_length_self)
  next
    case False
    then have "length (r_buf r) = 0" "r_cur r = r_off r" using w unfolding r_cur_def by linarith+
    then have "r_buf r' = take (nat m) (drop (nat (r_cur r)) ?c)"
      by (simp add: r'_def updateBufferLimit_def got_def)
    then show ?thesis by (rule take_length_self)
  qed
  have lb: "int (length (r_buf r')) = int (length got) + ?k"
    using w by (simp add: r'_def updateBufferLimit_def)
  have "sorted_wrt (\<ge>) (r_limit r # r_sectionEnds r @ [r_slimit r])"
    using wf unfolding reader_wf_def by blast
  moreover have "r_off r' - r_nbuf r' = r_cur r" "r_nbuf r' = int (length (r_buf r'))"
    using w by (simp_all add: r'_def updateBufferLimit_def r_cur_def)
  moreover have "0 \<le> r_nlim r'" using nl go w by linarith
  ultimately show "reader_wf r'"
    using buf lb nl w m len go reader_wf_cur [OF wf] unfolding reader_wf_def
    by (auto simp: r'_def updateBufferLimit_def)
qed

text \<open>
  \<open>fill\<close> as the other operations use it: the stream stays as it is; either the buffer then shows as
  much of the stream as fits, or nothing more can be shown and the error is the stream's.
\<close>

lemma fill_spec:
  assumes wf: "reader_wf r"
  obtains e r' where "fill r = Ret (e, r')" "reader_wf r'" "stream_of r' = stream_of r"
    "e = None \<Longrightarrow> r_nlim r' - r_pos r' = min (r_bufSize r) (s_avail (stream_of r)) \<and>
       r_nlim r - r_pos r < r_nlim r' - r_pos r'"
    "e \<noteq> None \<Longrightarrow> r_nlim r' - r_pos r' = r_nlim r - r_pos r \<and>
       (r_nlim r - r_pos r = s_avail (stream_of r) \<and> e = Some (s_error (stream_of r)) \<or>
        r_nlim r - r_pos r = r_bufSize r \<and> e = Some EOF)"
proof (cases "r_off r \<ge> r_slimit r \<or> r_nbuf r \<noteq> r_nlim r")
  case True
  show ?thesis
    by (rule that [OF fill_blocked(1) [OF wf True] wf refl])
      (simp_all add: reader_wf_avail(2) [OF wf True] fill_blocked(2) [OF wf True])
next
  case False
  then have go: "r_off r < r_slimit r" "r_nbuf r = r_nlim r" by simp_all
  note w = reader_wfD [OF wf]
  let ?c = "content (r_source r)"
  define m where "m = min (r_bufSize r - (r_nbuf r - r_pos r)) (r_limit r - r_off r)"
  define got where "got = take (nat m) (drop (nat (r_off r)) ?c)"
  define r' where "r' = updateBufferLimit (r\<lparr>r_pos := 0, r_nbuf := int (length got) + (r_nbuf r - r_pos r),
      r_off := r_off r + int (length got), r_buf := drop (nat (r_pos r)) (r_buf r) @ got\<rparr>)"
  let ?e = "case snd (ReadAt (r_source r) (nat m) (r_off r)) of None \<Rightarrow> Some EOF | e \<Rightarrow> e"
  have fill: "fill r = Ret (if got \<noteq> [] then None else ?e, r')" and m0: "0 \<le> m"
    using fill_reads [OF wf go, folded m_def, folded got_def, folded r'_def] by simp_all
  have m: "m \<le> r_bufSize r - (r_nbuf r - r_pos r)" by (simp add: m_def)
  note f = fill_wf [OF wf go m0 m, folded got_def, folded r'_def]
  have glen: "int (length got) = min m (max 0 (int (length ?c) - r_off r))"
    using m0 w by (simp add: got_def)
  have cur: "r_cur r = r_off r - (r_nlim r - r_pos r)" using go by (simp add: r_cur_def)
  show ?thesis
  proof (cases "got = []")
    case False
    then have "0 < int (length got)" by simp
    then have "r_nlim r' - r_pos r' = min (r_bufSize r) (s_avail (stream_of r))"
      "r_nlim r - r_pos r < r_nlim r' - r_pos r'"
      using f(3) glen m_def w go cur unfolding stream_avail [OF wf] by linarith+
    with False fill f(1,2) show ?thesis by (intro that [of None r']) simp_all
  next
    case True
    then have z: "m = 0 \<or> int (length ?c) \<le> r_off r" using glen m0 by auto
    have same: "r_nlim r' - r_pos r' = r_nlim r - r_pos r"
      using f(3) True go cur by simp
    have "r_nlim r - r_pos r = s_avail (stream_of r) \<and> ?e = Some (s_error (stream_of r)) \<or>
        r_nlim r - r_pos r = r_bufSize r \<and> ?e = Some EOF"
    proof (cases "m = 0")
      case True
      then have "r_nlim r - r_pos r = r_bufSize r" using go w m_def by linarith
      moreover have "0 < r_nbuf r" using calculation w by linarith
      then have "?e = Some EOF"
        using reader_wf_off [OF wf] w True by (auto simp: ReadAt_def content_def)
      ultimately show ?thesis by blast
    next
      case False
      with z m0 have le: "int (length ?c) \<le> r_off r" "0 < m" by auto
      have "r_nlim r - r_pos r = s_avail (stream_of r)"
        using le w reader_wf_off(1) [OF wf] cur go unfolding stream_avail [OF wf]
        by (cases "0 < r_nbuf r") linarith+
      moreover have "?e = Some (s_error (stream_of r))"
        using le w reader_wf_off(1) [OF wf] cur go
        by (auto simp: ReadAt_def s_error_def content_def Let_def split: option.splits)
      ultimately show ?thesis by blast
    qed
    with True fill f(1,2) same show ?thesis by (intro that [of ?e r']) (auto split: option.splits)
  qed
qed

lemma fill_cases:
  assumes wf: "reader_wf r"
  obtains (more) r' where "fill r = Ret (None, r')" "reader_wf r'" "stream_of r' = stream_of r"
      "r_nlim r' - r_pos r' = min (r_bufSize r) (s_avail (stream_of r))"
      "r_nlim r - r_pos r < r_nlim r' - r_pos r'"
  | (stop) r' where "fill r = Ret (Some (s_error (stream_of r)), r')" "reader_wf r'"
      "stream_of r' = stream_of r" "r_nlim r' - r_pos r' = r_nlim r - r_pos r"
      "r_nlim r - r_pos r = s_avail (stream_of r)"
  | (full) r' where "fill r = Ret (Some EOF, r')" "reader_wf r'" "stream_of r' = stream_of r"
      "r_nlim r - r_pos r = r_bufSize r"
proof (rule fill_spec [OF wf])
  fix e r'
  assume f: "fill r = Ret (e, r')" "reader_wf r'" "stream_of r' = stream_of r"
    "e = None \<Longrightarrow> r_nlim r' - r_pos r' = min (r_bufSize r) (s_avail (stream_of r)) \<and>
       r_nlim r - r_pos r < r_nlim r' - r_pos r'"
    "e \<noteq> None \<Longrightarrow> r_nlim r' - r_pos r' = r_nlim r - r_pos r \<and>
       (r_nlim r - r_pos r = s_avail (stream_of r) \<and> e = Some (s_error (stream_of r)) \<or>
        r_nlim r - r_pos r = r_bufSize r \<and> e = Some EOF)"
  show thesis
  proof (cases e)
    case None
    then have "fill r = Ret (None, r')" using f(1) by simp
    from more [OF this f(2,3)] f(4) [OF None] show ?thesis by blast
  next
    case (Some err)
    with f(5) consider "r_nlim r - r_pos r = s_avail (stream_of r)" "e = Some (s_error (stream_of r))"
        "r_nlim r' - r_pos r' = r_nlim r - r_pos r"
      | "r_nlim r - r_pos r = r_bufSize r" "e = Some EOF" by blast
    then show ?thesis using f(1-3) stop full by cases simp_all
  qed
qed

definition refines :: "('a \<times> Reader) run \<Rightarrow> 'a \<times> strm \<Rightarrow> bool" where
  "refines m s \<longleftrightarrow> (\<exists>x r'. m = Ret (x, r') \<and> reader_wf r' \<and> s = (x, stream_of r'))"

lemma advance_wf:
  assumes wf: "reader_wf r" and n: "0 \<le> n" "n \<le> r_nlim r - r_pos r"
  shows "reader_wf (r\<lparr>r_pos := r_pos r + n\<rparr>)"
    "stream_of (r\<lparr>r_pos := r_pos r + n\<rparr>) = s_advance (stream_of r) n"
  using wf n unfolding reader_wf_def by (simp_all add: stream_of_def s_advance_def r_cur_def)

lemma buf_slice_bytes:
  assumes wf: "reader_wf r" and n: "0 \<le> n" "n \<le> r_nlim r - r_pos r"
  shows "buf_slice r (r_pos r) (r_pos r + n) = Ret (take (nat n) (s_bytes (stream_of r)))"
    "nat n \<le> length (s_bytes (stream_of r))"
proof -
  have "nat n \<le> nat (s_avail (stream_of r))" using reader_wf_avail(1) [OF wf] n by linarith
  then show "nat n \<le> length (s_bytes (stream_of r))"
    using reader_wf_cur [OF wf] by (simp add: length_s_bytes)
  show "buf_slice r (r_pos r) (r_pos r + n) = Ret (take (nat n) (s_bytes (stream_of r)))"
    using reader_wfD [OF wf] n reader_wf_bytes(1) [OF assms] by (simp add: buf_slice_def)
qed

lemma byte_at_pos:
  assumes wf: "reader_wf r" and "r_pos r < r_nlim r"
  shows "r_pos r < int (length (r_buf r))"
    "\<exists>bs. s_bytes (stream_of r) = r_buf r ! nat (r_pos r) # bs"
proof -
  note w = reader_wfD [OF wf]
  show lt: "r_pos r < int (length (r_buf r))" using w assms(2) by linarith
  have "take 1 (s_bytes (stream_of r)) = take 1 (drop (nat (r_pos r)) (r_buf r))"
    using reader_wf_bytes(1) [OF wf, of 1] assms(2) by simp
  also have "\<dots> = [r_buf r ! nat (r_pos r)]"
    using lt w(1) by (simp add: take_Suc_conv_app_nth hd_drop_conv_nth take_Suc nat_less_iff)
  finally show "\<exists>bs. s_bytes (stream_of r) = r_buf r ! nat (r_pos r) # bs"
    by (cases "s_bytes (stream_of r)") auto
qed

lemma s_bytes_empty: "reader_wf r \<Longrightarrow> s_bytes (stream_of r) = [] \<longleftrightarrow> s_avail (stream_of r) = 0"
  using length_s_bytes [of "stream_of r"] reader_wf_cur [of r] by (auto simp: s_avail_def)

text \<open>Before it takes bytes out of the buffer, an operation makes sure that the buffer has some.\<close>

lemma ensure_bytes:
  assumes wf: "reader_wf r"
  obtains (bytes) r' where "(if r_pos r \<ge> r_nlim r then fill r else Ret (None, r)) = Ret (None, r')"
      "reader_wf r'" "stream_of r' = stream_of r" "r_pos r' < r_nlim r'"
  | (none) r' where
      "(if r_pos r \<ge> r_nlim r then fill r else Ret (None, r)) = Ret (Some (s_error (stream_of r)), r')"
      "reader_wf r'" "stream_of r' = stream_of r" "s_avail (stream_of r) = 0"
proof (cases "r_pos r \<ge> r_nlim r")
  case False
  then show ?thesis using wf by (intro bytes [of r]) simp_all
next
  case True
  note w = reader_wfD [OF wf]
  show ?thesis using wf
  proof (cases rule: fill_cases)
    case (more r')
    with True w show ?thesis by (intro bytes [of r']) simp_all
  next
    case (stop r')
    with True w show ?thesis by (intro none [of r']) simp_all
  next
    case full
    with True w show ?thesis by linarith
  qed
qed

lemma ReadByte_refines:
  assumes wf: "reader_wf r"
  shows "refines (ReadByte r) (s_ReadByte (stream_of r))"
  using wf
proof (cases rule: ensure_bytes)
  case (bytes r')
  obtain bs where "s_bytes (stream_of r') = r_buf r' ! nat (r_pos r') # bs"
    using byte_at_pos [OF bytes(2,4)] by blast
  then show ?thesis
    using bytes byte_at_pos [OF bytes(2,4)] reader_wfD(1) [OF bytes(2)] advance_wf [OF bytes(2), of 1]
    by (simp add: ReadByte_def refines_def s_ReadByte_def)
next
  case (none r')
  then have "s_bytes (stream_of r) = []" by (simp add: s_bytes_empty [OF wf])
  with none show ?thesis by (simp add: ReadByte_def refines_def s_ReadByte_def)
qed

lemma s_error_avail: "0 < s_avail s \<Longrightarrow> 0 \<le> s_cur s \<Longrightarrow> s_error s = EOF"
  by (auto simp: s_avail_def s_error_def content_def split: option.splits)

lemma ReadN_refines:
  assumes wf: "reader_wf r"
  shows "refines (ReadN r (int n)) (s_ReadN (stream_of r) n)"
proof -
  let ?s = "stream_of r"
  have len: "int (length (s_bytes ?s)) = s_avail ?s"
    using reader_wf_cur [OF wf] by (simp add: length_s_bytes s_avail_def)
  have buffered: "refines (ReadN r (int n)) (s_ReadN (stream_of r) n)"
    if "reader_wf r'" "stream_of r' = ?s" "int n \<le> r_nlim r' - r_pos r'" "int n \<le> r_bufSize r"
      "(if r_nlim r - r_pos r < int n then fill r else Ret (None, r)) = Ret (None, r')" for r'
    using that buf_slice_bytes [OF that(1), of "int n"] advance_wf [OF that(1), of "int n"]
    by (simp add: ReadN_def Peek_def refines_def s_ReadN_def)
  consider "int n > r_bufSize r" | "int n \<le> r_bufSize r" "int n \<le> r_nlim r - r_pos r"
    | "int n \<le> r_bufSize r" "r_nlim r - r_pos r < int n" by linarith
  then show ?thesis
  proof cases
    case 1
    then show ?thesis using wf by (simp add: ReadN_def Peek_def refines_def s_ReadN_def)
  next
    case 2
    then show ?thesis using wf by (intro buffered [of r]) simp_all
  next
    case 3
    show ?thesis using wf
    proof (cases rule: fill_cases)
      case (more r')
      show ?thesis
      proof (cases "int n \<le> r_nlim r' - r_pos r'")
        case True
        with more 3 show ?thesis by (intro buffered [of r']) simp_all
      next
        case False
        with more 3 len reader_wfD(2) [OF wf] have "\<not> n \<le> length (s_bytes ?s)" "s_error ?s = EOF"
          using reader_wf_cur [OF wf] by (auto simp: s_error_avail)
        with more 3 False show ?thesis by (simp add: ReadN_def Peek_def refines_def s_ReadN_def)
      qed
    next
      case (stop r')
      with 3 len have "\<not> n \<le> length (s_bytes ?s)" by auto
      with stop 3 show ?thesis by (simp add: ReadN_def Peek_def refines_def s_ReadN_def)
    next
      case full
      with 3 show ?thesis by linarith
    qed
  qed
qed

text \<open>The fixed-width numbers on the stream.\<close>

definition s_Uint8 :: "strm \<Rightarrow> u8 \<times> strm" where
  "s_Uint8 s = (case s_ReadByte s of ((b, _), s') \<Rightarrow> (b, s'))"

definition s_Uint :: "nat \<Rightarrow> strm \<Rightarrow> 'a::len word \<times> strm" where
  "s_Uint n s = (case s_ReadN s n of ((buf, err), s') \<Rightarrow>
     (case (buf, err) of (Some bs, None) \<Rightarrow> LittleEndian bs | _ \<Rightarrow> 0, s'))"

lemma refines_map:
  "refines m s \<Longrightarrow> refines (run_bind m (\<lambda>((x, y), r). Ret (f x y, r))) (case s of ((x, y), s') \<Rightarrow> (f x y, s'))"
  by (auto simp: refines_def)

lemma Uint8_refines: "reader_wf r \<Longrightarrow> refines (Uint8 r) (s_Uint8 (stream_of r))"
  using ReadByte_refines [of r] by (auto simp: Uint8_def s_Uint8_def refines_def)

lemma Uint_refines:
  assumes "reader_wf r"
  shows "refines (Uint16 r) (s_Uint 2 (stream_of r))" "refines (Uint32 r) (s_Uint 4 (stream_of r))"
    "refines (Uint64 r) (s_Uint 8 (stream_of r))"
  using refines_map [OF ReadN_refines [OF assms, of 2]] refines_map [OF ReadN_refines [OF assms, of 4]]
    refines_map [OF ReadN_refines [OF assms, of 8]]
  by (simp_all add: Uint16_def Uint32_def Uint64_def s_Uint_def)

lemma s_advance_avail:
  "0 \<le> k \<Longrightarrow> k \<le> s_avail s \<Longrightarrow> s_avail (s_advance s k) = s_avail s - k"
  by (auto simp: s_avail_def s_advance_def)

lemma s_advance_add [simp]: "s_advance (s_advance s a) b = s_advance s (a + b)"
  by (simp add: s_advance_def add.assoc)

lemma s_advance_0 [simp]: "s_advance s 0 = s"
  by (simp add: s_advance_def)

lemma Discard_loop_refines:
  assumes "reader_wf r" "d \<le> n"
  shows "refines (Discard_loop r n d)
    (let k = min (n - d) (s_avail (stream_of r)); s' = s_advance (stream_of r) k
     in ((d + k, if d + k = n then None else Some (s_error s')), s'))"
  using assms
proof (induction r n d rule: Discard_loop.induct)
  case (1 r n d)
  let ?s = "stream_of r"
  have a0: "0 \<le> s_avail ?s" by (simp add: s_avail_def)
  show ?case
  proof (cases "d < n")
    case False
    with 1 a0 show ?thesis by (simp add: Discard_loop.simps [of r] refines_def)
  next
    case True
    show ?thesis using \<open>reader_wf r\<close>
    proof (cases rule: ensure_bytes)
      case (none r')
      with True show ?thesis by (simp add: Discard_loop.simps [of r] refines_def Let_def)
    next
      case (bytes r')
      define p where "p = min (r_nlim r' - r_pos r') (n - d)"
      have p: "0 < p" "p \<le> r_nlim r' - r_pos r'" "p \<le> n - d" using bytes(4) True by (auto simp: p_def)
      have pa: "p \<le> s_avail ?s" using reader_wf_avail(1) [OF bytes(2)] p(2) bytes(3) by simp
      note adv = advance_wf [OF bytes(2) less_imp_le [OF p(1)] p(2)]
      have loop: "Discard_loop r n d = Discard_loop (r'\<lparr>r_pos := r_pos r' + p\<rparr>) n (d + p)"
        using True bytes(1) by (subst Discard_loop.simps) (simp add: p_def Let_def)
      define k where "k = min (n - d) (s_avail ?s)"
      have k: "min (n - (d + p)) (s_avail ?s - p) = k - p" unfolding k_def by linarith
      have "s_avail (s_advance ?s p) = s_avail ?s - p" using p(1) pa by (simp add: s_advance_avail)
      then show ?thesis
        using "1.IH" [OF True bytes(1) refl refl p_def adv(1)] p(3) adv(2) bytes(3)
        unfolding loop k_def [symmetric] by (auto simp: k Let_def split: if_splits)
    qed
  qed
qed

lemma Discard_refines:
  assumes "reader_wf r"
  shows "refines (Discard r n) (s_Discard (stream_of r) n)"
  using assms Discard_loop_refines [OF assms, of 0 n]
  by (auto simp: Discard_def s_Discard_def refines_def Let_def)

lemma set_limits_wf:
  assumes wf: "reader_wf r" and "r_cur r \<le> l" "sorted_wrt (\<ge>) (r_limit r # es @ [l])"
  shows "reader_wf (updateBufferLimit (r\<lparr>r_sectionEnds := es, r_slimit := l\<rparr>))"
    "stream_of (updateBufferLimit (r\<lparr>r_sectionEnds := es, r_slimit := l\<rparr>)) =
       (stream_of r)\<lparr>s_ends := es, s_slimit := l\<rparr>"
proof -
  show "stream_of (updateBufferLimit (r\<lparr>r_sectionEnds := es, r_slimit := l\<rparr>)) =
       (stream_of r)\<lparr>s_ends := es, s_slimit := l\<rparr>"
    by (simp add: stream_of_def updateBufferLimit_def r_cur_def)
  have "r_nbuf r = 0 \<Longrightarrow> r_off r \<le> l" "r_pos r \<le> r_nbuf r - max 0 (r_off r - l)" "r_pos r \<le> r_nbuf r"
    using reader_wfD [OF wf] assms(2) unfolding r_cur_def by linarith+
  then show "reader_wf (updateBufferLimit (r\<lparr>r_sectionEnds := es, r_slimit := l\<rparr>))"
    using assms unfolding reader_wf_def updateBufferLimit_def by simp
qed

lemma reader_wf_sorted: "reader_wf r \<Longrightarrow> sorted_wrt (\<ge>) (r_limit r # r_sectionEnds r @ [r_slimit r])"
  unfolding reader_wf_def by blast

lemma StartSection_refines:
  assumes wf: "reader_wf r"
  shows "refines (Ret (StartSection r n)) (s_StartSection (stream_of r) n)"
proof -
  have rem: "Remaining r = s_Remaining (stream_of r)"
    by (simp add: Remaining_def s_Remaining_def r_cur_def)
  have "refines (Ret (StartSection r n)) (s_StartSection (stream_of r) n)" if n: "0 \<le> n" "n \<le> Remaining r"
  proof -
    have le: "r_cur r + n \<le> r_slimit r" "r_cur r \<le> r_cur r + n"
      using n rem by (simp_all add: s_Remaining_def)
    have "sorted_wrt (\<ge>) (r_limit r # (r_sectionEnds r @ [r_slimit r]) @ [r_cur r + n])"
      using reader_wf_sorted [OF wf] le(1) by (auto simp: sorted_wrt_append)
    from set_limits_wf [OF wf le(2) this] show ?thesis
      using n rem by (simp add: StartSection_def s_StartSection_def refines_def r_cur_def)
  qed
  then show ?thesis
    using wf rem by (cases "0 \<le> n \<and> n \<le> Remaining r") (auto simp: StartSection_def s_StartSection_def refines_def)
qed

lemma EndSection_refines:
  assumes wf: "reader_wf r" and "r_sectionEnds r \<noteq> []" and cur: "r_cur r \<le> r_slimit r"
  shows "\<exists>r'. EndSection r = Ret r' \<and> reader_wf r' \<and> s_EndSection (stream_of r) = Ret (stream_of r')"
proof -
  let ?es = "butlast (r_sectionEnds r)" and ?l = "last (r_sectionEnds r)"
  have ends: "r_sectionEnds r = ?es @ [?l]" using assms(2) by simp
  have sorted: "sorted_wrt (\<ge>) (r_limit r # ?es @ [?l])" "r_slimit r \<le> ?l"
    using reader_wf_sorted [OF wf] unfolding ends [symmetric]
    by (auto simp: sorted_wrt_append assms(2))
  have wf1: "reader_wf (r\<lparr>r_sectionEnds := ?es\<rparr>)"
    using wf sorted unfolding reader_wf_def by (auto simp: sorted_wrt_append)
  have str1: "stream_of (r\<lparr>r_sectionEnds := ?es\<rparr>) = (stream_of r)\<lparr>s_ends := ?es\<rparr>"
    by (simp add: stream_of_def r_cur_def)
  let ?r1 = "r\<lparr>r_sectionEnds := ?es\<rparr>"
  have rem: "Remaining ?r1 = s_Remaining (stream_of r)"
    by (simp add: Remaining_def s_Remaining_def r_cur_def)
  let ?m = "if Remaining ?r1 > 0 then Discard ?r1 (Remaining ?r1) else Ret ((0, None), ?r1)"
  let ?s = "if s_Remaining (stream_of r) > 0 then snd (s_Discard (stream_of r) (s_Remaining (stream_of r))) else stream_of r"
  have snd: "snd (s_Discard (s\<lparr>s_ends := es\<rparr>) n) = (snd (s_Discard s n))\<lparr>s_ends := es\<rparr>" for s es n
    by (simp add: s_Discard_def Let_def s_advance_def s_avail_def)
  obtain x r2 where r2: "?m = Ret (x, r2)" "reader_wf r2" "stream_of r2 = ?s\<lparr>s_ends := ?es\<rparr>"
    using Discard_refines [OF wf1, of "Remaining ?r1"] wf1 rem
    by (cases "Remaining ?r1 > 0") (auto simp: refines_def str1 snd dest!: arg_cong [of _ _ snd])
  have "s_cur ?s \<le> r_slimit r"
    using cur by (auto simp: s_Discard_def Let_def s_advance_def s_avail_def s_Remaining_def)
  moreover have "r_cur r2 = s_cur ?s" "r_limit r2 = r_limit r"
    using arg_cong [OF r2(3), of s_cur] arg_cong [OF r2(3), of s_limit]
    by (simp_all add: s_Discard_def Let_def s_advance_def)
  ultimately have c: "r_cur r2 \<le> ?l" "sorted_wrt (\<ge>) (r_limit r2 # ?es @ [?l])" using sorted by auto
  have "r2\<lparr>r_slimit := ?l\<rparr> = r2\<lparr>r_sectionEnds := ?es, r_slimit := ?l\<rparr>"
    using arg_cong [OF r2(3), of s_ends] by simp
  then show ?thesis
    using set_limits_wf [OF r2(2) c] r2 assms(2)
    by (simp add: EndSection_def s_EndSection_def Let_def)
qed

lemma flush_wf:
  assumes "0 \<le> r_off r" "0 < r_bufSize r" "r_bufSize r \<le> maxBufferSize" "0 \<le> r_start r"
    "sorted_wrt (\<ge>) (r_limit r # r_sectionEnds r @ [r_slimit r])"
  shows "reader_wf (flush r)" "r_cur (flush r) = r_off r"
  using assms by (simp_all add: reader_wf_def flush_def r_cur_def)

lemma Seek_refines:
  assumes wf: "reader_wf r"
  shows "refines (Ret (Seek r offset whence)) (s_Seek (stream_of r) offset whence)"
proof -
  define off where "off = int64 (offset + r_start r)"
  have "reader_wf (flush (r\<lparr>r_off := off\<rparr>))" "stream_of (flush (r\<lparr>r_off := off\<rparr>)) = (stream_of r)\<lparr>s_cur := off\<rparr>"
    if "r_start r \<le> off"
    using flush_wf [of "r\<lparr>r_off := off\<rparr>"] reader_wfD [OF wf] reader_wf_sorted [OF wf] that
    by (simp_all add: stream_of_def flush_def r_cur_def)
  with wf show ?thesis
    by (auto simp: Seek_def s_Seek_def refines_def Let_def not_less simp flip: off_def)
qed

text \<open>A fresh reader: the stream at the start of the given range.\<close>

definition s_Init :: "u8 list option \<Rightarrow> int \<Rightarrow> int \<Rightarrow> strm" where
  "s_Init source start maxLen = \<lparr>s_source = source, s_start = start, s_limit = int64 (start + maxLen),
     s_bufSize = maxBufferSize, s_cur = start, s_slimit = int64 (start + maxLen), s_ends = []\<rparr>"

lemma NewReader_refines:
  "0 \<le> start \<Longrightarrow> reader_wf (NewReader source start maxLen) \<and>
     stream_of (NewReader source start maxLen) = s_Init source start maxLen"
  by (simp add: NewReader_def Init_def zero_Reader_def flush_def reader_wf_def stream_of_def s_Init_def r_cur_def)

lemma SetBufferSize_refines:
  assumes wf: "reader_wf r" and "r_nbuf r = 0"
  shows "reader_wf (SetBufferSize r n)"
    "stream_of (SetBufferSize r n) = (stream_of r)\<lparr>s_bufSize := min (max n 1024) maxBufferSize\<rparr>"
proof -
  note w = reader_wfD [OF wf]
  have "r_buf r = []" "r_nlim r = 0" "r_pos r = 0" using w assms(2) by auto
  then show "reader_wf (SetBufferSize r n)"
    using assms(2) w(4,11) reader_wf_sorted [OF wf] by (auto simp: SetBufferSize_def reader_wf_def)
  show "stream_of (SetBufferSize r n) = (stream_of r)\<lparr>s_bufSize := min (max n 1024) maxBufferSize\<rparr>"
    by (simp add: SetBufferSize_def stream_of_def r_cur_def)
qed

subsection \<open>Delimited slices\<close>

text \<open>
  A slice up to a delimiter has to fit the buffer.  Without a delimiter the section's rest is
  returned with \<open>EOF\<close>, a full buffer with \<open>ErrBufferTooSmall\<close>; a file that ends inside the section is
  an error without data.
\<close>

definition s_ReadSlice :: "strm \<Rightarrow> u8 \<Rightarrow> (u8 list option \<times> io_error option) \<times> strm" where
  "s_ReadSlice s delim =
     (let view = take (nat (s_bufSize s)) (s_bytes s); len = int (length (content (s_source s))) in
      case IndexByte view delim of
        Some i \<Rightarrow> ((Some (take i view), None), s_advance s (int i + 1))
      | None \<Rightarrow>
          if s_slimit s \<le> s_cur s \<or> s_slimit s \<le> len \<and> s_slimit s \<le> s_cur s + s_bufSize s
          then ((Some view, Some EOF), s_advance s (s_avail s))
          else if s_cur s + s_bufSize s < s_slimit s \<and> s_cur s + s_bufSize s \<le> len
          then ((Some view, Some ErrBufferTooSmall), s_advance s (s_bufSize s))
          else ((None, Some (s_error s)), s))"

lemma IndexByte_length: "IndexByte bs c = Some i \<Longrightarrow> i < length bs"
  by (induction bs arbitrary: i) (auto split: if_splits)

lemma IndexByte_take: "IndexByte (take n bs) c = Some i \<Longrightarrow> n \<le> m \<Longrightarrow> IndexByte (take m bs) c = Some i"
proof (induction bs arbitrary: n m i)
  case (Cons b bs)
  then obtain n' where n: "n = Suc n'" by (cases n) auto
  with Cons.prems(2) obtain m' where m: "m = Suc m'" "n' \<le> m'" by (cases m) auto
  show ?case
  proof (cases "b = c")
    case False
    then obtain j where "IndexByte (take n' bs) c = Some j" "i = Suc j" using Cons.prems(1) n by auto
    with Cons.IH [OF _ m(2)] m(1) False show ?thesis by simp
  qed (use Cons.prems n m in simp)
qed simp

lemma ReadSlice_view:
  assumes wf: "reader_wf r"
  shows "buf_slice r (r_pos r) (r_nlim r) = Ret (take (nat (r_nlim r - r_pos r)) (s_bytes (stream_of r)))"
    "r_nlim r - r_pos r \<le> r_bufSize r"
  using buf_slice_bytes(1) [OF wf, of "r_nlim r - r_pos r"] reader_wfD(1-3,10) [OF wf] by simp_all

lemma ReadSlice_refines:
  assumes "reader_wf r"
  shows "refines (ReadSlice r delim) (s_ReadSlice (stream_of r) delim)"
  using assms
proof (induction r delim rule: ReadSlice.induct)
  case (1 r delim)
  note wf = \<open>reader_wf r\<close>
  note w = reader_wfD [OF wf]
  let ?s = "stream_of r" and ?k = "r_nlim r - r_pos r" and ?c = "content (r_source r)"
  note view = ReadSlice_view [OF wf]
  have k: "0 \<le> ?k" "?k \<le> s_avail ?s" using w reader_wf_avail(1) [OF wf] by simp_all
  have len: "length (s_bytes ?s) = nat (s_avail ?s)" using reader_wf_cur [OF wf] by (simp add: length_s_bytes)
  note adv = advance_wf [OF wf k(1)]
  show ?case
  proof (cases "IndexByte (take (nat ?k) (s_bytes ?s)) delim")
    case (Some i)
    then have i: "i < nat ?k" using IndexByte_length by fastforce
    have "IndexByte (take (nat (r_bufSize r)) (s_bytes ?s)) delim = Some i"
      using IndexByte_take [OF Some] view(2) by simp
    moreover have "min i (nat ?k) = i" "min i (nat (r_bufSize r)) = i"
      using i view(2) by linarith+
    ultimately show ?thesis
      using Some i k advance_wf [OF wf, of "int i + 1"]
      by (subst ReadSlice.simps) (simp add: view(1) s_ReadSlice_def refines_def Let_def add.assoc)
  next
    case None
    note idx = this
    consider (sect) "r_off r \<ge> r_slimit r" | (full) "r_off r < r_slimit r" "?k = r_bufSize r"
      | (notfull) "r_off r < r_slimit r" "?k < r_bufSize r" using view(2) by linarith
    then show ?thesis
    proof cases
      case sect
      have a: "s_avail ?s = ?k" using reader_wf_avail(2) [OF wf] sect by blast
      then have v: "take (nat (r_bufSize r)) (s_bytes ?s) = take (nat ?k) (s_bytes ?s)"
        using len view(2) by simp
      have c: "r_slimit r \<le> r_cur r \<or> r_slimit r \<le> int (length ?c) \<and> r_slimit r \<le> r_cur r + r_bufSize r"
        using sect w reader_wf_off(1) [OF wf] unfolding r_cur_def by linarith
      show ?thesis
        using None sect adv a c
        by (subst ReadSlice.simps) (simp add: view(1) s_ReadSlice_def refines_def Let_def v)
    next
      case full
      then have f: "r_pos r = 0" "r_nbuf r = r_bufSize r" "r_nlim r = r_bufSize r" "r_cur r + r_bufSize r = r_off r"
        using w unfolding r_cur_def by linarith+
      then have "r_off r \<le> int (length ?c)" using reader_wf_off(1) [OF wf] w by simp
      then show ?thesis
        using None full(1) f adv w(7) view(1)
        by (subst ReadSlice.simps) (simp add: s_ReadSlice_def refines_def Let_def)
    next
      case notfull
      have nb: "r_nlim r = r_nbuf r" using notfull w by linarith
      then have nf: "\<not> (r_pos r = 0 \<and> r_nbuf r = r_bufSize r)" using notfull by simp
      have step: "ReadSlice r delim = run_bind (fill r) (\<lambda>(err, r').
          case err of Some e \<Rightarrow> Ret ((None, Some e), r') | None \<Rightarrow> ReadSlice r' delim)"
        unfolding ReadSlice.simps [of r delim] view(1) run_bind.simps using None notfull(1) nf nb by auto
      show ?thesis using wf
      proof (cases rule: fill_cases)
        case (more r')
        then have "ReadSlice r delim = ReadSlice r' delim" by (simp add: step)
        moreover have "refines (ReadSlice r' delim) (s_ReadSlice (stream_of r') delim)"
          using notfull nf more by (intro "1.IH" [OF view(1) idx]) (simp_all add: nb)
        ultimately show ?thesis using more(3) by simp
      next
        case (stop r')
        then have v: "take (nat (r_bufSize r)) (s_bytes ?s) = take (nat ?k) (s_bytes ?s)"
          using len view(2) by simp
        have "r_cur r < r_slimit r" "int (length ?c) < r_slimit r" "int (length ?c) < r_cur r + r_bufSize r"
          using stop(5) notfull w nb unfolding stream_avail [OF wf] r_cur_def by linarith+
        then show ?thesis
          using idx stop by (simp add: step s_ReadSlice_def refines_def Let_def v)
      next
        case full
        with notfull show ?thesis by simp
      qed
    qed
  qed
qed

subsection \<open>Reads outside of sections\<close>

text \<open>
  A read of fewer bytes than the buffer holds, with no section open and \<open>p\<close> already read.  What a range
  that ends inside the file leaves is returned without an error; a file that ends inside the range is
  an error.
\<close>

definition s_Read_acc :: "strm \<Rightarrow> nat \<Rightarrow> u8 list \<Rightarrow> (u8 list \<times> io_error option) \<times> strm" where
  "s_Read_acc s len p =
     (let q = take (len - length p) (s_bytes s); s' = s_advance s (int (length q)); t = p @ q in
      ((t, if length t = len then None
           else if s_slimit s \<le> max (s_cur s) (int (length (content (s_source s))))
           then (if t = [] then Some EOF else None)
           else Some (s_error s')), s'))"

definition s_Read :: "strm \<Rightarrow> nat \<Rightarrow> (u8 list \<times> io_error option) \<times> strm" where
  "s_Read s len = s_Read_acc s len []"

lemma s_advance_bytes:
  assumes "0 \<le> s_cur s" "n \<le> length (s_bytes s)"
  shows "s_bytes (s_advance s (int n)) = drop n (s_bytes s)" "int n \<le> s_avail s"
proof -
  show n: "int n \<le> s_avail s" using assms by (auto simp: length_s_bytes s_avail_def)
  then have "s_avail (s_advance s (int n)) = s_avail s - int n" by (simp add: s_advance_avail)
  moreover have "nat (s_cur s + int n) = n + nat (s_cur s)" using assms(1) by simp
  ultimately show "s_bytes (s_advance s (int n)) = drop n (s_bytes s)"
    using n by (simp add: s_bytes_def drop_take nat_diff_distrib' s_advance_def)
qed

lemma s_Read_acc_advance:
  assumes "0 \<le> s_cur s" "m \<le> length (s_bytes s)" "m \<le> len - length p"
  shows "s_Read_acc (s_advance s (int m)) len (p @ take m (s_bytes s)) = s_Read_acc s len p"
proof -
  let ?s1 = "s_advance s (int m)"
  note adv = s_advance_bytes [OF assms(1,2)]
  have q: "take m (s_bytes s) @ take (len - (length p + m)) (drop m (s_bytes s)) = take (len - length p) (s_bytes s)"
  proof -
    have "m + (len - (length p + m)) = len - length p" using assms(3) by simp
    then show ?thesis by (metis take_add)
  qed
  have l: "int m + int (length (take (len - (length p + m)) (drop m (s_bytes s)))) = int (length (take (len - length p) (s_bytes s)))"
    using arg_cong [OF q, of length] assms(2) by simp
  have c: "s_slimit s \<le> max (s_cur s + int m) (int (length (content (s_source s)))) \<longleftrightarrow>
      s_slimit s \<le> max (s_cur s) (int (length (content (s_source s))))"
    using adv(2) assms(1) by (auto simp: s_avail_def)
  have f: "s_slimit ?s1 = s_slimit s" "s_cur ?s1 = s_cur s + int m" "s_source ?s1 = s_source s"
    by (simp_all add: s_advance_def)
  have lm: "length (p @ take m (s_bytes s)) = length p + m" using assms(2) by simp
  show ?thesis
    unfolding s_Read_acc_def Let_def f c adv(1) lm s_advance_add l append.assoc q by (rule refl)
qed

lemma Read_loop_refines:
  assumes "reader_wf r" "r_slimit r = r_limit r" "int len < r_bufSize r" "length p \<le> len"
  shows "refines (Read_loop r len p) (s_Read_acc (stream_of r) len p)"
  using assms
proof (induction r len p rule: Read_loop.induct)
  case (1 r len p)
  note wf = \<open>reader_wf r\<close>
  note w = reader_wfD [OF wf]
  let ?s = "stream_of r" and ?n = "len - length p" and ?k = "r_nlim r - r_pos r"
  have cur: "0 \<le> s_cur ?s" using reader_wf_cur [OF wf] by simp
  have len: "int (length (s_bytes ?s)) = s_avail ?s"
    using cur by (simp add: length_s_bytes s_avail_def)
  consider (full) "length p = len" | (copy) "length p < len" "r_pos r < r_nlim r"
    | (limit) "length p < len" "r_nlim r \<le> r_pos r" "r_off r \<ge> r_limit r"
    | (fill) "length p < len" "r_nlim r \<le> r_pos r" "r_off r < r_limit r"
    using "1.prems"(4) by linarith
  then show ?case
  proof cases
    case full
    then show ?thesis using wf by (subst Read_loop.simps) (simp add: s_Read_acc_def refines_def)
  next
    case copy
    define m where "m = min ?n (nat ?k)"
    have k: "0 \<le> ?k" "nat ?k \<le> length (s_bytes ?s)"
      using copy reader_wf_avail(1) [OF wf] len by linarith+
    have slice: "buf_slice r (r_pos r) (r_nlim r) = Ret (take (nat ?k) (s_bytes ?s))"
      using ReadSlice_view(1) [OF wf] .
    have m: "m \<le> ?n" "0 \<le> int m" "int m \<le> ?k" "m \<le> length (s_bytes ?s)" using k by (auto simp: m_def)
    have copied: "take ?n (take (nat ?k) (s_bytes ?s)) = take m (s_bytes ?s)" by (simp add: m_def)
    note adv = advance_wf [OF wf m(2,3)]
    have lt: "length (take m (s_bytes ?s)) = m" using m(4) by simp
    have loop: "Read_loop r len p = Read_loop (r\<lparr>r_pos := r_pos r + int m\<rparr>) len (p @ take m (s_bytes ?s))"
      unfolding Read_loop.simps [of r len p] using copy by (simp only: slice run_bind.simps Let_def copied lt if_True)
    have "refines (Read_loop (r\<lparr>r_pos := r_pos r + int m\<rparr>) len (p @ take m (s_bytes ?s)))
        (s_Read_acc (stream_of (r\<lparr>r_pos := r_pos r + int m\<rparr>)) len (p @ take m (s_bytes ?s)))"
      using "1.IH"(1) [OF copy(1,2) slice copied [symmetric], unfolded lt] adv(1) "1.prems" m(1) lt by simp
    then show ?thesis
      unfolding loop adv(2) by (simp only: s_Read_acc_advance [OF cur m(4,1)])
  next
    case limit
    have "s_avail ?s = 0"
      using reader_wf_avail(2) [OF wf] limit "1.prems"(2) w by linarith
    then have e: "s_bytes ?s = []" using len by simp
    have c: "r_limit r \<le> max (r_cur r) (int (length (content (r_source r))))"
      using limit reader_wf_off(1) [OF wf] w unfolding r_cur_def by linarith
    have "Read_loop r len p = Ret (if p \<noteq> [] then (p, None) else ([], Some EOF), r)"
      using limit by (subst Read_loop.simps) simp
    then show ?thesis
      using limit e c wf "1.prems"(2) by (simp add: s_Read_acc_def refines_def)
  next
    case fill
    have nb: "r_nlim r = r_nbuf r" using fill "1.prems"(2) w by linarith
    have loop: "Read_loop r len p = run_bind (Pfbufio.fill r) (\<lambda>(err, r').
        case err of Some e \<Rightarrow> Ret ((p, if length p = len then None else Some e), r') | None \<Rightarrow> Read_loop r' len p)"
      using fill nb "1.prems"(3) by (subst Read_loop.simps) simp
    show ?thesis using wf
    proof (cases rule: fill_cases)
      case (more r')
      have f: "r_slimit r' = r_slimit r" "r_limit r' = r_limit r" "r_bufSize r' = r_bufSize r"
        using arg_cong [OF more(3), of s_slimit] arg_cong [OF more(3), of s_limit] arg_cong [OF more(3), of s_bufSize]
        by simp_all
      have "refines (Read_loop r' len p) (s_Read_acc (stream_of r') len p)"
        using fill nb "1.prems" more by (intro "1.IH"(2)) (auto simp: f)
      with more show ?thesis by (simp add: loop)
    next
      case (stop r')
      then have "s_avail ?s = 0" using fill w by linarith
      then have e: "s_bytes ?s = []" using len by simp
      have c: "\<not> r_limit r \<le> max (r_cur r) (int (length (content (r_source r))))"
        using \<open>s_avail ?s = 0\<close> fill w nb "1.prems"(2) unfolding stream_avail [OF wf] r_cur_def by linarith
      show ?thesis
        using stop fill e c "1.prems"(2) by (simp add: loop s_Read_acc_def refines_def Let_def)
    next
      case (full r')
      with fill w show ?thesis by linarith
    qed
  qed
qed

lemma Read_refines:
  "reader_wf r \<Longrightarrow> r_slimit r = r_limit r \<Longrightarrow> int len < r_bufSize r \<Longrightarrow>
     refines (Read r len) (s_Read (stream_of r) len)"
  using Read_loop_refines [of r len "[]"] by (simp add: Read_def s_Read_def)

section \<open>Traces of calls\<close>

text \<open>The calls a parser makes, their results, and a run of a sequence of them on both levels.\<close>

datatype rop = OpReadByte | OpReadN nat | OpDiscard int | OpSeek int int | OpStartSection int
  | OpEndSection | OpReadSlice u8

datatype rres = ResByte u8 "io_error option" | ResBytes "u8 list option" "io_error option"
  | ResCount int "io_error option" | ResError "io_error option" | ResDone

fun run_op :: "rop \<Rightarrow> Reader \<Rightarrow> (rres \<times> Reader) run" where
  "run_op OpReadByte r = run_bind (ReadByte r) (\<lambda>((b, e), r). Ret (ResByte b e, r))"
| "run_op (OpReadN n) r = run_bind (ReadN r (int n)) (\<lambda>((b, e), r). Ret (ResBytes b e, r))"
| "run_op (OpDiscard n) r = run_bind (Discard r n) (\<lambda>((k, e), r). Ret (ResCount k e, r))"
| "run_op (OpSeek o' w) r = (case Seek r o' w of ((k, e), r) \<Rightarrow> Ret (ResCount k e, r))"
| "run_op (OpStartSection n) r = (case StartSection r n of (e, r) \<Rightarrow> Ret (ResError e, r))"
| "run_op OpEndSection r = run_bind (EndSection r) (\<lambda>r. Ret (ResDone, r))"
| "run_op (OpReadSlice d) r = run_bind (ReadSlice r d) (\<lambda>((b, e), r). Ret (ResBytes b e, r))"

fun s_op :: "rop \<Rightarrow> strm \<Rightarrow> (rres \<times> strm) run" where
  "s_op OpReadByte s = (case s_ReadByte s of ((b, e), s) \<Rightarrow> Ret (ResByte b e, s))"
| "s_op (OpReadN n) s = (case s_ReadN s n of ((b, e), s) \<Rightarrow> Ret (ResBytes b e, s))"
| "s_op (OpDiscard n) s = (case s_Discard s n of ((k, e), s) \<Rightarrow> Ret (ResCount k e, s))"
| "s_op (OpSeek o' w) s = (case s_Seek s o' w of ((k, e), s) \<Rightarrow> Ret (ResCount k e, s))"
| "s_op (OpStartSection n) s = (case s_StartSection s n of (e, s) \<Rightarrow> Ret (ResError e, s))"
| "s_op OpEndSection s = run_bind (s_EndSection s) (\<lambda>s. Ret (ResDone, s))"
| "s_op (OpReadSlice d) s = (case s_ReadSlice s d of ((b, e), s) \<Rightarrow> Ret (ResBytes b e, s))"

text \<open>A section is closed only when one is open and the position is not behind its end.\<close>

definition op_legal :: "rop \<Rightarrow> strm \<Rightarrow> bool" where
  "op_legal op s \<longleftrightarrow> (op = OpEndSection \<longrightarrow> s_ends s \<noteq> [] \<and> s_cur s \<le> s_slimit s)"

fun run_ops :: "rop list \<Rightarrow> Reader \<Rightarrow> rres list run" where
  "run_ops [] r = Ret []"
| "run_ops (op # ops) r =
     run_bind (run_op op r) (\<lambda>(x, r). run_bind (run_ops ops r) (\<lambda>xs. Ret (x # xs)))"

fun s_ops :: "rop list \<Rightarrow> strm \<Rightarrow> rres list run" where
  "s_ops [] s = Ret []"
| "s_ops (op # ops) s =
     run_bind (s_op op s) (\<lambda>(x, s). run_bind (s_ops ops s) (\<lambda>xs. Ret (x # xs)))"

fun ops_legal :: "rop list \<Rightarrow> strm \<Rightarrow> bool" where
  "ops_legal [] s \<longleftrightarrow> True"
| "ops_legal (op # ops) s \<longleftrightarrow>
     op_legal op s \<and> (case s_op op s of Ret (_, s) \<Rightarrow> ops_legal ops s | _ \<Rightarrow> False)"

lemma run_op_refines:
  assumes wf: "reader_wf r" and "op_legal op (stream_of r)"
  shows "\<exists>x r'. run_op op r = Ret (x, r') \<and> reader_wf r' \<and> s_op op (stream_of r) = Ret (x, stream_of r')"
proof (cases op)
  case OpReadByte
  then show ?thesis using ReadByte_refines [OF wf] by (auto simp: refines_def)
next
  case (OpReadN n)
  then show ?thesis using ReadN_refines [OF wf, of n] by (auto simp: refines_def)
next
  case (OpDiscard n)
  then show ?thesis using Discard_refines [OF wf, of n] by (auto simp: refines_def)
next
  case (OpSeek o' w)
  then show ?thesis using Seek_refines [OF wf, of o' w] by (auto simp: refines_def)
next
  case (OpStartSection n)
  then show ?thesis using StartSection_refines [OF wf, of n] by (auto simp: refines_def)
next
  case OpEndSection
  then show ?thesis using EndSection_refines [OF wf] assms(2) by (auto simp: op_legal_def)
next
  case (OpReadSlice d)
  then show ?thesis using ReadSlice_refines [OF wf, of d] by (auto simp: refines_def)
qed

lemma run_ops_refines:
  assumes "reader_wf r" "ops_legal ops (stream_of r)"
  shows "\<exists>xs. run_ops ops r = Ret xs \<and> s_ops ops (stream_of r) = Ret xs"
  using assms
proof (induction ops arbitrary: r)
  case (Cons op ops)
  then obtain x r' where "run_op op r = Ret (x, r')" "reader_wf r'" "s_op op (stream_of r) = Ret (x, stream_of r')"
    using run_op_refines [of r op] by auto
  moreover from this Cons.prems Cons.IH [of r'] have "\<exists>xs. run_ops ops r' = Ret xs \<and> s_ops ops (stream_of r') = Ret xs"
    by simp
  ultimately show ?case by auto
qed simp



text \<open>
  At the end of a section inside the file, with an empty buffer, a large \<open>Read\<close> returns no bytes and
  no error, where a smaller one returns \<open>EOF\<close>.
\<close>

theorem Read_section_end:
  assumes "reader_wf r" "r_nbuf r = 0" "r_off r = r_slimit r" "r_slimit r < r_limit r"
    "r_source r = Some data" "r_off r \<le> int (length data)" "0 < len"
  shows "Read r len = Ret (([], if int len < r_bufSize r then Some EOF else None), r)"
proof -
  have "r_nlim r = 0" "r_pos r = 0" "0 \<le> r_off r" using reader_wfD [OF assms(1)] assms(2) by auto
  then show ?thesis
    using assms(2-7) fill_blocked(1) [OF assms(1)]
    by (simp add: Read_def Read_loop.simps [of r] ReadAt_def)
qed

theorem Read_section_end_witness:
  "Read (snd (StartSection (NewReader (Some [1, 2]) 0 2) 0)) 65536 =
     Ret (([], None), snd (StartSection (NewReader (Some [1, 2]) 0 2) 0))"
proof -
  let ?r = "snd (StartSection (NewReader (Some [1, 2]) 0 2) 0)"
  have "reader_wf (NewReader (Some [1, 2]) 0 2)" using NewReader_refines [of 0] by simp
  from StartSection_refines [OF this, of 0] have "reader_wf ?r" by (auto simp: refines_def)
  moreover have "r_nbuf ?r = 0" "r_off ?r = r_slimit ?r" "r_slimit ?r < r_limit ?r" "r_source ?r = Some [1, 2]"
    "r_off ?r \<le> int (length [1, 2 :: u8])" "r_bufSize ?r = 65536"
    by (simp_all add: StartSection_def NewReader_def Init_def zero_Reader_def flush_def Remaining_def updateBufferLimit_def)
  ultimately show ?thesis using Read_section_end [of ?r "[1, 2]" 65536] by simp
qed

end
