(* ===== verification/Support.thy ===== *)
theory Support
  imports GoPrelude
begin

text \<open>
  The part of \<open>src/support\<close> that the modelled packages share: the constants of the unwinder's
  instruction format and \<open>UnwindInfo\<close> (\<open>types.go\<close>), and the packing of a mapping's bias with its
  unwind program (\<open>helper.go\<close>).
\<close>

section \<open>Constants of the unwind information\<close>

abbreviation (input) UnwindRegInvalid :: u8 where "UnwindRegInvalid \<equiv> 0"
abbreviation (input) UnwindRegCfa :: u8 where "UnwindRegCfa \<equiv> 1"
abbreviation (input) UnwindRegPc :: u8 where "UnwindRegPc \<equiv> 2"
abbreviation (input) UnwindRegSp :: u8 where "UnwindRegSp \<equiv> 3"
abbreviation (input) UnwindRegFp :: u8 where "UnwindRegFp \<equiv> 4"
abbreviation (input) UnwindRegLr :: u8 where "UnwindRegLr \<equiv> 5"
abbreviation (input) UnwindRegX86RAX :: u8 where "UnwindRegX86RAX \<equiv> 6"
abbreviation (input) UnwindRegX86RDI :: u8 where "UnwindRegX86RDI \<equiv> 7"
abbreviation (input) UnwindRegX86R8 :: u8 where "UnwindRegX86R8 \<equiv> 8"
abbreviation (input) UnwindRegX86R9 :: u8 where "UnwindRegX86R9 \<equiv> 9"
abbreviation (input) UnwindRegX86R11 :: u8 where "UnwindRegX86R11 \<equiv> 10"
abbreviation (input) UnwindRegX86R13 :: u8 where "UnwindRegX86R13 \<equiv> 11"
abbreviation (input) UnwindRegX86R15 :: u8 where "UnwindRegX86R15 \<equiv> 12"

abbreviation (input) UnwindFlagCommand :: u8 where "UnwindFlagCommand \<equiv> 1"
abbreviation (input) UnwindFlagFrame :: u8 where "UnwindFlagFrame \<equiv> 2"
abbreviation (input) UnwindFlagLeafOnly :: u8 where "UnwindFlagLeafOnly \<equiv> 4"
abbreviation (input) UnwindFlagDerefCfa :: u8 where "UnwindFlagDerefCfa \<equiv> 8"

abbreviation (input) UnwindCommandInvalid :: u32 where "UnwindCommandInvalid \<equiv> 0"
abbreviation (input) UnwindCommandStop :: u32 where "UnwindCommandStop \<equiv> 1"
abbreviation (input) UnwindCommandPLT :: u32 where "UnwindCommandPLT \<equiv> 2"
abbreviation (input) UnwindCommandSignal :: u32 where "UnwindCommandSignal \<equiv> 3"
abbreviation (input) UnwindCommandFramePointer :: u32 where "UnwindCommandFramePointer \<equiv> 4"
abbreviation (input) UnwindCommandGoAsmcgocall :: u32 where "UnwindCommandGoAsmcgocall \<equiv> 0x4005"
abbreviation (input) UnwindCommandGoMorestack :: u32 where "UnwindCommandGoMorestack \<equiv> 0x4006"

abbreviation (input) UnwindDerefMask :: u32 where "UnwindDerefMask \<equiv> 7"
abbreviation (input) UnwindDerefMultiplier :: u32 where "UnwindDerefMultiplier \<equiv> 8"

text \<open>Go's struct; \<open>Param\<close> and \<open>AuxParam\<close> are \<open>int32\<close>.\<close>

record UnwindInfo =
  Flags :: u8
  BaseReg :: u8
  AuxBaseReg :: u8
  MergeOpcode :: u8
  Param :: u32
  AuxParam :: u32

definition zero_UnwindInfo :: UnwindInfo where
  "zero_UnwindInfo = \<lparr>Flags = 0, BaseReg = 0, AuxBaseReg = 0, MergeOpcode = 0, Param = 0, AuxParam = 0\<rparr>"

section \<open>Bias and unwind program\<close>

datatype bias_error = BiasTooLarge u64

definition EncodeBiasAndUnwindProgram :: "u64 \<Rightarrow> u8 \<Rightarrow> bias_error + u64" where
  "EncodeBiasAndUnwindProgram bias unwindProgram =
     (if drop_bit 56 bias > 0 then Inl (BiasTooLarge bias)
      else Inr (bias OR push_bit 56 (ucast unwindProgram)))"

definition DecodeBiasAndUnwindProgram :: "u64 \<Rightarrow> u64 \<times> u8" where
  "DecodeBiasAndUnwindProgram biasAndUnwindProgram =
     (biasAndUnwindProgram AND 0x00FFFFFFFFFFFFFF, ucast (drop_bit 56 biasAndUnwindProgram))"

lemma mask_56: "(0x00FFFFFFFFFFFFFF :: u64) = mask 56"
  by (simp add: mask_eq_exp_minus_1)

lemma Encode_Decode:
  assumes "drop_bit 56 bias = 0"
  shows "DecodeBiasAndUnwindProgram (bias OR push_bit 56 (ucast prog)) = (bias, prog)"
proof -
  have hi: "n < 56" if "bit bias n" for n
    using that arg_cong [OF assms, of "\<lambda>w. bit w (n - 56)"] by (cases "n < 56") (simp_all add: bit_simps)
  have "(bias OR push_bit 56 (ucast prog)) AND mask 56 = bias"
    by (rule bit_word_eqI) (auto simp: bit_simps dest: hi)
  moreover have "ucast (drop_bit 56 (bias OR push_bit 56 (ucast prog :: u64))) = prog"
    by (rule bit_word_eqI) (auto simp: bit_simps dest: hi)
  ultimately show ?thesis by (simp add: DecodeBiasAndUnwindProgram_def mask_56)
qed

text \<open>
  C39: Decoding the packed value gives back the bias and the program, encoding fails exactly for a
  bias of more than 56 bits, and every 64-bit value is the encoding of what it decodes to.
\<close>

theorem bias_roundtrip:
  "(case EncodeBiasAndUnwindProgram bias prog of
      Inl e \<Rightarrow> 2 ^ 56 \<le> unat bias \<and> e = BiasTooLarge bias
    | Inr v \<Rightarrow> unat bias < 2 ^ 56 \<and> DecodeBiasAndUnwindProgram v = (bias, prog)) \<and>
   (case DecodeBiasAndUnwindProgram w of (b, p) \<Rightarrow> EncodeBiasAndUnwindProgram b p = Inr w)"
proof -
  have drop0: "drop_bit 56 bias = 0 \<longleftrightarrow> unat bias < 2 ^ 56"
    unfolding word_unat_eq_iff unat_drop_bit_eq by (simp add: drop_bit_eq_div div_eq_0_iff)
  have "drop_bit 56 (w AND mask 56) = 0"
    by (rule bit_word_eqI) (auto simp: bit_simps)
  moreover have "(w AND mask 56) OR push_bit 56 (ucast (ucast (drop_bit 56 w) :: u8)) = w"
    by (rule bit_word_eqI) (auto simp: bit_simps)
  ultimately have enc: "case DecodeBiasAndUnwindProgram w of (b, p) \<Rightarrow> EncodeBiasAndUnwindProgram b p = Inr w"
    by (simp only: EncodeBiasAndUnwindProgram_def DecodeBiasAndUnwindProgram_def mask_56 prod.case) simp
  show ?thesis
  proof (cases "drop_bit 56 bias = 0")
    case True
    then have "EncodeBiasAndUnwindProgram bias prog = Inr (bias OR push_bit 56 (ucast prog))"
      by (simp add: EncodeBiasAndUnwindProgram_def)
    then show ?thesis using enc Encode_Decode [OF True, of prog] drop0 True by simp
  next
    case False
    then have "EncodeBiasAndUnwindProgram bias prog = Inl (BiasTooLarge bias)"
      by (simp add: EncodeBiasAndUnwindProgram_def word_gt_0)
    then show ?thesis using enc drop0 False by simp
  qed
qed

end
