(* ===== verification/StackDelta.thy ===== *)
theory StackDelta
  imports Support
begin

text \<open>
  Stack deltas and interval data: \<open>src/nativeunwind/stackdeltatypes/stackdeltatypes.go\<close>.  A basic
  block carries a list of deltas, each of which gives the unwind information from its offset on; the
  interval data of an executable is its list of blocks.
\<close>

section \<open>The code\<close>

abbreviation (input) MinimumGap :: u64 where "MinimumGap \<equiv> 15"

definition UnwindInfoInvalid :: UnwindInfo where
  "UnwindInfoInvalid = zero_UnwindInfo\<lparr>Flags := UnwindFlagCommand, Param := UnwindCommandInvalid\<rparr>"

definition UnwindInfoStop :: UnwindInfo where
  "UnwindInfoStop = zero_UnwindInfo\<lparr>Flags := UnwindFlagCommand, Param := UnwindCommandStop\<rparr>"

definition UnwindInfoSignal :: UnwindInfo where
  "UnwindInfoSignal = zero_UnwindInfo\<lparr>Flags := UnwindFlagCommand, Param := UnwindCommandSignal\<rparr>"

definition UnwindInfoFramePointer :: UnwindInfo where
  "UnwindInfoFramePointer =
     zero_UnwindInfo\<lparr>Flags := UnwindFlagCommand, Param := UnwindCommandFramePointer\<rparr>"

definition UnwindInfoGoAsmcgocall :: UnwindInfo where
  "UnwindInfoGoAsmcgocall =
     zero_UnwindInfo\<lparr>Flags := UnwindFlagCommand, Param := UnwindCommandGoAsmcgocall\<rparr>"

definition UnwindInfoGoMorestack :: UnwindInfo where
  "UnwindInfoGoMorestack =
     zero_UnwindInfo\<lparr>Flags := UnwindFlagCommand, Param := UnwindCommandGoMorestack\<rparr>"

definition UnwindInfoLR :: UnwindInfo where
  "UnwindInfoLR = zero_UnwindInfo\<lparr>BaseReg := UnwindRegSp, AuxBaseReg := UnwindRegLr\<rparr>"

lemmas UnwindInfo_defs = UnwindInfoInvalid_def UnwindInfoStop_def UnwindInfoSignal_def
  UnwindInfoFramePointer_def UnwindInfoGoAsmcgocall_def UnwindInfoGoMorestack_def UnwindInfoLR_def
  zero_UnwindInfo_def

record StackDelta =
  Offset :: u32
  Info :: UnwindInfo

type_synonym StackDeltaArray = "StackDelta list"

record BasicBlock =
  Start :: u64
  End :: u64
  Deltas :: StackDeltaArray

record IntervalData =
  NumDeltas :: u32
  Blocks :: "BasicBlock list"

text \<open>\<open>StackDeltaArray.Add\<close>: a command keeps only its parameter; a repetition is dropped.\<close>

definition canonical_info :: "UnwindInfo \<Rightarrow> UnwindInfo" where
  "canonical_info info =
     (if Flags info AND UnwindFlagCommand \<noteq> 0
      then zero_UnwindInfo\<lparr>Flags := UnwindFlagCommand, Param := Param info\<rparr> else info)"

definition StackDeltaArray_Add :: "StackDeltaArray \<Rightarrow> u32 \<Rightarrow> UnwindInfo \<Rightarrow> StackDeltaArray" where
  "StackDeltaArray_Add deltas offset info =
     (let info = canonical_info info in
      if deltas \<noteq> [] \<and> Info (last deltas) = info then deltas
      else deltas @ [\<lparr>Offset = offset, Info = info\<rparr>])"

text \<open>The condition under which \<open>IntervalData.Add\<close> extends the last block instead of appending.\<close>

definition IntervalData_merges :: "IntervalData \<Rightarrow> BasicBlock \<Rightarrow> bool" where
  "IntervalData_merges intervals bb \<longleftrightarrow>
     Blocks intervals \<noteq> [] \<and> length (Deltas bb) = 1 \<and>
     length (Deltas (last (Blocks intervals))) = 1 \<and>
     Deltas bb ! 0 = Deltas (last (Blocks intervals)) ! 0 \<and>
     Start bb - End (last (Blocks intervals)) \<le> MinimumGap"

definition IntervalData_Add :: "IntervalData \<Rightarrow> BasicBlock \<Rightarrow> IntervalData" where
  "IntervalData_Add intervals bb =
     (if IntervalData_merges intervals bb
      then intervals\<lparr>Blocks := butlast (Blocks intervals) @ [(last (Blocks intervals))\<lparr>End := End bb\<rparr>]\<rparr>
      else intervals\<lparr>NumDeltas := NumDeltas intervals + of_nat (length (Deltas bb)),
                     Blocks := Blocks intervals @ [bb]\<rparr>)"

text \<open>
  \<open>FindIndex\<close>: \<open>slices.BinarySearchFunc\<close> on the block starts, then a range check.  The result \<open>None\<close>
  stands for the code's \<open>-1\<close>.
\<close>

definition FindIndex :: "IntervalData \<Rightarrow> u64 \<Rightarrow> nat option" where
  "FindIndex intervals addr =
     (let bs = Blocks intervals;
          idx = Search_loop 0 (length bs) (\<lambda>h. \<not> Start (bs ! h) < addr);
          ok = (idx < length bs \<and> Start (bs ! idx) = addr)
      in if \<not> ok \<and> idx = 0 then None
         else let idx = (if ok then idx else idx - 1); bb = bs ! idx
              in if addr \<ge> Start bb \<and> addr < End bb then Some idx else None)"

definition Find :: "IntervalData \<Rightarrow> u64 \<Rightarrow> BasicBlock option" where
  "Find intervals addr =
     (case FindIndex intervals addr of Some idx \<Rightarrow> Some (Blocks intervals ! idx) | None \<Rightarrow> None)"

text \<open>
  \<open>slices.SortFunc\<close> leaves the order of blocks with equal starts open; the model uses the stable
  order.
\<close>

definition Sort :: "IntervalData \<Rightarrow> IntervalData" where
  "Sort intervals = intervals\<lparr>Blocks := sort_key Start (Blocks intervals)\<rparr>"

definition PackDerefParam :: "u32 \<Rightarrow> u32 \<Rightarrow> u32 \<times> bool" where
  "PackDerefParam preDeref postDeref =
     (if sint postDeref < 0 \<or> sint postDeref > 0x20 \<or> sint postDeref mod 8 \<noteq> 0 then (0, False)
      else (preDeref + word_of_int (sint postDeref div 8), True))"

definition UnpackDerefParam :: "u32 \<Rightarrow> u32 \<times> u32" where
  "UnpackDerefParam param =
     (param AND NOT UnwindDerefMask, (param AND UnwindDerefMask) * UnwindDerefMultiplier)"

section \<open>Deltas of a block\<close>

text \<open>What a delta list says about an offset: the last delta at or before it.\<close>

definition info_at :: "StackDeltaArray \<Rightarrow> u32 \<Rightarrow> UnwindInfo option" where
  "info_at ds off =
     (case filter (\<lambda>d. Offset d \<le> off) ds of [] \<Rightarrow> None | d # ds' \<Rightarrow> Some (Info (last (d # ds'))))"

definition deltas_wf :: "StackDeltaArray \<Rightarrow> bool" where
  "deltas_wf ds \<longleftrightarrow> distinct_adj (map Info ds) \<and> (\<forall>d \<in> set ds. canonical_info (Info d) = Info d)"

lemma canonical_info_idem [simp]: "canonical_info (canonical_info i) = canonical_info i"
  by (simp add: canonical_info_def zero_UnwindInfo_def)

lemma info_at_last: "ds \<noteq> [] \<Longrightarrow> \<forall>d \<in> set ds. Offset d \<le> off \<Longrightarrow> info_at ds off = Some (Info (last ds))"
  by (cases ds) (simp_all add: info_at_def)

lemma info_at_append:
  "info_at (ds @ [d]) off = (if Offset d \<le> off then Some (Info d) else info_at ds off)"
  by (cases "filter (\<lambda>d. Offset d \<le> off) ds") (simp_all add: info_at_def)

lemma info_at_single: "Offset d = 0 \<Longrightarrow> info_at [d] off = Some (Info d)"
  by (simp add: info_at_def)

lemma StackDeltaArray_Add_wf: "deltas_wf ds \<Longrightarrow> deltas_wf (StackDeltaArray_Add ds off info)"
  by (auto simp: deltas_wf_def StackDeltaArray_Add_def Let_def distinct_adj_append_iff last_map)

lemma StackDeltaArray_Add_info_at:
  assumes "\<forall>d \<in> set ds. Offset d \<le> offset"
  shows "info_at (StackDeltaArray_Add ds offset info) off =
    (if offset \<le> off then Some (canonical_info info) else info_at ds off)"
proof (cases "ds \<noteq> [] \<and> Info (last ds) = canonical_info info")
  case True
  then show ?thesis
    using assms info_at_last [of ds off] by (auto simp: StackDeltaArray_Add_def Let_def intro: order_trans)
next
  case False
  then have "StackDeltaArray_Add ds offset info = ds @ [\<lparr>Offset = offset, Info = canonical_info info\<rparr>]"
    by (auto simp: StackDeltaArray_Add_def Let_def)
  then show ?thesis by (simp add: info_at_append)
qed

section \<open>Finding a block\<close>

definition blocks_wf :: "BasicBlock list \<Rightarrow> bool" where
  "blocks_wf bs \<longleftrightarrow> (\<forall>b \<in> set bs. Start b < End b) \<and> sorted_wrt (\<lambda>b c. End b \<le> Start c) bs"

lemma blocks_wf_less:
  "blocks_wf bs \<Longrightarrow> i < j \<Longrightarrow> j < length bs \<Longrightarrow> End (bs ! i) \<le> Start (bs ! j)"
  using sorted_wrt_nth_less [of "\<lambda>b c. End b \<le> Start c" bs i j] by (simp add: blocks_wf_def)

lemma blocks_wf_nonempty: "blocks_wf bs \<Longrightarrow> i < length bs \<Longrightarrow> Start (bs ! i) < End (bs ! i)"
  by (simp add: blocks_wf_def)

lemma blocks_wf_starts:
  assumes "blocks_wf bs" "i < j" "j < length bs"
  shows "Start (bs ! i) < Start (bs ! j)"
  using blocks_wf_less [OF assms] blocks_wf_nonempty [of bs i] assms by (meson less_trans less_le_trans)

lemma FindIndex_iff:
  assumes wf: "blocks_wf (Blocks iv)"
  shows "FindIndex iv a = Some i \<longleftrightarrow>
    i < length (Blocks iv) \<and> Start (Blocks iv ! i) \<le> a \<and> a < End (Blocks iv ! i)"
proof -
  let ?bs = "Blocks iv" and ?f = "\<lambda>h. \<not> Start (Blocks iv ! h) < a"
  define r where "r = Search_loop 0 (length ?bs) ?f"
  have mono: "?f k" if "h \<le> k" "k < length ?bs" "?f h" for h k
    using blocks_wf_starts [OF wf, of h k] that by (cases "h = k") (auto simp: not_less)
  have iff: "h < length ?bs \<Longrightarrow> ?f h \<longleftrightarrow> r \<le> h" for h
    unfolding r_def using mono by (rule Search_loop_monotone)
  have r_le: "r \<le> length ?bs" unfolding r_def by (rule Search_loop_bounds) simp
  let ?ok = "r < length ?bs \<and> Start (?bs ! r) = a"
  have FI: "FindIndex iv a = (if \<not> ?ok \<and> r = 0 then None else
      let idx = (if ?ok then r else r - 1) in
      if a \<ge> Start (?bs ! idx) \<and> a < End (?bs ! idx) then Some idx else None)"
    by (simp only: FindIndex_def r_def Let_def)
  show ?thesis
  proof
    assume "FindIndex iv a = Some i"
    with r_le show "i < length ?bs \<and> Start (?bs ! i) \<le> a \<and> a < End (?bs ! i)"
      by (auto simp: FI Let_def split: if_splits)
  next
    assume i: "i < length ?bs \<and> Start (?bs ! i) \<le> a \<and> a < End (?bs ! i)"
    show "FindIndex iv a = Some i"
    proof (cases "Start (?bs ! i) = a")
      case True
      then have "r \<le> i" using i iff [of i] by simp
      moreover have "\<not> r < i" using iff [of r] blocks_wf_starts [OF wf, of r i] i True by auto
      ultimately have "r = i" by simp
      with i True show ?thesis by (simp add: FI)
    next
      case False
      then have "i < r" using i iff [of i] by (auto simp: not_le)
      moreover have "r \<le> i + 1"
        using iff [of "i + 1"] blocks_wf_less [OF wf, of i "i + 1"] i r_le by (cases "i + 1 < length ?bs") auto
      ultimately have r: "r = i + 1" by simp
      have "\<not> ?ok" using r blocks_wf_less [OF wf, of i r] i by auto
      with i r show ?thesis by (simp add: FI)
    qed
  qed
qed

lemma Find_iff:
  assumes "blocks_wf (Blocks iv)"
  shows "Find iv a = Some b \<longleftrightarrow> b \<in> set (Blocks iv) \<and> Start b \<le> a \<and> a < End b"
proof
  assume "Find iv a = Some b"
  then obtain i where "FindIndex iv a = Some i" "b = Blocks iv ! i"
    by (auto simp: Find_def split: option.splits)
  then show "b \<in> set (Blocks iv) \<and> Start b \<le> a \<and> a < End b" by (simp add: FindIndex_iff [OF assms])
next
  assume "b \<in> set (Blocks iv) \<and> Start b \<le> a \<and> a < End b"
  then obtain i where "FindIndex iv a = Some i" "b = Blocks iv ! i"
    by (metis FindIndex_iff [OF assms] in_set_conv_nth)
  then show "Find iv a = Some b" by (simp add: Find_def)
qed

lemma Find_None:
  assumes "blocks_wf (Blocks iv)"
  shows "Find iv a = None \<longleftrightarrow> (\<forall>b \<in> set (Blocks iv). \<not> (Start b \<le> a \<and> a < End b))"
  using Find_iff [OF assms, of a] by (metis not_None_eq)

definition blocks_disjoint :: "BasicBlock list \<Rightarrow> bool" where
  "blocks_disjoint bs \<longleftrightarrow> distinct bs \<and> (\<forall>b \<in> set bs. Start b < End b) \<and>
     (\<forall>b \<in> set bs. \<forall>c \<in> set bs. b \<noteq> c \<longrightarrow> End b \<le> Start c \<or> End c \<le> Start b)"

lemma Sort_blocks_wf:
  assumes "blocks_disjoint (Blocks iv)"
  shows "blocks_wf (Blocks (Sort iv))"
proof -
  let ?ys = "sort_key Start (Blocks iv)"
  have "End (?ys ! i) \<le> Start (?ys ! j)" if ij: "i < j" "j < length ?ys" for i j
  proof -
    have mem: "?ys ! i \<in> set (Blocks iv)" "?ys ! j \<in> set (Blocks iv)"
      using ij nth_mem [of i ?ys] nth_mem [of j ?ys] by simp_all
    have neq: "?ys ! i \<noteq> ?ys ! j"
      using assms ij by (simp add: blocks_disjoint_def nth_eq_iff_index_eq)
    have "Start (?ys ! i) \<le> Start (?ys ! j)"
      using sorted_sort_key [of Start "Blocks iv"] ij by (simp add: sorted_wrt_iff_nth_less)
    moreover have "Start (?ys ! j) < End (?ys ! j)" using assms mem by (simp add: blocks_disjoint_def)
    moreover have "End (?ys ! i) \<le> Start (?ys ! j) \<or> End (?ys ! j) \<le> Start (?ys ! i)"
      using assms mem neq unfolding blocks_disjoint_def by blast
    ultimately show ?thesis by (elim disjE) order+
  qed
  then show ?thesis
    using assms by (simp add: blocks_wf_def Sort_def sorted_wrt_iff_nth_less blocks_disjoint_def)
qed

section \<open>Adding a block\<close>

text \<open>What the interval data says about an address, through \<open>Find\<close>.\<close>

definition lookup_info :: "IntervalData \<Rightarrow> u64 \<Rightarrow> UnwindInfo option" where
  "lookup_info iv a =
     (case Find iv a of None \<Rightarrow> None | Some b \<Rightarrow> info_at (Deltas b) (ucast (a - Start b)))"

definition counts_deltas :: "IntervalData \<Rightarrow> bool" where
  "counts_deltas iv \<longleftrightarrow> NumDeltas iv = of_nat (\<Sum>b \<leftarrow> Blocks iv. length (Deltas b))"

text \<open>The block is appended behind the others; a block with a single delta has it at its start.\<close>

definition appends_after :: "IntervalData \<Rightarrow> BasicBlock \<Rightarrow> bool" where
  "appends_after iv bb \<longleftrightarrow> blocks_wf (Blocks iv) \<and> Start bb < End bb \<and>
     (\<forall>b \<in> set (Blocks iv). End b \<le> Start bb) \<and>
     (length (Deltas bb) = 1 \<longrightarrow> Offset (Deltas bb ! 0) = 0)"

lemma lookup_info_block:
  assumes "blocks_wf (Blocks iv)" "b \<in> set (Blocks iv)" "Start b \<le> a" "a < End b"
  shows "lookup_info iv a = info_at (Deltas b) (ucast (a - Start b))"
  using Find_iff [OF assms(1), of a b] assms(2-4) by (simp add: lookup_info_def)

lemma lookup_info_outside:
  assumes "blocks_wf (Blocks iv)" "\<And>b. b \<in> set (Blocks iv) \<Longrightarrow> \<not> (Start b \<le> a \<and> a < End b)"
  shows "lookup_info iv a = None"
proof -
  have "Find iv a = None" using Find_None [OF assms(1)] assms(2) by blast
  then show ?thesis by (simp add: lookup_info_def)
qed

lemma IntervalData_Add_counts: "counts_deltas iv \<Longrightarrow> counts_deltas (IntervalData_Add iv bb)"
proof -
  assume c: "counts_deltas iv"
  show ?thesis
  proof (cases "IntervalData_merges iv bb")
    case True
    then obtain xs l where "Blocks iv = xs @ [l]"
      by (metis IntervalData_merges_def append_butlast_last_id)
    with c True show ?thesis by (simp add: IntervalData_Add_def counts_deltas_def)
  next
    case False
    with c show ?thesis by (simp add: IntervalData_Add_def counts_deltas_def)
  qed
qed

lemma append_lookup:
  assumes "appends_after iv bb" "Blocks iv' = Blocks iv @ [bb]"
  shows "blocks_wf (Blocks iv')"
    "lookup_info iv' a = (if Start bb \<le> a \<and> a < End bb then info_at (Deltas bb) (ucast (a - Start bb))
       else lookup_info iv a)"
proof -
  have wf: "blocks_wf (Blocks iv)" using assms(1) by (simp add: appends_after_def)
  show wf': "blocks_wf (Blocks iv')"
    using assms by (auto simp: blocks_wf_def appends_after_def sorted_wrt_append)
  show "lookup_info iv' a = (if Start bb \<le> a \<and> a < End bb then info_at (Deltas bb) (ucast (a - Start bb))
       else lookup_info iv a)"
  proof (cases "Find iv' a")
    case None
    then have "Find iv a = None" "\<not> (Start bb \<le> a \<and> a < End bb)"
      using assms(2) by (simp_all add: Find_None [OF wf] Find_None [OF wf'])
    with None show ?thesis by (auto simp: lookup_info_def)
  next
    case (Some b)
    then have b: "b = bb \<or> b \<in> set (Blocks iv)" "Start b \<le> a" "a < End b"
      using assms(2) by (simp_all add: Find_iff [OF wf'])
    then show ?thesis
    proof (cases "b = bb")
      case False
      with b have "b \<in> set (Blocks iv)" "\<not> Start bb \<le> a"
        using assms(1) by (auto simp: appends_after_def)
      with b Some Find_iff [OF wf, of a b] show ?thesis by (simp add: lookup_info_def)
    qed (use Some in \<open>simp add: lookup_info_def\<close>)
  qed
qed

lemma merge_lookup:
  assumes app: "appends_after iv bb" and m: "IntervalData_merges iv bb"
    and iv': "Blocks iv' = butlast (Blocks iv) @ [(last (Blocks iv))\<lparr>End := End bb\<rparr>]"
  shows "blocks_wf (Blocks iv')"
    "lookup_info iv' a = (if End (last (Blocks iv)) \<le> a \<and> a < End bb then Some (Info (Deltas bb ! 0))
       else lookup_info iv a)"
proof -
  obtain xs l where bl: "Blocks iv = xs @ [l]"
    using m by (metis IntervalData_merges_def append_butlast_last_id)
  obtain d where d: "Deltas bb = [d]" "Deltas l = [d]"
    using m by (auto simp: IntervalData_merges_def bl length_Suc_conv)
  let ?l' = "l\<lparr>End := End bb\<rparr>"
  have iv'': "Blocks iv' = xs @ [?l']" using iv' bl by simp
  have wf: "blocks_wf (xs @ [l])" and l: "Start l < End l" "End l \<le> Start bb" "Start bb < End bb"
    and od: "Offset d = 0"
    using app d by (auto simp: appends_after_def bl blocks_wf_def)
  have ll: "Start l < End bb" using l by order
  then show wf': "blocks_wf (Blocks iv')"
    using wf by (auto simp: iv'' blocks_wf_def sorted_wrt_append)
  have l_only: "\<not> a < End b" if "b \<in> set xs" "Start l \<le> a" for b
    using wf that by (auto simp: blocks_wf_def sorted_wrt_append)
  show "lookup_info iv' a = (if End (last (Blocks iv)) \<le> a \<and> a < End bb then Some (Info (Deltas bb ! 0))
       else lookup_info iv a)"
  proof (cases "Find iv' a")
    case None
    then have "\<forall>b \<in> set xs. \<not> (Start b \<le> a \<and> a < End b)" "\<not> (Start l \<le> a \<and> a < End bb)"
      by (simp_all add: Find_None [OF wf'] iv'')
    moreover from this l have "Find iv a = None"
      by (auto simp: Find_None [OF wf [folded bl]] bl)
    ultimately show ?thesis using None l by (auto simp: lookup_info_def bl)
  next
    case (Some b)
    then have b: "b \<in> set xs \<or> b = ?l'" "Start b \<le> a" "a < End b"
      by (auto simp: Find_iff [OF wf'] iv'')
    have same: "Find iv a = Some c" if "c = l \<or> c \<in> set xs" "Start c \<le> a" "a < End c" for c
      using that by (auto simp: Find_iff [OF wf [folded bl]] bl)
    show ?thesis
    proof (cases "b = ?l'")
      case True
      then have "lookup_info iv' a = Some (Info d)" using Some d od by (simp add: lookup_info_def info_at_single)
      moreover have "lookup_info iv a = Some (Info d)" if "a < End l"
        using same [of l] True b that d od by (simp add: lookup_info_def info_at_single)
      ultimately show ?thesis using True b d by (auto simp: bl not_le)
    next
      case False
      then have bx: "b \<in> set xs" using b by simp
      then have "a < Start l" using l_only b by (metis not_le)
      with l bx b Some same [of b] show ?thesis by (auto simp: lookup_info_def bl)
    qed
  qed
qed

section \<open>Properties\<close>

text \<open>
  C30: Adding a delta at or behind the offsets already present makes the new information hold from
  its offset on and leaves every smaller offset as it was; two neighbouring deltas never carry the
  same information, and commands carry nothing but their parameter.
\<close>

theorem StackDeltaArray_Add_correct:
  assumes "deltas_wf ds" and "\<forall>d \<in> set ds. Offset d \<le> offset"
  shows "deltas_wf (StackDeltaArray_Add ds offset info) \<and>
    info_at (StackDeltaArray_Add ds offset info) off =
      (if offset \<le> off then Some (canonical_info info) else info_at ds off)"
  using StackDeltaArray_Add_wf [OF assms(1)] StackDeltaArray_Add_info_at [OF assms(2)] by blast

theorem StackDeltaArray_Add_correct_witness:
  "deltas_wf [\<lparr>Offset = 0, Info = UnwindInfoLR\<rparr>] \<and>
   info_at (StackDeltaArray_Add [\<lparr>Offset = 0, Info = UnwindInfoLR\<rparr>] 4 (UnwindInfoStop\<lparr>AuxParam := 9\<rparr>)) 8 =
     Some UnwindInfoStop"
proof -
  let ?ds = "[\<lparr>Offset = 0, Info = UnwindInfoLR\<rparr>]"
  have wf: "deltas_wf ?ds" by (simp add: deltas_wf_def canonical_info_def UnwindInfo_defs)
  show ?thesis
    using wf StackDeltaArray_Add_correct [OF wf, of 4 "UnwindInfoStop\<lparr>AuxParam := 9\<rparr>" 8]
    by (simp add: canonical_info_def UnwindInfo_defs)
qed

text \<open>
  C26: After \<open>Sort\<close>, \<open>Find\<close> returns a block exactly when one of the disjoint, non-empty blocks contains
  the address, and then that block.
\<close>

theorem Find_Sort:
  assumes "blocks_disjoint (Blocks iv)"
  shows "Find (Sort iv) a = Some b \<longleftrightarrow> b \<in> set (Blocks iv) \<and> Start b \<le> a \<and> a < End b"
  using Find_iff [OF Sort_blocks_wf [OF assms]] by (simp add: Sort_def)

theorem Find_Sort_witness:
  "Find (Sort \<lparr>NumDeltas = 0, Blocks = [\<lparr>Start = 32, End = 48, Deltas = []\<rparr>,
     \<lparr>Start = 16, End = 20, Deltas = []\<rparr>]\<rparr>) 19 = Some \<lparr>Start = 16, End = 20, Deltas = []\<rparr>"
proof -
  let ?iv = "\<lparr>NumDeltas = 0, Blocks = [\<lparr>Start = 32, End = 48, Deltas = []\<rparr>,
     \<lparr>Start = 16, End = 20, Deltas = []\<rparr>]\<rparr>"
  have "blocks_disjoint (Blocks ?iv)" by (simp add: blocks_disjoint_def)
  from Find_Sort [OF this, of 19 "\<lparr>Start = 16, End = 20, Deltas = []\<rparr>"] show ?thesis by simp
qed


abbreviation (input) lr_block :: "u64 \<Rightarrow> u64 \<Rightarrow> BasicBlock" where
  "lr_block s e \<equiv> \<lparr>Start = s, End = e, Deltas = [\<lparr>Offset = 0, Info = UnwindInfoLR\<rparr>]\<rparr>"


lemma disjoint_bits_add:
  fixes pre q m :: "'a::len word"
  assumes "pre AND m = 0" "q AND NOT m = 0"
  shows "(pre + q) AND NOT m = pre" "(pre + q) AND m = q"
proof -
  have pre: "\<not> bit m n" if "bit pre n" for n
    using that arg_cong [OF assms(1), of "\<lambda>w. bit w n"] by (simp add: bit_simps)
  have q: "bit m n" if "bit q n" "n < LENGTH('a)" for n
    using that arg_cong [OF assms(2), of "\<lambda>w. bit w n"] by (simp add: bit_simps)
  have "pre AND q = 0" by (rule bit_word_eqI) (auto simp: bit_simps dest: pre q)
  then have "pre + q = pre OR q" by (rule disjunctive_add_eq_or)
  moreover have "(pre OR q) AND NOT m = pre" "(pre OR q) AND m = q"
    by (rule bit_word_eqI, auto simp: bit_simps dest: pre q)+
  ultimately show "(pre + q) AND NOT m = pre" "(pre + q) AND m = q" by simp_all
qed

text \<open>
  C40: For a multiple of eight as the first parameter, packing succeeds exactly for the second
  parameters 0, 8, 16, 24 and 32, and unpacking then gives both back.
\<close>

theorem PackDerefParam_roundtrip:
  assumes "preDeref AND 7 = 0"
  shows "case PackDerefParam preDeref postDeref of
      (param, True) \<Rightarrow> postDeref \<in> {0, 8, 16, 24, 32} \<and> UnpackDerefParam param = (preDeref, postDeref)
    | (param, False) \<Rightarrow> postDeref \<notin> {0, 8, 16, 24, 32} \<and> param = 0"
proof (cases "sint postDeref < 0 \<or> sint postDeref > 0x20 \<or> sint postDeref mod 8 \<noteq> 0")
  case True
  then show ?thesis by (auto simp: PackDerefParam_def)
next
  case False
  define k where "k = sint postDeref"
  have "k \<in> {0, 8, 16, 24, 32}" using False by (auto simp: k_def)
  moreover have "postDeref = of_int k" by (simp add: k_def)
  ultimately have post: "postDeref \<in> {0, 8, 16, 24, 32}" by auto
  with False disjoint_bits_add [OF assms] disjoint_bits_add [OF assms, of 0] assms show ?thesis
    by (auto simp: PackDerefParam_def UnpackDerefParam_def)
qed

theorem PackDerefParam_roundtrip_witness:
  "(24 :: u32) AND 7 = 0 \<and> PackDerefParam 24 16 = (26, True) \<and> UnpackDerefParam 26 = (24, 16)"
  using PackDerefParam_roundtrip [of 24 16] by (simp add: PackDerefParam_def)

end
