(* ===== verification/DwarfVM.thy ===== *)
theory DwarfVM
  imports Pfbufio StackDelta
begin

text \<open>
  The DWARF call-frame machine of \<open>src/nativeunwind/elfunwindinfo/elfehframe.go\<close> with its two
  architectures (\<open>elfehframe_x86.go\<close>, \<open>elfehframe_aarch64.go\<close>): LEB128 numbers, DWARF expressions, encoded
  pointers, the register rules, the opcode loop \<open>step\<close> and the translation of a register state into
  unwind information.

  The reader is the stream that \<open>Pfbufio\<close> proves the buffered reader to implement.
\<close>

section \<open>The reader\<close>

abbreviation (input) EM_X86_64 :: u16 where "EM_X86_64 \<equiv> 62"
abbreviation (input) EM_AARCH64 :: u16 where "EM_AARCH64 \<equiv> 183"

type_synonym uleb128 = u64
type_synonym sleb128 = u64
type_synonym encoding = u8

datatype eh_error = ErrIO io_error | ErrExprOpcode u8 | ErrFormat encoding | ErrAdjust encoding
  | ErrIndirect encoding | ErrExprUnmatched | ErrStackOverflow u64 | ErrStackUnderflow u64
  | ErrOpcode u8 | ErrEmptyEntry | ErrInitialLength int | ErrHeader int int | ErrCIEVersion u8
  | ErrAugmentationLong | ErrAugmentationOld | ErrAugmentation | ErrUnexpectedType
  | ErrIpStart u64 u64 | ErrHdrVersion u8 | ErrUnmappable u64

record reader =
  rd :: strm
  rd_machine :: u16
  rd_debugFrame :: bool
  rd_vaddr :: u64

text \<open>An operation of the stream on the reader that embeds it.\<close>

definition on_rd :: "(strm \<Rightarrow> 'a \<times> strm) \<Rightarrow> reader \<Rightarrow> 'a \<times> reader" where
  "on_rd f r = (case f (rd r) of (x, s) \<Rightarrow> (x, r\<lparr>rd := s\<rparr>))"

subsection \<open>LEB128\<close>

lemma s_bytes_avail: "s_bytes s = b # bs \<Longrightarrow> 0 < s_avail s"
  by (cases "0 < s_avail s") (auto simp: s_bytes_def)

lemma s_Uint8_cases:
  obtains (byte) b bs where "s_bytes s = b # bs" "s_Uint8 s = (b, s_advance s 1)" "s_avail (s_advance s 1) = s_avail s - 1" "0 < s_avail s"
  | (none) "s_bytes s = []" "s_Uint8 s = (0, s)"
proof (cases "s_bytes s")
  case Nil
  then show ?thesis by (intro none) (simp_all add: s_Uint8_def s_ReadByte_def)
next
  case (Cons b bs)
  then show ?thesis
    using s_bytes_avail [OF Cons] s_advance_avail [of 1 s]
    by (intro byte [of b bs]) (simp_all add: s_Uint8_def s_ReadByte_def)
qed

lemma s_Uint8_avail:
  assumes "s_Uint8 s = (b, s')"
  shows "s_avail s' \<le> s_avail s" "b \<noteq> 0 \<Longrightarrow> s_avail s' < s_avail s \<and> 0 < s_avail s"
  by (cases s rule: s_Uint8_cases; use assms in auto)+

function uleb_loop :: "strm \<Rightarrow> nat \<Rightarrow> u64 \<Rightarrow> uleb128 \<times> strm" where
  "uleb_loop s shift val =
     (let (b, s') = s_Uint8 s;
          val = val OR push_bit shift (ucast (b AND 0x7f))
      in if b AND 0x80 \<noteq> 0 then uleb_loop s' (shift + 7) val else (val, s'))"
  by pat_completeness auto
termination
  by (relation "measure (\<lambda>(s, shift, val). nat (s_avail s))") (auto dest!: s_Uint8_avail(2) [OF sym])

function sleb_loop :: "strm \<Rightarrow> nat \<Rightarrow> u64 \<Rightarrow> sleb128 \<times> strm" where
  "sleb_loop s shift val =
     (let (b, s') = s_Uint8 s;
          val = val OR push_bit shift (ucast (b AND 0x7f));
          shift = shift + 7
      in if b AND 0x80 \<noteq> 0 then sleb_loop s' shift val
         else (if b AND 0x40 \<noteq> 0 then val OR push_bit shift (- 1) else val, s'))"
  by pat_completeness auto
termination
  by (relation "measure (\<lambda>(s, shift, val). nat (s_avail s))") (auto dest!: s_Uint8_avail(2) [OF sym])

declare uleb_loop.simps [simp del] sleb_loop.simps [simp del]

definition uleb :: "reader \<Rightarrow> uleb128 \<times> reader" where
  "uleb r = on_rd (\<lambda>s. uleb_loop s 0 0) r"

definition sleb :: "reader \<Rightarrow> sleb128 \<times> reader" where
  "sleb r = on_rd (\<lambda>s. sleb_loop s 0 0) r"

definition rd_Uint8 :: "reader \<Rightarrow> u8 \<times> reader" where "rd_Uint8 r = on_rd s_Uint8 r"
definition rd_Uint16 :: "reader \<Rightarrow> u16 \<times> reader" where "rd_Uint16 r = on_rd (s_Uint 2) r"
definition rd_Uint32 :: "reader \<Rightarrow> u32 \<times> reader" where "rd_Uint32 r = on_rd (s_Uint 4) r"
definition rd_Uint64 :: "reader \<Rightarrow> u64 \<times> reader" where "rd_Uint64 r = on_rd (s_Uint 8) r"

definition rd_Remaining :: "reader \<Rightarrow> int" where "rd_Remaining r = s_Remaining (rd r)"
definition rd_Tell :: "reader \<Rightarrow> int" where "rd_Tell r = s_Tell (rd r)"
definition rd_Discard :: "reader \<Rightarrow> int \<Rightarrow> reader" where
  "rd_Discard r n = r\<lparr>rd := snd (s_Discard (rd r) n)\<rparr>"
definition rd_StartSection :: "reader \<Rightarrow> int \<Rightarrow> io_error option \<times> reader" where
  "rd_StartSection r n = on_rd (\<lambda>s. s_StartSection s n) r"
definition rd_EndSection :: "reader \<Rightarrow> reader run" where
  "rd_EndSection r = run_bind (s_EndSection (rd r)) (\<lambda>s. Ret (r\<lparr>rd := s\<rparr>))"

subsection \<open>DWARF expressions\<close>

abbreviation (input) opDeref :: u8 where "opDeref \<equiv> 0x06"
abbreviation (input) opConstU :: u8 where "opConstU \<equiv> 0x10"
abbreviation (input) opConstS :: u8 where "opConstS \<equiv> 0x11"
abbreviation (input) opRot :: u8 where "opRot \<equiv> 0x17"
abbreviation (input) opAnd :: u8 where "opAnd \<equiv> 0x1a"
abbreviation (input) opMul :: u8 where "opMul \<equiv> 0x1e"
abbreviation (input) opPlus :: u8 where "opPlus \<equiv> 0x22"
abbreviation (input) opPlusUConst :: u8 where "opPlusUConst \<equiv> 0x23"
abbreviation (input) opShl :: u8 where "opShl \<equiv> 0x24"
abbreviation (input) opGE :: u8 where "opGE \<equiv> 0x2a"
abbreviation (input) opNE :: u8 where "opNE \<equiv> 0x2e"
abbreviation (input) opLit0 :: u8 where "opLit0 \<equiv> 0x30"
abbreviation (input) opBReg0 :: u8 where "opBReg0 \<equiv> 0x70"

record dwarfExpression =
  opcode :: u8
  operand1 :: uleb128
  operand2 :: uleb128

text \<open>One opcode with its operands; \<open>Inl\<close> is the unsupported opcode.\<close>

definition expression_op :: "reader \<Rightarrow> (eh_error + dwarfExpression) \<times> reader" where
  "expression_op r =
     (let (op, r) = rd_Uint8 r in
      if opLit0 \<le> op \<and> op \<le> opLit0 + 31 then
        (Inr \<lparr>opcode = opLit0, operand1 = ucast (op - opLit0), operand2 = 0\<rparr>, r)
      else if opBReg0 \<le> op \<and> op \<le> opBReg0 + 31 then
        (let (v, r) = sleb r in (Inr \<lparr>opcode = opBReg0, operand1 = ucast (op - opBReg0), operand2 = v\<rparr>, r))
      else if op = opConstU \<or> op = opPlusUConst then
        (let (v, r) = uleb r in (Inr \<lparr>opcode = op, operand1 = v, operand2 = 0\<rparr>, r))
      else if op = opConstS then
        (let (v, r) = sleb r in (Inr \<lparr>opcode = op, operand1 = v, operand2 = 0\<rparr>, r))
      else if op = opDeref \<or> opRot \<le> op \<and> op \<le> opNE then
        (Inr \<lparr>opcode = op, operand1 = 0, operand2 = 0\<rparr>, r)
      else (Inl (ErrExprOpcode op), r))"

text \<open>
  A reading operation moves the position over bytes at hand and changes nothing else.
\<close>

definition s_moves :: "strm \<Rightarrow> strm \<Rightarrow> bool" where
  "s_moves s s' \<longleftrightarrow> (\<exists>k. 0 \<le> k \<and> k \<le> s_avail s \<and> s' = s_advance s k)"

definition rd_moves :: "reader \<Rightarrow> reader \<Rightarrow> bool" where
  "rd_moves r r' \<longleftrightarrow> (\<exists>s. s_moves (rd r) s \<and> r' = r\<lparr>rd := s\<rparr>)"

abbreviation (input) rd_avail :: "reader \<Rightarrow> int" where "rd_avail r \<equiv> s_avail (rd r)"

lemma s_avail_nonneg: "0 \<le> s_avail s"
  by (simp add: s_avail_def)

lemma s_movesI: "0 \<le> k \<Longrightarrow> k \<le> s_avail s \<Longrightarrow> s_moves s (s_advance s k)"
  by (auto simp: s_moves_def)

lemma s_moves_refl [simp, intro]: "s_moves s s"
  unfolding s_moves_def using s_avail_nonneg by (intro exI [of _ 0]) simp

lemma s_moves_trans [trans]: "s_moves s s' \<Longrightarrow> s_moves s' s'' \<Longrightarrow> s_moves s s''"
proof -
  assume "s_moves s s'" "s_moves s' s''"
  then obtain k l where "0 \<le> k" "k \<le> s_avail s" "0 \<le> l" "l \<le> s_avail (s_advance s k)"
    "s'' = s_advance s (k + l)" by (auto simp: s_moves_def)
  then show ?thesis by (auto simp: s_advance_avail intro!: s_movesI)
qed

lemma s_moves_avail: "s_moves s s' \<Longrightarrow> s_avail s' \<le> s_avail s"
  unfolding s_moves_def by (auto simp: s_advance_avail)

lemma rd_moves_refl [simp, intro]: "rd_moves r r"
  unfolding rd_moves_def by (intro exI [of _ "rd r"]) simp

lemma rd_moves_trans [trans]: "rd_moves r r' \<Longrightarrow> rd_moves r' r'' \<Longrightarrow> rd_moves r r''"
  unfolding rd_moves_def using s_moves_trans by fastforce

lemma rd_moves_avail: "rd_moves r r' \<Longrightarrow> rd_avail r' \<le> rd_avail r"
  unfolding rd_moves_def by (auto intro: s_moves_avail)

lemma s_Uint8_moves: "s_Uint8 s = (b, s') \<Longrightarrow> s_moves s s'"
  by (cases s rule: s_Uint8_cases) (auto simp: s_moves_def intro!: exI [of _ 1])

lemma s_ReadN_moves: "s_ReadN s n = (x, s') \<Longrightarrow> s_moves s s'"
proof -
  assume h: "s_ReadN s n = (x, s')"
  have "s_moves s (s_advance s (int n))" if "n \<le> length (s_bytes s)"
  proof -
    have "length (s_bytes s) \<le> nat (s_avail s)" by (simp add: s_bytes_def)
    then show ?thesis using that s_avail_nonneg [of s] by (intro s_movesI) linarith+
  qed
  with h show ?thesis by (auto simp: s_ReadN_def split: if_splits)
qed

lemma s_Uint_moves: "s_Uint n s = (v, s') \<Longrightarrow> s_moves s s'"
  using s_ReadN_moves [of s n] by (auto simp: s_Uint_def split: prod.splits)

lemma uleb_loop_moves: "s_moves s (snd (uleb_loop s shift val))"
proof (induction s shift val rule: uleb_loop.induct)
  case (1 s shift val)
  obtain b s' where b: "s_Uint8 s = (b, s')" by fastforce
  show ?case
  proof (cases "b AND 0x80 = 0")
    case True
    then show ?thesis using s_Uint8_moves [OF b] by (subst uleb_loop.simps) (simp add: b)
  next
    case False
    with "1.IH" [OF b [symmetric] refl refl] s_Uint8_moves [OF b] show ?thesis
      by (subst uleb_loop.simps) (simp add: b, blast intro: s_moves_trans)
  qed
qed

lemma sleb_loop_moves: "s_moves s (snd (sleb_loop s shift val))"
proof (induction s shift val rule: sleb_loop.induct)
  case (1 s shift val)
  obtain b s' where b: "s_Uint8 s = (b, s')" by fastforce
  show ?case
  proof (cases "b AND 0x80 = 0")
    case True
    then show ?thesis using s_Uint8_moves [OF b] by (subst sleb_loop.simps) (simp add: b Let_def)
  next
    case False
    with "1.IH" [OF b [symmetric] refl refl refl] s_Uint8_moves [OF b] show ?thesis
      by (subst sleb_loop.simps) (simp add: b Let_def, blast intro: s_moves_trans)
  qed
qed

lemma s_Discard_moves: "s_moves s (snd (s_Discard s n))"
  using s_avail_nonneg [of s] by (auto simp: s_Discard_def Let_def intro!: s_movesI)

lemma on_rd_moves: "on_rd f r = (x, r') \<Longrightarrow> (\<And>x s'. f (rd r) = (x, s') \<Longrightarrow> s_moves (rd r) s') \<Longrightarrow> rd_moves r r'"
  by (auto simp: on_rd_def rd_moves_def split: prod.splits)

lemma rd_read_moves:
  "uleb r = (v, r') \<Longrightarrow> rd_moves r r'" "sleb r = (v, r') \<Longrightarrow> rd_moves r r'"
  "rd_Uint8 r = (b, r') \<Longrightarrow> rd_moves r r'" "rd_Uint16 r = (w, r') \<Longrightarrow> rd_moves r r'"
  "rd_Uint32 r = (d, r') \<Longrightarrow> rd_moves r r'" "rd_Uint64 r = (q, r') \<Longrightarrow> rd_moves r r'"
  unfolding uleb_def sleb_def rd_Uint8_def rd_Uint16_def rd_Uint32_def rd_Uint64_def
  by (erule on_rd_moves; metis uleb_loop_moves sleb_loop_moves s_Uint8_moves s_Uint_moves snd_conv)+

lemma rd_Discard_moves: "rd_moves r (rd_Discard r n)"
  using s_Discard_moves by (auto simp: rd_Discard_def rd_moves_def)

lemma rd_Uint8_avail:
  assumes "rd_Uint8 r = (b, r')" "b \<noteq> 0"
  shows "rd_avail r' < rd_avail r \<and> 0 < rd_avail r"
  using assms s_Uint8_avail [of "rd r"] by (auto simp: rd_Uint8_def on_rd_def split: prod.splits)

lemma expression_op_moves:
  assumes "expression_op r = (x, r')"
  shows "rd_moves r r'" "x = Inr e \<Longrightarrow> rd_avail r' < rd_avail r \<and> 0 < rd_avail r"
proof -
  obtain b r1 where b: "rd_Uint8 r = (b, r1)" by fastforce
  have m: "rd_moves r1 r'" "x = Inr e \<Longrightarrow> b \<noteq> 0"
    using assms b rd_read_moves(1,2) [of r1]
    by (auto simp: expression_op_def Let_def split: if_splits prod.splits)
  show "rd_moves r r'" using rd_read_moves(3) [OF b] m(1) by (rule rd_moves_trans)
  show "x = Inr e \<Longrightarrow> rd_avail r' < rd_avail r \<and> 0 < rd_avail r"
    using rd_Uint8_avail [OF b] m rd_moves_avail [OF m(1)] by auto
qed

function expression_loop :: "reader \<Rightarrow> dwarfExpression list \<Rightarrow> (eh_error + dwarfExpression list) \<times> reader" where
  "expression_loop r expr =
     (if rd_Remaining r > 0
      then case expression_op r of
             (Inl e, r') \<Rightarrow> (Inl e, r')
           | (Inr e, r') \<Rightarrow> expression_loop r' (expr @ [e])
      else (Inr expr, r))"
  by pat_completeness auto
termination
  by (relation "measure (\<lambda>(r, expr). nat (rd_avail r))") (auto dest!: expression_op_moves(2) [OF sym])

declare expression_loop.simps [simp del]

definition expression :: "reader \<Rightarrow> ((eh_error + dwarfExpression list) \<times> reader) run" where
  "expression r =
     (let (n, r) = uleb r; (err, r) = rd_StartSection r (sint n) in
      case err of
        Some e \<Rightarrow> Ret (Inl (ErrIO e), r)
      | None \<Rightarrow>
          (let (res, r) = expression_loop r [] in
           run_bind (rd_EndSection r) (\<lambda>r. Ret (res, r))))"

subsection \<open>Encoded pointers\<close>

abbreviation (input) encFormatNative :: encoding where "encFormatNative \<equiv> 0x00"
abbreviation (input) encFormatData2 :: encoding where "encFormatData2 \<equiv> 0x02"
abbreviation (input) encFormatData4 :: encoding where "encFormatData4 \<equiv> 0x03"
abbreviation (input) encFormatData8 :: encoding where "encFormatData8 \<equiv> 0x04"
abbreviation (input) encFormatMask :: encoding where "encFormatMask \<equiv> 0x07"
abbreviation (input) encSignedMask :: encoding where "encSignedMask \<equiv> 0x08"
abbreviation (input) encAdjustAbs :: encoding where "encAdjustAbs \<equiv> 0x00"
abbreviation (input) encAdjustPcRel :: encoding where "encAdjustPcRel \<equiv> 0x10"
abbreviation (input) encAdjustDataRel :: encoding where "encAdjustDataRel \<equiv> 0x30"
abbreviation (input) encAdjustMask :: encoding where "encAdjustMask \<equiv> 0x70"
abbreviation (input) encIndirect :: encoding where "encIndirect \<equiv> 0x80"
abbreviation (input) encOmit :: encoding where "encOmit \<equiv> 0xff"

text \<open>The value and its size, as \<open>uint64\<close>; \<open>None\<close> for an unsupported format.\<close>

definition ptr_value :: "encoding \<Rightarrow> reader \<Rightarrow> (u64 \<times> u64) option \<times> reader" where
  "ptr_value enc r =
     (let fmt = enc AND (encFormatMask OR encSignedMask) in
      if fmt = encFormatData2 then (let (v, r) = rd_Uint16 r in (Some (ucast v, 2), r))
      else if fmt = encFormatData4 then (let (v, r) = rd_Uint32 r in (Some (ucast v, 4), r))
      else if fmt = encFormatData8 \<or> fmt = encFormatNative \<or> fmt = encFormatData8 OR encSignedMask
      then (let (v, r) = rd_Uint64 r in (Some (v, 8), r))
      else if fmt = encFormatData2 OR encSignedMask then (let (v, r) = rd_Uint16 r in (Some (scast v, 2), r))
      else if fmt = encFormatData4 OR encSignedMask then (let (v, r) = rd_Uint32 r in (Some (scast v, 4), r))
      else (None, r))"

definition ptr :: "reader \<Rightarrow> encoding \<Rightarrow> (u64 \<times> eh_error option) \<times> reader" where
  "ptr r enc =
     (if enc = encOmit then ((0, None), r)
      else case ptr_value enc r of
        (None, r) \<Rightarrow> ((0, Some (ErrFormat enc)), r)
      | (Some (val, sz), r) \<Rightarrow>
          let adj = enc AND encAdjustMask in
          if adj \<noteq> encAdjustAbs \<and> adj \<noteq> encAdjustPcRel \<and> adj \<noteq> encAdjustDataRel
          then ((0, Some (ErrAdjust enc)), r)
          else let val = (if adj = encAdjustPcRel then val + (word_of_int (rd_Tell r) - sz + rd_vaddr r)
                          else if adj = encAdjustDataRel then val + rd_vaddr r else val)
               in if enc AND encIndirect \<noteq> 0 then ((0, Some (ErrIndirect enc)), r)
                  else ((val, None), r))"

section \<open>Register rules\<close>

abbreviation (input) regUndefined :: uleb128 where "regUndefined \<equiv> 128"
abbreviation (input) regCFA :: uleb128 where "regCFA \<equiv> 129"
abbreviation (input) regCFAVal :: uleb128 where "regCFAVal \<equiv> 130"
abbreviation (input) regSame :: uleb128 where "regSame \<equiv> 131"
abbreviation (input) regExprPLT :: uleb128 where "regExprPLT \<equiv> 256"
abbreviation (input) regExprRegDeref :: uleb128 where "regExprRegDeref \<equiv> 257"
abbreviation (input) regExprRegRegDeref :: uleb128 where "regExprRegRegDeref \<equiv> 258"
abbreviation (input) regExprReg :: uleb128 where "regExprReg \<equiv> 259"

record vmReg =
  vr_arch :: u16
  vr_reg :: uleb128
  vr_off :: sleb128

text \<open>Four 16-bit integers in the offset of a rule.\<close>

definition makeOff :: "u16 \<Rightarrow> u16 \<Rightarrow> u16 \<Rightarrow> u16 \<Rightarrow> sleb128" where
  "makeOff a b c d = push_bit 48 (ucast a) + push_bit 32 (ucast b) + push_bit 16 (ucast c) + ucast d"

definition splitOff :: "sleb128 \<Rightarrow> u16 \<times> u16 \<times> u16 \<times> u16" where
  "splitOff off =
     (ucast (signed_drop_bit 48 off), ucast (signed_drop_bit 32 off), ucast (signed_drop_bit 16 off), ucast off)"

fun matchExpression :: "dwarfExpression list \<Rightarrow> u8 list \<Rightarrow> bool" where
  "matchExpression [] [] \<longleftrightarrow> True"
| "matchExpression (e # es) (t # ts) \<longleftrightarrow> opcode e = t \<and> matchExpression es ts"
| "matchExpression _ _ \<longleftrightarrow> False"

text \<open>\<open>vmReg.expression\<close>: the rule for a recognised expression; an unknown one leaves the rule undefined.\<close>

definition vmReg_expression :: "vmReg \<Rightarrow> dwarfExpression list \<Rightarrow> eh_error option \<times> vmReg" where
  "vmReg_expression reg expr =
     (let reg = reg\<lparr>vr_reg := regUndefined, vr_off := 0\<rparr>;
          op1 = (\<lambda>i. ucast (operand1 (expr ! i)) :: u16); op2 = (\<lambda>i. ucast (operand2 (expr ! i)) :: u16) in
      if matchExpression expr [opBReg0, opBReg0, opLit0, opAnd, opLit0, opGE, opLit0, opShl, opPlus]
      then (None, reg\<lparr>vr_reg := regExprPLT\<rparr>)
      else if matchExpression expr [opBReg0]
      then (None, reg\<lparr>vr_reg := regExprReg, vr_off := makeOff (op1 0) 0 (op2 0) 0\<rparr>)
      else if matchExpression expr [opBReg0, opDeref]
      then (None, reg\<lparr>vr_reg := regExprRegDeref, vr_off := makeOff (op1 0) 0 (op2 0) 0\<rparr>)
      else if matchExpression expr [opBReg0, opDeref, opPlusUConst]
      then (None, reg\<lparr>vr_reg := regExprRegDeref, vr_off := makeOff (op1 0) 0 (op2 0) (op1 2)\<rparr>)
      else if matchExpression expr [opBReg0, opBReg0, opLit0, opMul, opPlus, opDeref, opPlusUConst] \<and>
              operand2 (expr ! 1) = 0 \<and> operand1 (expr ! 2) = 8
      then (None, reg\<lparr>vr_reg := regExprRegRegDeref, vr_off := makeOff (op1 0) (op1 1) (op2 0) (op1 6)\<rparr>)
      else (Some ErrExprUnmatched, reg))"

record vmRegs =
  vm_arch :: u16
  vm_cfa :: vmReg
  vm_fp :: vmReg
  vm_ra :: vmReg

text \<open>\<open>reg(ndx)\<close> gives the address of a tracked register: the frame pointer, the return address, or none.\<close>

datatype regslot = SlotFP | SlotRA

primrec get_slot :: "regslot \<Rightarrow> vmRegs \<Rightarrow> vmReg" where
  "get_slot SlotFP = vm_fp"
| "get_slot SlotRA = vm_ra"

primrec set_slot :: "regslot \<Rightarrow> vmReg \<Rightarrow> vmRegs \<Rightarrow> vmRegs" where
  "set_slot SlotFP x regs = regs\<lparr>vm_fp := x\<rparr>"
| "set_slot SlotRA x regs = regs\<lparr>vm_ra := x\<rparr>"

abbreviation (input) x86RegRAX :: uleb128 where "x86RegRAX \<equiv> 0"
abbreviation (input) x86RegRDI :: uleb128 where "x86RegRDI \<equiv> 5"
abbreviation (input) x86RegRBP :: uleb128 where "x86RegRBP \<equiv> 6"
abbreviation (input) x86RegRSP :: uleb128 where "x86RegRSP \<equiv> 7"
abbreviation (input) x86RegR8 :: uleb128 where "x86RegR8 \<equiv> 8"
abbreviation (input) x86RegR9 :: uleb128 where "x86RegR9 \<equiv> 9"
abbreviation (input) x86RegR11 :: uleb128 where "x86RegR11 \<equiv> 11"
abbreviation (input) x86RegR13 :: uleb128 where "x86RegR13 \<equiv> 13"
abbreviation (input) x86RegR15 :: uleb128 where "x86RegR15 \<equiv> 15"
abbreviation (input) x86RegRIP :: uleb128 where "x86RegRIP \<equiv> 16"

definition regX86 :: "uleb128 \<Rightarrow> regslot option" where
  "regX86 ndx = (if ndx = x86RegRBP then Some SlotFP else if ndx = x86RegRIP then Some SlotRA else None)"

abbreviation (input) armRegFP :: uleb128 where "armRegFP \<equiv> 29"
abbreviation (input) armRegLR :: uleb128 where "armRegLR \<equiv> 30"
abbreviation (input) armRegSP :: uleb128 where "armRegSP \<equiv> 31"

definition regARM :: "uleb128 \<Rightarrow> regslot option" where
  "regARM ndx = (if ndx = armRegFP then Some SlotFP else if ndx = armRegLR then Some SlotRA else None)"

definition vmRegs_reg :: "vmRegs \<Rightarrow> uleb128 \<Rightarrow> regslot option" where
  "vmRegs_reg regs ndx =
     (if vm_arch regs = EM_AARCH64 then regARM ndx
      else if vm_arch regs = EM_X86_64 then regX86 ndx else None)"

definition newVMRegsX86 :: vmRegs where
  "newVMRegsX86 =
     (let undef = \<lparr>vr_arch = EM_X86_64, vr_reg = regUndefined, vr_off = 0\<rparr>
      in \<lparr>vm_arch = EM_X86_64, vm_cfa = undef, vm_fp = undef, vm_ra = undef\<rparr>)"

definition newVMRegsARM :: vmRegs where
  "newVMRegsARM =
     \<lparr>vm_arch = EM_AARCH64, vm_cfa = \<lparr>vr_arch = EM_AARCH64, vr_reg = regUndefined, vr_off = 0\<rparr>,
      vm_fp = \<lparr>vr_arch = EM_AARCH64, vr_reg = regSame, vr_off = 0\<rparr>,
      vm_ra = \<lparr>vr_arch = EM_AARCH64, vr_reg = regSame, vr_off = 0\<rparr>\<rparr>"

definition newVMRegs :: "u16 \<Rightarrow> vmRegs run" where
  "newVMRegs arch =
     (if arch = EM_AARCH64 then Ret newVMRegsARM
      else if arch = EM_X86_64 then Ret newVMRegsX86 else Panic)"

section \<open>The machine\<close>

record cieInfo =
  dataAlign :: sleb128
  codeAlign :: uleb128
  regRA :: uleb128
  cie_enc :: encoding
  ldsaEnc :: encoding
  hasAugmentation :: bool
  isSignalHandler :: bool
  initialState :: vmRegs

record vm_state =
  st_cie :: cieInfo
  st_loc :: u64
  st_cur :: vmRegs
  st_stack :: "vmRegs list"
  st_stackNdx :: nat

text \<open>The zero value of the stack's two entries.\<close>

definition zero_vmRegs :: vmRegs where
  "zero_vmRegs =
     (let z = \<lparr>vr_arch = 0, vr_reg = 0, vr_off = 0\<rparr> in \<lparr>vm_arch = 0, vm_cfa = z, vm_fp = z, vm_ra = z\<rparr>)"

definition new_state :: "cieInfo \<Rightarrow> vmRegs \<Rightarrow> vm_state" where
  "new_state cie cur = \<lparr>st_cie = cie, st_loc = 0, st_cur = cur, st_stack = [zero_vmRegs, zero_vmRegs], st_stackNdx = 0\<rparr>"

definition advance :: "vm_state \<Rightarrow> u64 \<Rightarrow> vm_state" where
  "advance st delta = st\<lparr>st_loc := st_loc st + delta * codeAlign (st_cie st)\<rparr>"

definition rule_op :: "vm_state \<Rightarrow> uleb128 \<Rightarrow> uleb128 \<Rightarrow> sleb128 \<Rightarrow> vm_state" where
  "rule_op st reg baseReg off =
     (case vmRegs_reg (st_cur st) reg of
        None \<Rightarrow> st
      | Some sl \<Rightarrow> st\<lparr>st_cur := set_slot sl ((get_slot sl (st_cur st))\<lparr>vr_reg := baseReg,
                         vr_off := off * dataAlign (st_cie st)\<rparr>) (st_cur st)\<rparr>)"

text \<open>\<open>restore\<close> dereferences the register of the initial state, which is nil for another architecture.\<close>

definition restore_op :: "vm_state \<Rightarrow> uleb128 \<Rightarrow> vm_state run" where
  "restore_op st reg =
     (case vmRegs_reg (st_cur st) reg of
        None \<Rightarrow> Ret st
      | Some sl \<Rightarrow>
          (case vmRegs_reg (initialState (st_cie st)) reg of
             None \<Rightarrow> Panic
           | Some sl' \<Rightarrow> Ret (st\<lparr>st_cur := set_slot sl (get_slot sl' (initialState (st_cie st))) (st_cur st)\<rparr>)))"

abbreviation (input) cfaNop :: u8 where "cfaNop \<equiv> 0x00"
abbreviation (input) cfaSetLoc :: u8 where "cfaSetLoc \<equiv> 0x01"
abbreviation (input) cfaAdvanceLoc1 :: u8 where "cfaAdvanceLoc1 \<equiv> 0x02"
abbreviation (input) cfaAdvanceLoc2 :: u8 where "cfaAdvanceLoc2 \<equiv> 0x03"
abbreviation (input) cfaAdvanceLoc4 :: u8 where "cfaAdvanceLoc4 \<equiv> 0x04"
abbreviation (input) cfaOffsetExtended :: u8 where "cfaOffsetExtended \<equiv> 0x05"
abbreviation (input) cfaRestoreExtended :: u8 where "cfaRestoreExtended \<equiv> 0x06"
abbreviation (input) cfaUndefined :: u8 where "cfaUndefined \<equiv> 0x07"
abbreviation (input) cfaSameValue :: u8 where "cfaSameValue \<equiv> 0x08"
abbreviation (input) cfaRegister :: u8 where "cfaRegister \<equiv> 0x09"
abbreviation (input) cfaRememberState :: u8 where "cfaRememberState \<equiv> 0x0a"
abbreviation (input) cfaRestoreState :: u8 where "cfaRestoreState \<equiv> 0x0b"
abbreviation (input) cfaDefCfa :: u8 where "cfaDefCfa \<equiv> 0x0c"
abbreviation (input) cfaDefCfaRegister :: u8 where "cfaDefCfaRegister \<equiv> 0x0d"
abbreviation (input) cfaDefCfaOffset :: u8 where "cfaDefCfaOffset \<equiv> 0x0e"
abbreviation (input) cfaDefCfaExpression :: u8 where "cfaDefCfaExpression \<equiv> 0x0f"
abbreviation (input) cfaExpression :: u8 where "cfaExpression \<equiv> 0x10"
abbreviation (input) cfaOffsetExtendedSf :: u8 where "cfaOffsetExtendedSf \<equiv> 0x11"
abbreviation (input) cfaDefCfaSf :: u8 where "cfaDefCfaSf \<equiv> 0x12"
abbreviation (input) cfaDefCfaOffsetSf :: u8 where "cfaDefCfaOffsetSf \<equiv> 0x13"
abbreviation (input) cfaValOffset :: u8 where "cfaValOffset \<equiv> 0x14"
abbreviation (input) cfaValOffsetSf :: u8 where "cfaValOffsetSf \<equiv> 0x15"
abbreviation (input) cfaValExpression :: u8 where "cfaValExpression \<equiv> 0x16"
abbreviation (input) cfaGNUWindowSave :: u8 where "cfaGNUWindowSave \<equiv> 0x2d"
abbreviation (input) cfaGNUArgsSize :: u8 where "cfaGNUArgsSize \<equiv> 0x2e"
abbreviation (input) cfaGNUNegOffsetExtended :: u8 where "cfaGNUNegOffsetExtended \<equiv> 0x2f"
abbreviation (input) cfaAdvanceLoc :: u8 where "cfaAdvanceLoc \<equiv> 0x40"
abbreviation (input) cfaOffset :: u8 where "cfaOffset \<equiv> 0x80"
abbreviation (input) cfaRestore :: u8 where "cfaRestore \<equiv> 0xc0"
abbreviation (input) cfaHighOpcodeMask :: u8 where "cfaHighOpcodeMask \<equiv> 0xc0"
abbreviation (input) cfaHighOpcodeValueMask :: u8 where "cfaHighOpcodeValueMask \<equiv> 0x3f"

text \<open>An opcode either lets the loop go on (\<open>Next\<close>) or makes \<open>step\<close> return (\<open>Done\<close>, with its error).\<close>

datatype step_out = Next | Done "eh_error option"

abbreviation (input) next_op :: "vm_state \<Rightarrow> reader \<Rightarrow> (step_out \<times> vm_state \<times> reader) run" where
  "next_op st r \<equiv> Ret (Next, st, r)"

definition set_cfa :: "(vmReg \<Rightarrow> vmReg) \<Rightarrow> vm_state \<Rightarrow> vm_state" where
  "set_cfa f st = st\<lparr>st_cur := (st_cur st)\<lparr>vm_cfa := f (vm_cfa (st_cur st))\<rparr>\<rparr>"

text \<open>The opcodes that assign a rule to a register or set the CFA.\<close>

definition step_rule :: "u8 \<Rightarrow> u8 \<Rightarrow> vm_state \<Rightarrow> reader \<Rightarrow> (vm_state \<times> reader) option" where
  "step_rule opc operand st r =
     (let align = dataAlign (st_cie st) in
      if opc = cfaOffsetExtended then
        (let (reg, r) = uleb r; (off, r) = uleb r in Some (rule_op st reg regCFA off, r))
      else if opc = cfaUndefined then (let (reg, r) = uleb r in Some (rule_op st reg regUndefined 0, r))
      else if opc = cfaSameValue then (let (reg, r) = uleb r in Some (rule_op st reg regSame 0, r))
      else if opc = cfaRegister then
        (let (reg, r) = uleb r; (base, r) = uleb r in Some (rule_op st reg base 0, r))
      else if opc = cfaDefCfa then
        (let (reg, r) = uleb r; (off, r) = uleb r in
         Some (set_cfa (\<lambda>c. c\<lparr>vr_reg := reg, vr_off := off\<rparr>) st, r))
      else if opc = cfaDefCfaRegister then
        (let (reg, r) = uleb r in Some (set_cfa (\<lambda>c. c\<lparr>vr_reg := reg\<rparr>) st, r))
      else if opc = cfaDefCfaOffset then
        (let (off, r) = uleb r in Some (set_cfa (\<lambda>c. c\<lparr>vr_off := off\<rparr>) st, r))
      else if opc = cfaOffsetExtendedSf then
        (let (reg, r) = uleb r; (off, r) = sleb r in Some (rule_op st reg regCFA off, r))
      else if opc = cfaDefCfaSf then
        (let (reg, r) = uleb r; (off, r) = sleb r in
         Some (set_cfa (\<lambda>c. c\<lparr>vr_reg := reg, vr_off := off * align\<rparr>) st, r))
      else if opc = cfaDefCfaOffsetSf then
        (let (off, r) = sleb r in Some (set_cfa (\<lambda>c. c\<lparr>vr_off := off * align\<rparr>) st, r))
      else if opc = cfaValOffset then
        (let (reg, r) = uleb r; (off, r) = uleb r in Some (rule_op st reg regCFAVal off, r))
      else if opc = cfaValOffsetSf then
        (let (reg, r) = uleb r; (off, r) = sleb r in Some (rule_op st reg regCFAVal off, r))
      else if opc = cfaValExpression then
        (let (reg, r) = uleb r; (n, r) = uleb r in Some (rule_op st reg regUndefined 0, rd_Discard r (sint n)))
      else if opc = cfaGNUArgsSize then (let (_, r) = uleb r in Some (st, r))
      else if opc = cfaGNUNegOffsetExtended then
        (let (reg, r) = uleb r; (off, r) = sleb r in Some (rule_op st reg regCFA (- off), r))
      else if opc = cfaOffset then
        (let (off, r) = uleb r in Some (rule_op st (ucast operand) regCFA off, r))
      else if opc = cfaNop \<or> opc = cfaGNUWindowSave then Some (st, r)
      else None)"

text \<open>The opcodes that move the location; they end the step.\<close>

definition step_loc :: "u8 \<Rightarrow> u8 \<Rightarrow> vm_state \<Rightarrow> reader \<Rightarrow> (eh_error option \<times> vm_state \<times> reader) option" where
  "step_loc opc operand st r =
     (if opc = cfaSetLoc then
        (let ((loc, err), r) = ptr r (cie_enc (st_cie st)) in Some (err, st\<lparr>st_loc := loc\<rparr>, r))
      else if opc = cfaAdvanceLoc1 then (let (d, r) = rd_Uint8 r in Some (None, advance st (ucast d), r))
      else if opc = cfaAdvanceLoc2 then (let (d, r) = rd_Uint16 r in Some (None, advance st (ucast d), r))
      else if opc = cfaAdvanceLoc4 then (let (d, r) = rd_Uint32 r in Some (None, advance st (ucast d), r))
      else if opc = cfaAdvanceLoc then Some (None, advance st (ucast operand), r)
      else None)"

text \<open>The opcodes on whole register states and expressions, which may fail.\<close>

definition step_state :: "u8 \<Rightarrow> u8 \<Rightarrow> vm_state \<Rightarrow> reader \<Rightarrow> (step_out \<times> vm_state \<times> reader) run" where
  "step_state opc operand st r =
     (if opc = cfaRestoreExtended then
        (let (reg, r) = uleb r in run_bind (restore_op st reg) (\<lambda>st. next_op st r))
      else if opc = cfaRememberState then
        (if st_stackNdx st \<ge> length (st_stack st) then Ret (Done (Some (ErrStackOverflow (st_loc st))), st, r)
         else next_op (st\<lparr>st_stack := (st_stack st)[st_stackNdx st := st_cur st],
                          st_stackNdx := st_stackNdx st + 1\<rparr>) r)
      else if opc = cfaRestoreState then
        (if st_stackNdx st = 0 then Ret (Done (Some (ErrStackUnderflow (st_loc st))), st, r)
         else if st_stackNdx st - 1 \<ge> length (st_stack st) then Panic
         else next_op (st\<lparr>st_stackNdx := st_stackNdx st - 1,
                          st_cur := st_stack st ! (st_stackNdx st - 1)\<rparr>) r)
      else if opc = cfaDefCfaExpression then
        run_bind (expression r) (\<lambda>(res, r).
          next_op (case res of Inl _ \<Rightarrow> st
                   | Inr expr \<Rightarrow> set_cfa (\<lambda>c. snd (vmReg_expression c expr)) st) r)
      else if opc = cfaExpression then
        (let (reg, r) = uleb r in
         run_bind (expression r) (\<lambda>(res, r).
           next_op (case (res, vmRegs_reg (st_cur st) reg) of
                      (Inr expr, Some sl) \<Rightarrow>
                        st\<lparr>st_cur := set_slot sl (snd (vmReg_expression (get_slot sl (st_cur st)) expr)) (st_cur st)\<rparr>
                    | _ \<Rightarrow> st) r))
      else if opc = cfaRestore then
        run_bind (restore_op st (ucast operand)) (\<lambda>st. next_op st r)
      else Ret (Done (Some (ErrOpcode opc)), st, r))"

text \<open>The body of the loop: split the opcode byte, then dispatch.\<close>

definition step_body :: "vm_state \<Rightarrow> reader \<Rightarrow> (step_out \<times> vm_state \<times> reader) run" where
  "step_body st r =
     (let (b, r) = rd_Uint8 r;
          high = (b AND cfaHighOpcodeMask \<noteq> 0);
          operand = (if high then b AND cfaHighOpcodeValueMask else 0);
          opc = (if high then b AND cfaHighOpcodeMask else b)
      in case step_loc opc operand st r of
           Some (err, st, r) \<Rightarrow> Ret (Done err, st, r)
         | None \<Rightarrow>
             (case step_rule opc operand st r of
                Some (st, r) \<Rightarrow> next_op st r
              | None \<Rightarrow> step_state opc operand st r))"

text \<open>
  The loop of \<open>step\<close>, with fuel: on a section that extends past the end of the file it does not end.
\<close>

fun step :: "nat \<Rightarrow> vm_state \<Rightarrow> reader \<Rightarrow> (eh_error option \<times> vm_state \<times> reader) run" where
  "step 0 st r = Loop"
| "step (Suc fuel) st r =
     (if rd_Remaining r > 0
      then run_bind (step_body st r) (\<lambda>(out, st, r).
             case out of Next \<Rightarrow> step fuel st r | Done err \<Rightarrow> Ret (err, st, r))
      else Ret (None, st, r))"

section \<open>Unwind information of a register state\<close>

definition getUnwinderRegX86 :: "uleb128 \<Rightarrow> u8" where
  "getUnwinderRegX86 reg =
     (if reg = x86RegRAX then UnwindRegX86RAX
      else if reg = x86RegRDI then UnwindRegX86RDI
      else if reg = x86RegRBP then UnwindRegFp
      else if reg = x86RegRSP then UnwindRegSp
      else if reg = x86RegR8 then UnwindRegX86R8
      else if reg = x86RegR9 then UnwindRegX86R9
      else if reg = x86RegR11 then UnwindRegX86R11
      else if reg = x86RegR13 then UnwindRegX86R13
      else if reg = x86RegR15 then UnwindRegX86R15
      else if reg = x86RegRIP then UnwindRegPc
      else if reg = regCFA then UnwindRegCfa
      else UnwindRegInvalid)"

text \<open>The frame pointer's part: \<open>AuxBaseReg\<close> and \<open>AuxParam\<close>.\<close>

definition x86_fp_info :: "vmRegs \<Rightarrow> UnwindInfo \<Rightarrow> UnwindInfo" where
  "x86_fp_info regs info =
     (let cfa = vm_cfa regs; fp = vm_fp regs in
      if vr_reg fp = regCFA then
        (if vr_reg cfa \<noteq> x86RegRSP \<or> sint (vr_off fp) < 0 \<and> sint (vr_off fp) \<ge> sint (- vr_off cfa)
         then info\<lparr>AuxBaseReg := UnwindRegCfa, AuxParam := ucast (vr_off fp)\<rparr> else info)
      else if vr_reg fp = regExprReg then
        (case splitOff (vr_off fp) of (r, _, offrbp, _) \<Rightarrow>
           if scast r = x86RegRBP then info\<lparr>AuxBaseReg := UnwindRegFp, AuxParam := scast offrbp\<rparr> else info)
      else info)"

text \<open>The stack pointer's part: \<open>BaseReg\<close>, \<open>Param\<close> and the flags that go with them.\<close>

definition x86_cfa_info :: "vmRegs \<Rightarrow> UnwindInfo \<Rightarrow> UnwindInfo" where
  "x86_cfa_info regs info =
     (let cfa = vm_cfa regs in
      if vr_reg cfa = x86RegRBP \<or> vr_reg cfa = x86RegRSP then
        info\<lparr>BaseReg := getUnwinderRegX86 (vr_reg cfa), Param := ucast (vr_off cfa)\<rparr>
      else if vr_reg cfa = x86RegRAX \<or> vr_reg cfa = x86RegR9 \<or> vr_reg cfa = x86RegR11 \<or> vr_reg cfa = x86RegR15 then
        info\<lparr>Flags := Flags info OR UnwindFlagLeafOnly, BaseReg := getUnwinderRegX86 (vr_reg cfa),
             Param := ucast (vr_off cfa)\<rparr>
      else if vr_reg cfa = regExprPLT then
        info\<lparr>Flags := Flags info OR UnwindFlagCommand, Param := UnwindCommandPLT\<rparr>
      else if vr_reg cfa = regExprRegDeref then
        (case splitOff (vr_off cfa) of (reg, _, off, off2) \<Rightarrow>
           case PackDerefParam (scast off) (scast off2) of (param, ok) \<Rightarrow>
             if ok \<and> (scast reg = x86RegRBP \<or> scast reg = x86RegRSP)
             then info\<lparr>Flags := Flags info OR UnwindFlagDerefCfa, BaseReg := getUnwinderRegX86 (scast reg),
                       Param := param\<rparr>
             else info)
      else info)"

definition getUnwindInfoX86 :: "vmRegs \<Rightarrow> UnwindInfo" where
  "getUnwindInfoX86 regs =
     (let cfa = vm_cfa regs; ra = vm_ra regs; raReg = getUnwinderRegX86 (vr_reg ra);
          raInReg = (raReg \<noteq> UnwindRegInvalid \<and> raReg \<noteq> UnwindRegCfa) in
      if vr_reg cfa = regUndefined \<or> vr_reg ra = regUndefined then UnwindInfoStop
      else if vr_reg ra = regCFA \<and> vr_reg cfa = x86RegRSP \<and> sint (vr_off cfa + vr_off ra) < 0
      then (if sint (vr_off cfa) < 0 then UnwindInfoInvalid else UnwindInfoStop)
      else if \<not> raInReg \<and> \<not> (vr_reg ra = regCFA \<and> vr_off ra = - 8) then UnwindInfoInvalid
      else
        let info = (if raInReg \<and> raReg \<noteq> UnwindRegFp \<and> raReg \<noteq> UnwindRegSp
                    then zero_UnwindInfo\<lparr>Flags := UnwindFlagLeafOnly\<rparr> else zero_UnwindInfo);
            info = x86_cfa_info regs (x86_fp_info regs info)
        in if Flags info AND UnwindFlagCommand = 0 \<and> BaseReg info = UnwindRegInvalid then UnwindInfoInvalid
           else if raInReg then info\<lparr>BaseReg := BaseReg info OR push_bit 4 raReg\<rparr> else info)"

definition getUnwindInfoARM :: "vmRegs \<Rightarrow> UnwindInfo" where
  "getUnwindInfoARM regs =
     (let cfa = vm_cfa regs; fp = vm_fp regs; ra = vm_ra regs in
      if vr_reg cfa = regUndefined then UnwindInfoStop
      else if vr_reg ra = regUndefined then UnwindInfoStop
      else
        let info = zero_UnwindInfo;
            info = (if vr_reg cfa = armRegFP then info\<lparr>BaseReg := UnwindRegFp, Param := ucast (vr_off cfa)\<rparr>
                    else if vr_reg cfa = armRegSP then info\<lparr>BaseReg := UnwindRegSp, Param := ucast (vr_off cfa)\<rparr>
                    else info);
            info = (if vr_reg ra = regSame then info\<lparr>AuxBaseReg := UnwindRegLr, AuxParam := 0\<rparr>
                    else if vr_reg ra = regCFA then info\<lparr>AuxBaseReg := UnwindRegCfa, AuxParam := ucast (vr_off ra)\<rparr>
                    else info)
        in if vr_reg ra \<noteq> regSame \<and> vr_reg fp = vr_reg ra \<and> vr_off fp + 8 = vr_off ra
           then info\<lparr>Flags := Flags info OR UnwindFlagFrame\<rparr> else info)"

definition getUnwindInfo :: "vmRegs \<Rightarrow> bool \<Rightarrow> UnwindInfo run" where
  "getUnwindInfo regs allowGenericRegisters =
     run_bind (if vm_arch regs = EM_AARCH64 then Ret (getUnwindInfoARM regs)
               else if vm_arch regs = EM_X86_64 then Ret (getUnwindInfoX86 regs) else Panic)
       (\<lambda>info. Ret (if \<not> allowGenericRegisters \<and> Flags info AND UnwindFlagLeafOnly \<noteq> 0
                     then UnwindInfoInvalid else info))"

end
