(* ===== verification/Pfelf.thy ===== *)
theory Pfelf
  imports Pfbufio
begin

text \<open>
  ELF files: \<open>src/libpf/pfelf/file.go\<close> and the slices of the memory map in
  \<open>src/libpf/pfelf/internal/mmap/mmap.go\<close>.  Modelled are opening a file (headers, segments, the dynamic
  table), the section headers, access to segments, sections and virtual memory, and the symbol lookup
  through the two hash tables.

  The underlying reader is a file's bytes; \<open>MmapReader\<close> marks the memory map, whose slices the code
  hands out without a copy.
\<close>

section \<open>Sources\<close>

datatype elf_error = ErrRead io_error | ErrNotELF | ErrUnsupportedELF | ErrNoProgs | ErrInsideCore
  | ErrShstrndx u16 u16 | ErrSectionName nat | ErrCompressed | ErrTooLarge u64 | ErrNoSegment u64
  | ErrSymbolNotFound | ErrGnuHashCorrupt | ErrSysvHashCorrupt | ErrNoSymbolHash

datatype elfsource = MmapReader "u8 list option" | FileReader "u8 list"

text \<open>\<open>os.File.ReadAt\<close>: short reads end with \<open>EOF\<close>, an empty read never fails.\<close>

definition os_ReadAt :: "u8 list \<Rightarrow> nat \<Rightarrow> int \<Rightarrow> u8 list \<times> io_error option" where
  "os_ReadAt data len off =
     (if off < 0 then ([], Some ErrInvalidOffset)
      else let got = take len (drop (nat off) data) in (got, if length got < len then Some EOF else None))"

fun source_ReadAt :: "elfsource \<Rightarrow> nat \<Rightarrow> int \<Rightarrow> u8 list \<times> io_error option" where
  "source_ReadAt (MmapReader d) len off = ReadAt d len off"
| "source_ReadAt (FileReader d) len off = os_ReadAt d len off"

text \<open>
  \<open>Subslice\<close>: the bound is checked on the wrapped sum; then the first byte is indexed, and
  \<open>unsafe.Slice\<close> refuses a negative length.  A slice that reaches past the mapping, which only a wrapped sum
  lets through, is a memory fault as soon as it is used; it is the panic here.
\<close>

definition Subslice :: "u8 list option \<Rightarrow> int \<Rightarrow> int \<Rightarrow> (elf_error + u8 list) run" where
  "Subslice r offset len =
     (let data = content r in
      if int64 (offset + len) > int (length data) then Ret (Inl (ErrRead EOF))
      else if offset < 0 \<or> int (length data) \<le> offset then Panic
      else if len < 0 \<or> offset + len > int (length data) then Panic
      else Ret (Inr (take (nat len) (drop (nat offset) data))))"

section \<open>Headers\<close>

abbreviation (input) PT_LOAD :: u32 where "PT_LOAD \<equiv> 1"
abbreviation (input) PT_DYNAMIC :: u32 where "PT_DYNAMIC \<equiv> 2"
abbreviation (input) PT_INTERP :: u32 where "PT_INTERP \<equiv> 3"
abbreviation (input) PT_NOTE :: u32 where "PT_NOTE \<equiv> 4"
abbreviation (input) PT_GNU_EH_FRAME :: u32 where "PT_GNU_EH_FRAME \<equiv> 0x6474e550"
abbreviation (input) PF_X :: u32 where "PF_X \<equiv> 1"
abbreviation (input) PF_W :: u32 where "PF_W \<equiv> 2"
abbreviation (input) PF_R :: u32 where "PF_R \<equiv> 4"
abbreviation (input) SHT_NOBITS :: u32 where "SHT_NOBITS \<equiv> 8"
abbreviation (input) SHF_COMPRESSED :: u64 where "SHF_COMPRESSED \<equiv> 0x800"
abbreviation (input) ET_EXEC :: u16 where "ET_EXEC \<equiv> 2"
abbreviation (input) maxBytesLargeSection :: u64 where "maxBytesLargeSection \<equiv> 16777216"
abbreviation (input) maxBytesSmallSection :: int where "maxBytesSmallSection \<equiv> 4096"

text \<open>A little-endian field of a structure read from the file.\<close>

definition fld :: "nat \<Rightarrow> nat \<Rightarrow> u8 list \<Rightarrow> 'a::len word" where
  "fld off len bs = LittleEndian (take len (drop off bs))"

record Header64 =
  e_type :: u16
  e_machine :: u16
  e_entry :: u64
  e_phoff :: u64
  e_shoff :: u64
  e_phnum :: u16
  e_shnum :: u16
  e_shstrndx :: u16

definition parse_Header64 :: "u8 list \<Rightarrow> Header64" where
  "parse_Header64 bs = \<lparr>e_type = fld 16 2 bs, e_machine = fld 18 2 bs, e_entry = fld 24 8 bs,
     e_phoff = fld 32 8 bs, e_shoff = fld 40 8 bs, e_phnum = fld 56 2 bs, e_shnum = fld 60 2 bs,
     e_shstrndx = fld 62 2 bs\<rparr>"

record Prog =
  p_Type :: u32
  p_Flags :: u32
  p_Off :: u64
  p_Vaddr :: u64
  p_Paddr :: u64
  p_Filesz :: u64
  p_Memsz :: u64
  p_Align :: u64
  p_elfReader :: elfsource

definition parse_Prog64 :: "elfsource \<Rightarrow> u8 list \<Rightarrow> Prog" where
  "parse_Prog64 src bs = \<lparr>p_Type = fld 0 4 bs, p_Flags = fld 4 4 bs, p_Off = fld 8 8 bs,
     p_Vaddr = fld 16 8 bs, p_Paddr = fld 24 8 bs, p_Filesz = fld 32 8 bs, p_Memsz = fld 40 8 bs,
     p_Align = fld 48 8 bs, p_elfReader = src\<rparr>"

record Section =
  sh_Name :: "u8 list"
  sh_Type :: u32
  sh_Flags :: u64
  sh_Addr :: u64
  sh_Offset :: u64
  sh_Size :: u64
  sh_Link :: u32
  sh_Info :: u32
  sh_Addralign :: u64
  sh_Entsize :: u64
  sh_FileSize :: u64
  sh_elfReader :: elfsource

definition parse_Section64 :: "elfsource \<Rightarrow> u8 list \<Rightarrow> Section" where
  "parse_Section64 src bs = \<lparr>sh_Name = [], sh_Type = fld 4 4 bs, sh_Flags = fld 8 8 bs,
     sh_Addr = fld 16 8 bs, sh_Offset = fld 24 8 bs, sh_Size = fld 32 8 bs, sh_Link = fld 40 4 bs,
     sh_Info = fld 44 4 bs, sh_Addralign = fld 48 8 bs, sh_Entsize = fld 56 8 bs,
     sh_FileSize = fld 32 8 bs, sh_elfReader = src\<rparr>"

record gnuHashHeader =
  g_numBuckets :: u32
  g_symbolOffset :: u32
  g_bloomSize :: u32
  g_bloomShift :: u32

record sysvHashHeader =
  v_numBuckets :: u32
  v_numSymbols :: u32

record File =
  f_elfReader :: "u8 list"
  f_mmapReader :: "u8 list option option"
  f_loadData :: "Prog list"
  f_ROData :: "Prog list"
  f_Progs :: "Prog list"
  f_Sections :: "Section list option"
  f_neededIndexes :: "int list"
  f_soNameIndex :: int
  f_elfHeader :: Header64
  f_gnuHash_addr :: int
  f_gnuHash_header :: gnuHashHeader
  f_sysvHash_addr :: int
  f_sysvHash_header :: sysvHashHeader
  f_stringsAddr :: int
  f_symbolsAddr :: int
  f_bias :: u64
  f_InsideCore :: bool
  f_isExecutable :: bool
  f_Type :: u16
  f_Machine :: u16
  f_Entry :: u64

section \<open>Segments\<close>

definition isRoData :: "Prog \<Rightarrow> bool" where
  "isRoData ph \<longleftrightarrow> p_Type ph = PT_LOAD \<and>
     (let andFlags = p_Flags ph AND (PF_R OR PF_W OR PF_X)
      in andFlags = PF_R \<or> andFlags = PF_R OR PF_X)"

text \<open>
  \<open>Prog.ReadAt\<close> into the slice \<open>p\<close>: the slice afterwards, the count and the error.  First comes the file's
  part, then the part between \<open>Filesz\<close> and \<open>Memsz\<close>.  The second loop ranges over \<open>p[n:n+end]\<close> but clears
  \<open>p[0:end]\<close>.  Sizes of 2^63 and more are negative as \<open>int64\<close>; a negative \<open>end\<close> is a slice expression that panics.
\<close>

definition Prog_ReadAt_gap :: "Prog \<Rightarrow> u8 list \<Rightarrow> nat \<Rightarrow> int \<Rightarrow> (u8 list \<times> nat \<times> io_error option) run" where
  "Prog_ReadAt_gap ph p n off =
     run_bind
       (if n < length p \<and> (word_of_int off :: u64) < p_Memsz ph
        then let end' = min (int (length p) - int n) (int64 (sint (p_Memsz ph) - off))
             in if end' < 0 then Panic
                else Ret (replicate (nat end') 0 @ drop (nat end') p, n + nat end')
        else Ret (p, n))
       (\<lambda>(p, n). Ret (p, n, if n \<noteq> length p then Some EOF else None))"

definition Prog_ReadAt :: "Prog \<Rightarrow> u8 list \<Rightarrow> int \<Rightarrow> (u8 list \<times> nat \<times> io_error option) run" where
  "Prog_ReadAt ph p off =
     (if (word_of_int off :: u64) < p_Filesz ph
      then let end' = min (int (length p)) (int64 (sint (p_Filesz ph) - off))
           in if end' < 0 then Panic
              else let (got, err) = source_ReadAt (p_elfReader ph) (nat end') (int64 (sint (p_Off ph) + off));
                       (p, n) = (if length got = 0 \<and> err = Some ErrFault
                                 then (replicate (nat end') 0 @ drop (nat end') p, nat end')
                                 else (got @ drop (length got) p, length got))
                   in if int n \<noteq> end' \<or> err \<noteq> None then Ret (p, n, err)
                      else Prog_ReadAt_gap ph p n (int64 (off + int n))
      else Prog_ReadAt_gap ph p 0 off)"

definition Prog_Data :: "Prog \<Rightarrow> u64 \<Rightarrow> (elf_error + u8 list) run" where
  "Prog_Data ph maxSize =
     (case p_elfReader ph of
        MmapReader d \<Rightarrow> Subslice d (sint (p_Off ph)) (sint (p_Filesz ph))
      | FileReader _ \<Rightarrow>
          if p_Filesz ph > maxSize then Ret (Inl (ErrTooLarge (p_Filesz ph)))
          else run_bind (Prog_ReadAt ph (replicate (unat (p_Filesz ph)) 0) 0) (\<lambda>(p, _, err).
               Ret (case err of Some e \<Rightarrow> Inl (ErrRead e) | None \<Rightarrow> Inr p)))"

section \<open>Sections\<close>

definition Section_ReadAt :: "Section \<Rightarrow> nat \<Rightarrow> int \<Rightarrow> u8 list \<times> io_error option" where
  "Section_ReadAt sh len off =
     (if off < 0 \<or> (word_of_int off :: u64) \<ge> sh_FileSize sh then ([], Some EOF)
      else let truncated = (word_of_int off + of_nat len > sh_FileSize sh);
               n = (if truncated then unat (sh_FileSize sh - word_of_int off) else len);
               (got, err) = source_ReadAt (sh_elfReader sh) n (int64 (off + sint (sh_Offset sh)))
           in (got, if err = None \<and> truncated then Some EOF else err))"

definition Section_Data :: "Section \<Rightarrow> u64 \<Rightarrow> (elf_error + u8 list) run" where
  "Section_Data sh maxSize =
     (if sh_Flags sh AND SHF_COMPRESSED \<noteq> 0 then Ret (Inl ErrCompressed)
      else case sh_elfReader sh of
        MmapReader d \<Rightarrow> Subslice d (sint (sh_Offset sh)) (sint (sh_FileSize sh))
      | FileReader _ \<Rightarrow>
          if sh_FileSize sh > maxSize then Ret (Inl (ErrTooLarge (sh_FileSize sh)))
          else (case Section_ReadAt sh (unat (sh_FileSize sh)) 0 of
                  (p, Some e) \<Rightarrow> Ret (Inl (ErrRead e)) | (p, None) \<Rightarrow> Ret (Inr p)))"

definition getString :: "u8 list \<Rightarrow> int \<Rightarrow> u8 list option" where
  "getString sect start =
     (if start < 0 \<or> start \<ge> int (length sect) then None
      else case IndexByte (drop (nat start) sect) 0 of
        None \<Rightarrow> None | Some slen \<Rightarrow> Some (take slen (drop (nat start) sect)))"

section \<open>Opening a file\<close>

definition getReader :: "u8 list option option \<Rightarrow> u8 list \<Rightarrow> elfsource" where
  "getReader mmapReader r = (case mmapReader of Some d \<Rightarrow> MmapReader d | None \<Rightarrow> FileReader r)"

definition File_getReader :: "File \<Rightarrow> elfsource" where
  "File_getReader f = getReader (f_mmapReader f) (f_elfReader f)"

text \<open>The entries of an array of \<open>n\<close> structures of \<open>sz\<close> bytes.\<close>

definition entries :: "nat \<Rightarrow> nat \<Rightarrow> u8 list \<Rightarrow> u8 list list" where
  "entries n sz bs = map (\<lambda>i. take sz (drop (i * sz) bs)) [0..<n]"

abbreviation (input) DT_NEEDED :: u64 where "DT_NEEDED \<equiv> 1"
abbreviation (input) DT_HASH :: u64 where "DT_HASH \<equiv> 4"
abbreviation (input) DT_STRTAB :: u64 where "DT_STRTAB \<equiv> 5"
abbreviation (input) DT_SYMTAB :: u64 where "DT_SYMTAB \<equiv> 6"
abbreviation (input) DT_SONAME :: u64 where "DT_SONAME \<equiv> 14"
abbreviation (input) DT_GNU_HASH :: u64 where "DT_GNU_HASH \<equiv> 0x6ffffef5"
abbreviation (input) DT_FLAGS_1 :: u64 where "DT_FLAGS_1 \<equiv> 0x6ffffffb"
abbreviation (input) DF_1_PIE :: u64 where "DF_1_PIE \<equiv> 0x08000000"

definition dyn_entry :: "int \<Rightarrow> u8 list \<Rightarrow> File \<Rightarrow> File" where
  "dyn_entry bias dyn f =
     (let tag = fld 0 8 dyn :: u64; val = fld 8 8 dyn :: u64;
          adjustedVal = (if sint val \<ge> bias then int64 (sint val - bias) else sint val)
      in if tag = DT_FLAGS_1 then (if val AND DF_1_PIE \<noteq> 0 then f\<lparr>f_isExecutable := True\<rparr> else f)
         else if tag = DT_NEEDED then f\<lparr>f_neededIndexes := f_neededIndexes f @ [sint val]\<rparr>
         else if tag = DT_SONAME then f\<lparr>f_soNameIndex := sint val\<rparr>
         else if tag = DT_HASH then f\<lparr>f_sysvHash_addr := adjustedVal\<rparr>
         else if tag = DT_STRTAB then f\<lparr>f_stringsAddr := adjustedVal\<rparr>
         else if tag = DT_SYMTAB then f\<lparr>f_symbolsAddr := adjustedVal\<rparr>
         else if tag = DT_GNU_HASH then f\<lparr>f_gnuHash_addr := adjustedVal\<rparr>
         else f)"

lemma s_Read_progress:
  assumes "0 < len" "s_Read s len = ((got, None), s')"
  shows "got \<noteq> []" "nat (s_avail s') < nat (s_avail s)"
proof -
  from assms show ne: "got \<noteq> []" by (auto simp: s_Read_def s_Read_acc_def Let_def split: if_splits)
  from assms have got: "got = take len (s_bytes s)" "s' = s_advance s (int (length got))"
    by (auto simp: s_Read_def s_Read_acc_def Let_def split: if_splits)
  with ne have "s_bytes s \<noteq> []" by auto
  then have "0 < s_avail s" by (auto simp: s_bytes_def)
  moreover from ne have "0 < length got" by simp
  ultimately show "nat (s_avail s') < nat (s_avail s)"
    unfolding got(2) by (auto simp: s_avail_def s_advance_def max_def split: if_splits)
qed

text \<open>
  The loop over \<open>PT_DYNAMIC\<close>.  The structure \<open>dyn\<close> outlives an iteration, so a short last read leaves its
  tail from the entry before.
\<close>

function dyn_loop :: "int \<Rightarrow> strm \<Rightarrow> u8 list \<Rightarrow> File \<Rightarrow> File" where
  "dyn_loop bias rdr dyn f =
     (case s_Read rdr 16 of
        ((got, Some err), _) \<Rightarrow> f
      | ((got, None), rdr') \<Rightarrow>
          let dyn = got @ drop (length got) dyn in dyn_loop bias rdr' dyn (dyn_entry bias dyn f))"
  by pat_completeness auto
termination
proof (relation "measure (\<lambda>(_, rdr, _, _). nat (s_avail rdr))", goal_cases)
  case (2 bias rdr dyn f p rdr' got e d)
  then have "s_Read rdr 16 = ((got, None), rdr')" by simp
  from s_Read_progress(2) [OF _ this] show ?case by simp
qed simp

declare dyn_loop.simps [simp del]

definition prog_entry :: "bool \<Rightarrow> Prog \<Rightarrow> File \<Rightarrow> File" where
  "prog_entry hasMusl p f =
     (if p_Filesz p \<le> 0 then f
      else if p_Type p = PT_DYNAMIC
      then dyn_loop (if \<not> hasMusl then sint (f_bias f) else 0)
             (s_Init (Some (f_elfReader f)) (sint (p_Off p)) (sint (p_Filesz p))) (replicate 16 0) f
      else if p_Type p = PT_INTERP then f\<lparr>f_isExecutable := True\<rparr>
      else f)"

definition newFile ::
  "u8 list \<Rightarrow> u8 list option option \<Rightarrow> u64 \<Rightarrow> bool \<Rightarrow> elf_error + File" where
  "newFile r mmapReader loadAddress hasMusl =
     (case os_ReadAt r 64 0 of
        (_, Some err) \<Rightarrow> Inl (ErrRead err)
      | (hbytes, None) \<Rightarrow>
          if take 4 hbytes \<noteq> [0x7f, 0x45, 0x4c, 0x46] then Inl ErrNotELF
          else if hbytes ! 4 \<noteq> 2 \<or> hbytes ! 5 \<noteq> 1 \<or> hbytes ! 6 \<noteq> 1 then Inl ErrUnsupportedELF
          else let hdr = parse_Header64 hbytes in
          if e_phnum hdr = 0 then Inl ErrNoProgs
          else case os_ReadAt r (56 * unat (e_phnum hdr)) (sint (e_phoff hdr)) of
            (_, Some err) \<Rightarrow> Inl (ErrRead err)
          | (pbytes, None) \<Rightarrow>
              let progs = map (parse_Prog64 (getReader mmapReader r)) (entries (unat (e_phnum hdr)) 56 pbytes);
                  loadData = filter (\<lambda>p. p_Type p = PT_LOAD) progs;
                  virtualBase = fold (\<lambda>p b. if p_Vaddr p < b then p_Vaddr p else b) loadData (- 1);
                  ROData = sort_key (\<lambda>p. p_Flags p AND (PF_R OR PF_X)) (filter isRoData loadData);
                  f = \<lparr>f_elfReader = r, f_mmapReader = mmapReader, f_loadData = loadData, f_ROData = ROData,
                       f_Progs = progs, f_Sections = None, f_neededIndexes = [], f_soNameIndex = 0,
                       f_elfHeader = hdr, f_gnuHash_addr = 0,
                       f_gnuHash_header = \<lparr>g_numBuckets = 0, g_symbolOffset = 0, g_bloomSize = 0, g_bloomShift = 0\<rparr>,
                       f_sysvHash_addr = 0, f_sysvHash_header = \<lparr>v_numBuckets = 0, v_numSymbols = 0\<rparr>,
                       f_stringsAddr = 0, f_symbolsAddr = 0,
                       f_bias = (if loadAddress \<noteq> 0 then loadAddress - virtualBase else 0),
                       f_InsideCore = (loadAddress \<noteq> 0), f_isExecutable = (e_type hdr = ET_EXEC),
                       f_Type = e_type hdr, f_Machine = e_machine hdr, f_Entry = e_entry hdr\<rparr>
              in Inr (fold (prog_entry hasMusl) progs f))"

section \<open>Section headers\<close>

primrec name_sections :: "u8 list \<Rightarrow> u8 list list \<Rightarrow> Section list \<Rightarrow> Section list \<Rightarrow> elf_error option \<times> Section list" where
  "name_sections strtab [] done todo = (None, done @ todo)"
| "name_sections strtab (raw # raws) done todo =
     (case todo of
        [] \<Rightarrow> (None, done)
      | sh # rest \<Rightarrow>
          case getString strtab (uint (fld 0 4 raw :: u32)) of
            None \<Rightarrow> (Some (ErrSectionName (length done)), done @ sh\<lparr>sh_Name := []\<rparr> # rest)
          | Some name \<Rightarrow> name_sections strtab raws (done @ [sh\<lparr>sh_Name := name\<rparr>]) rest)"

definition LoadSections :: "File \<Rightarrow> (elf_error option \<times> File) run" where
  "LoadSections f =
     (let hdr = f_elfHeader f in
      if f_InsideCore f then Ret (Some ErrInsideCore, f)
      else if f_Sections f \<noteq> None then Ret (None, f)
      else if e_shnum hdr = 0 then Ret (None, f)
      else if e_shnum hdr > 0 \<and> e_shstrndx hdr \<ge> e_shnum hdr
      then Ret (Some (ErrShstrndx (e_shstrndx hdr) (e_shnum hdr)), f)
      else case os_ReadAt (f_elfReader f) (64 * unat (e_shnum hdr)) (sint (e_shoff hdr)) of
        (_, Some err) \<Rightarrow> Ret (Some (ErrRead err), f)
      | (sbytes, None) \<Rightarrow>
          let raws = entries (unat (e_shnum hdr)) 64 sbytes;
              secs = map (parse_Section64 (File_getReader f)) raws
          in run_bind (Section_Data (secs ! unat (e_shstrndx hdr)) maxBytesLargeSection) (\<lambda>d.
               case d of
                 Inl err \<Rightarrow> Ret (Some err, f\<lparr>f_Sections := Some secs\<rparr>)
               | Inr strtab \<Rightarrow>
                   let (err, secs) = name_sections strtab raws [] secs
                   in Ret (err, f\<lparr>f_Sections := Some secs\<rparr>)))"

definition sections :: "File \<Rightarrow> Section list" where
  "sections f = (case f_Sections f of None \<Rightarrow> [] | Some secs \<Rightarrow> secs)"

definition File_Section :: "File \<Rightarrow> u8 list \<Rightarrow> (Section option \<times> File) run" where
  "File_Section f name =
     (if f_InsideCore f then Ret (None, f)
      else run_bind (LoadSections f) (\<lambda>(err, f).
        if err \<noteq> None then Ret (None, f\<lparr>f_InsideCore := True\<rparr>)
        else Ret (find (\<lambda>s. sh_Name s = name) (sections f), f)))"

section \<open>Virtual memory\<close>

definition ProgByType :: "File \<Rightarrow> u32 \<Rightarrow> Prog option" where
  "ProgByType f t = find (\<lambda>p. p_Type p = t) (f_Progs f)"

definition ProgByVirtualAddress :: "File \<Rightarrow> u64 \<Rightarrow> Prog option" where
  "ProgByVirtualAddress f addr =
     find (\<lambda>ph. addr \<ge> p_Vaddr ph \<and> addr < p_Vaddr ph + p_Memsz ph) (f_loadData f)"

text \<open>The slice and the error; a slice of length 0 stands for \<open>nil\<close>.\<close>

definition VirtualMemory :: "File \<Rightarrow> int \<Rightarrow> int \<Rightarrow> int \<Rightarrow> (u8 list \<times> elf_error option) run" where
  "VirtualMemory f addr sz maxSize =
     (if sz = 0 then Ret ([], None)
      else case ProgByVirtualAddress f (word_of_int addr) of
        None \<Rightarrow> Ret ([], Some (ErrNoSegment (word_of_int addr)))
      | Some ph \<Rightarrow>
          let offset = int64 (addr - sint (p_Vaddr ph));
              copy = (if sz > maxSize then Ret ([], Some (ErrTooLarge (word_of_int sz)))
                      else if sz < 0 then Panic
                      else run_bind (Prog_ReadAt ph (replicate (nat sz) 0) offset) (\<lambda>(buf, n, err).
                             Ret (take n buf, map_option ErrRead err)))
          in if int64 (offset + sz) \<le> sint (p_Filesz ph)
             then (case p_elfReader ph of
                     MmapReader d \<Rightarrow>
                       run_bind (Subslice d (int64 (sint (p_Off ph) + offset)) sz) (\<lambda>r.
                         case r of Inl err \<Rightarrow> Ret ([], Some err) | Inr bs \<Rightarrow> Ret (bs, None))
                   | FileReader _ \<Rightarrow> copy)
             else copy)"

definition File_ReadAt :: "File \<Rightarrow> u8 list \<Rightarrow> int \<Rightarrow> (u8 list \<times> nat \<times> elf_error option) run" where
  "File_ReadAt f p addr =
     (if length p = 0 then Ret (p, 0, None)
      else case ProgByVirtualAddress f (word_of_int addr) of
        Some ph \<Rightarrow> run_bind (Prog_ReadAt ph p (int64 (addr - sint (p_Vaddr ph)))) (\<lambda>(p, n, err).
                     Ret (p, n, map_option ErrRead err))
      | None \<Rightarrow> Ret (p, 0, Some (ErrNoSegment (word_of_int addr))))"

section \<open>Symbols\<close>

record Symbol =
  sy_Name :: "u8 list"
  sy_Address :: u64
  sy_Size :: u64
  sy_Info :: u8
  sy_Shndx :: u16

definition sym_of :: "u8 list \<Rightarrow> u8 list \<Rightarrow> Symbol" where
  "sym_of name sym64 = \<lparr>sy_Name = name, sy_Address = fld 8 8 sym64, sy_Size = fld 16 8 sym64,
     sy_Info = fld 4 1 sym64, sy_Shndx = fld 6 2 sym64\<rparr>"

definition readAndMatchSymbol :: "File \<Rightarrow> u32 \<Rightarrow> u8 list \<Rightarrow> Symbol option run" where
  "readAndMatchSymbol f n name =
     run_bind (File_ReadAt f (replicate 24 0) (int64 (f_symbolsAddr f + uint n * 24))) (\<lambda>(sym64, _, err).
     if err \<noteq> None then Ret None
     else let slen = length name in
       run_bind (VirtualMemory f (int64 (f_stringsAddr f + uint (fld 0 4 sym64 :: u32))) (int slen + 1)
                   maxBytesSmallSection) (\<lambda>(sname, err).
       if err \<noteq> None then Ret None
       else if length sname \<le> slen then Panic
       else if sname ! slen \<noteq> 0 \<or> take slen sname \<noteq> name then Ret None
       else Ret (Some (sym_of name sym64))))"

definition calcGNUHash :: "u8 list \<Rightarrow> u32" where
  "calcGNUHash s = fold (\<lambda>c h. h + (h * 32 + ucast c)) s 5381"

definition calcSysvHash :: "u8 list \<Rightarrow> u32" where
  "calcSysvHash s =
     fold (\<lambda>c h. let h = 16 * h + ucast c in h XOR (drop_bit 24 h AND 0xf0)) s 0 AND 0xfffffff"

text \<open>The structures as the bytes the code reads into.\<close>

definition le32 :: "u32 \<Rightarrow> u8 list" where
  "le32 w = [ucast w, ucast (drop_bit 8 w), ucast (drop_bit 16 w), ucast (drop_bit 24 w)]"

definition parse_gnuHashHeader :: "u8 list \<Rightarrow> gnuHashHeader" where
  "parse_gnuHashHeader bs = \<lparr>g_numBuckets = fld 0 4 bs, g_symbolOffset = fld 4 4 bs,
     g_bloomSize = fld 8 4 bs, g_bloomShift = fld 12 4 bs\<rparr>"

definition gnuHashHeader_bytes :: "gnuHashHeader \<Rightarrow> u8 list" where
  "gnuHashHeader_bytes h =
     le32 (g_numBuckets h) @ le32 (g_symbolOffset h) @ le32 (g_bloomSize h) @ le32 (g_bloomShift h)"

definition parse_sysvHashHeader :: "u8 list \<Rightarrow> sysvHashHeader" where
  "parse_sysvHashHeader bs = \<lparr>v_numBuckets = fld 0 4 bs, v_numSymbols = fld 4 4 bs\<rparr>"

definition sysvHashHeader_bytes :: "sysvHashHeader \<Rightarrow> u8 list" where
  "sysvHashHeader_bytes h = le32 (v_numBuckets h) @ le32 (v_numSymbols h)"

text \<open>A 32-bit variable read from virtual memory.\<close>

definition read32 :: "File \<Rightarrow> u32 \<Rightarrow> int \<Rightarrow> (elf_error + u32) run" where
  "read32 f old addr = run_bind (File_ReadAt f (le32 old) addr) (\<lambda>(p, _, err).
     Ret (case err of Some e \<Rightarrow> Inl e | None \<Rightarrow> Inr (fld 0 4 p)))"

text \<open>The search of a bucket of the GNU hash table; it ends at an entry with the lowest bit set.\<close>

primrec gnu_bucket :: "nat \<Rightarrow> File \<Rightarrow> u8 list \<Rightarrow> u32 \<Rightarrow> int \<Rightarrow> u32 \<Rightarrow> (elf_error + Symbol) run" where
  "gnu_bucket 0 f symbol h offs i = Loop"
| "gnu_bucket (Suc fuel) f symbol h offs i =
     run_bind (read32 f 0 offs) (\<lambda>r. case r of
       Inl err \<Rightarrow> Ret (Inl err)
     | Inr h2 \<Rightarrow>
         run_bind (if h = h2 OR 1 then readAndMatchSymbol f i symbol else Ret None) (\<lambda>s. case s of
           Some s \<Rightarrow> Ret (Inr s)
         | None \<Rightarrow>
             if h2 AND 1 \<noteq> 0 then Ret (Inl ErrSymbolNotFound)
             else gnu_bucket fuel f symbol h (int64 (offs + 4)) (i + 1)))"

definition gnu_lookup :: "nat \<Rightarrow> File \<Rightarrow> u8 list \<Rightarrow> (elf_error + Symbol) run" where
  "gnu_lookup fuel f symbol =
     (let hdr = f_gnuHash_header f; h = calcGNUHash symbol; offs = int64 (f_gnuHash_addr f + 16) in
      if g_bloomSize hdr = 0 then Panic
      else run_bind (File_ReadAt f (replicate 8 0) (int64 (offs + 8 * uint ((h div 64) mod g_bloomSize hdr)))) (\<lambda>(p, _, err).
        case err of
          Some e \<Rightarrow> Ret (Inl e)
        | None \<Rightarrow>
            let bloom = fld 0 8 p :: u64;
                mask = push_bit (unat (h mod 64)) 1 OR push_bit (unat (drop_bit (unat (g_bloomShift hdr)) h mod 64)) 1
            in if bloom AND mask \<noteq> mask then Ret (Inl ErrSymbolNotFound)
               else let offs = int64 (offs + uint (g_bloomSize hdr) * 8) in
                 run_bind (read32 f 0 (int64 (offs + 4 * uint (h mod g_numBuckets hdr)))) (\<lambda>r. case r of
                   Inl e \<Rightarrow> Ret (Inl e)
                 | Inr i \<Rightarrow>
                     if i = 0 then Ret (Inl ErrSymbolNotFound)
                     else gnu_bucket fuel f symbol (h OR 1)
                            (int64 (offs + 4 * uint (g_numBuckets hdr) + 4 * uint (i - g_symbolOffset hdr))) i)))"

primrec sysv_bucket :: "nat \<Rightarrow> File \<Rightarrow> u8 list \<Rightarrow> int \<Rightarrow> u32 \<Rightarrow> (elf_error + Symbol) run" where
  "sysv_bucket 0 f symbol offs i = Loop"
| "sysv_bucket (Suc fuel) f symbol offs i =
     (if i \<noteq> 0 \<and> i < v_numSymbols (f_sysvHash_header f)
      then run_bind (readAndMatchSymbol f i symbol) (\<lambda>s. case s of
             Some s \<Rightarrow> Ret (Inr s)
           | None \<Rightarrow> run_bind (read32 f i (int64 (offs + 4 * uint i))) (\<lambda>r. case r of
               Inl err \<Rightarrow> Ret (Inl err)
             | Inr i \<Rightarrow> sysv_bucket fuel f symbol offs i))
      else Ret (Inl ErrSymbolNotFound))"

definition sysv_lookup :: "nat \<Rightarrow> File \<Rightarrow> u8 list \<Rightarrow> (elf_error + Symbol) run" where
  "sysv_lookup fuel f symbol =
     (let hdr = f_sysvHash_header f; offs = int64 (f_sysvHash_addr f + 8); h = calcSysvHash symbol in
      run_bind (read32 f 0 (int64 (offs + 4 * uint (h mod v_numBuckets hdr)))) (\<lambda>r. case r of
        Inl err \<Rightarrow> Ret (Inl err)
      | Inr i \<Rightarrow> sysv_bucket fuel f symbol (int64 (offs + 4 * uint (v_numBuckets hdr))) i))"

text \<open>\<open>LookupSymbol\<close>: the result and the file, whose hash table header is read at the first use.\<close>

definition LookupSymbol :: "nat \<Rightarrow> File \<Rightarrow> u8 list \<Rightarrow> ((elf_error + Symbol) \<times> File) run" where
  "LookupSymbol fuel f symbol =
     (if f_gnuHash_addr f \<noteq> 0
      then run_bind
        (if g_numBuckets (f_gnuHash_header f) = 0
         then run_bind (File_ReadAt f (gnuHashHeader_bytes (f_gnuHash_header f)) (f_gnuHash_addr f)) (\<lambda>(p, _, err).
                let hdr = parse_gnuHashHeader p; f = f\<lparr>f_gnuHash_header := hdr\<rparr>
                in Ret (case err of Some e \<Rightarrow> Some e
                        | None \<Rightarrow> if g_numBuckets hdr = 0 \<or> g_bloomSize hdr = 0 then Some ErrGnuHashCorrupt else None, f))
         else Ret (None, f))
        (\<lambda>(err, f). case err of
            Some e \<Rightarrow> Ret (Inl e, f)
          | None \<Rightarrow> run_bind (gnu_lookup fuel f symbol) (\<lambda>r. Ret (r, f)))
      else if f_sysvHash_addr f \<noteq> 0
      then run_bind
        (if v_numBuckets (f_sysvHash_header f) = 0
         then run_bind (File_ReadAt f (sysvHashHeader_bytes (f_sysvHash_header f)) (f_sysvHash_addr f)) (\<lambda>(p, _, err).
                let hdr = parse_sysvHashHeader p; f = f\<lparr>f_sysvHash_header := hdr\<rparr>
                in Ret (case err of Some e \<Rightarrow> Some e
                        | None \<Rightarrow> if v_numBuckets hdr = 0 then Some ErrSysvHashCorrupt else None, f))
         else Ret (None, f))
        (\<lambda>(err, f). case err of
            Some e \<Rightarrow> Ret (Inl e, f)
          | None \<Rightarrow> run_bind (sysv_lookup fuel f symbol) (\<lambda>r. Ret (r, f)))
      else Ret (Inl ErrNoSymbolHash, f))"

definition LookupSymbolAddress :: "nat \<Rightarrow> File \<Rightarrow> u8 list \<Rightarrow> ((elf_error + u64) \<times> File) run" where
  "LookupSymbolAddress fuel f symbol =
     run_bind (LookupSymbol fuel f symbol) (\<lambda>(r, f).
       Ret (case r of Inl err \<Rightarrow> Inl err | Inr s \<Rightarrow> Inr (sy_Address s), f))"

definition ReadSymbolData :: "File \<Rightarrow> Symbol \<Rightarrow> u64 \<Rightarrow> (elf_error + u8 list) run" where
  "ReadSymbolData f sym64 maxSize =
     run_bind (File_ReadAt f (replicate (unat (min (sy_Size sym64) maxSize)) 0) (sint (sy_Address sym64))) (\<lambda>(p, _, err).
       Ret (case err of Some e \<Rightarrow> Inl e | None \<Rightarrow> Inr p))"

definition SymbolData :: "nat \<Rightarrow> File \<Rightarrow> u8 list \<Rightarrow> u64 \<Rightarrow> ((elf_error + Symbol \<times> u8 list) \<times> File) run" where
  "SymbolData fuel f name maxSize =
     run_bind (LookupSymbol fuel f name) (\<lambda>(r, f). case r of
       Inl err \<Rightarrow> Ret (Inl err, f)
     | Inr sym64 \<Rightarrow> run_bind (ReadSymbolData f sym64 maxSize) (\<lambda>d.
         Ret (case d of Inl err \<Rightarrow> Inl err | Inr bs \<Rightarrow> Inr (sym64, bs), f)))"

section \<open>File offsets and virtual addresses\<close>

record addressMapperPHDR =
  am_offset :: u64
  am_vaddr :: u64
  am_filesz :: u64

fun FileOffsetToVirtualAddress :: "u64 \<Rightarrow> addressMapperPHDR list \<Rightarrow> u64 \<Rightarrow> u64 option" where
  "FileOffsetToVirtualAddress pageSizeMinusOne [] fileOffset = None"
| "FileOffsetToVirtualAddress pageSizeMinusOne (p # ps) fileOffset =
     (let alignedOffset = am_offset p AND NOT pageSizeMinusOne
      in if fileOffset \<ge> alignedOffset \<and> fileOffset < am_offset p + am_filesz p
         then Some (am_vaddr p - (am_offset p - fileOffset))
         else FileOffsetToVirtualAddress pageSizeMinusOne ps fileOffset)"

definition GetAddressMapper :: "File \<Rightarrow> addressMapperPHDR list" where
  "GetAddressMapper f =
     map (\<lambda>p. \<lparr>am_offset = p_Off p, am_vaddr = p_Vaddr p, am_filesz = p_Filesz p\<rparr>)
       (filter (\<lambda>p. \<not> (p_Type p \<noteq> PT_LOAD \<or> p_Flags p AND PF_X = 0)) (f_Progs f))"

end
