(* ===== verification/Ehframe.thy ===== *)
theory Ehframe
  imports DwarfVM Pfelf
begin

text \<open>
  Call-frame sections: the entries of \<open>.eh_frame\<close> and \<open>.debug_frame\<close> of
  \<open>src/nativeunwind/elfunwindinfo/elfehframe.go\<close> (common information entries, frame description entries, the
  walk over a section) and the extraction filter of \<open>stackdeltaextraction.go\<close>.

  The loops take fuel, because the opcode loop of \<open>step\<close> may not end on a truncated section.  The cache of common
  information entries is the third-party package freelru: its operations are the argument \<open>lru\<close>.
\<close>

section \<open>Entry headers\<close>

abbreviation (input) s_Outer :: "strm \<Rightarrow> u8 list option \<times> int \<times> int" where
  "s_Outer s \<equiv> (s_source s, s_start s, s_limit s - s_start s)"

definition parseLengthAndMarker :: "reader \<Rightarrow> (eh_error + int \<times> int) \<times> reader" where
  "parseLengthAndMarker r =
     (let (l, r) = rd_Uint32 r; len = uint l in
      if len = 0 then (Inl ErrEmptyEntry, r)
      else if len \<ge> 0xfffffff0 \<and> len \<noteq> 0xffffffff then (Inl (ErrInitialLength len), r)
      else
        let (len, ciePos, cieMarker, size, r) =
              (if len < 0xfffffff0
               then (let (p, r) = rd_Uint32 r in (len, uint p, 0xffffffff, 4, r))
               else (let (l, r) = rd_Uint64 r; (p, r) = rd_Uint64 r in (sint l, sint p, -1, 8, r)));
            ciePos = (if rd_debugFrame r then (if ciePos = cieMarker then -1 else ciePos)
                      else if ciePos = 0 then -1 else int64 (rd_Tell r - size - ciePos))
        in if len < size \<or> ciePos < -2 then (Inl (ErrHeader len ciePos), r)
           else (Inr (len - size, ciePos), r))"

section \<open>Common information entries\<close>

definition rd_ReadString :: "reader \<Rightarrow> u8 \<Rightarrow> (u8 list \<times> io_error option) \<times> reader" where
  "rd_ReadString r delim =
     (case on_rd (\<lambda>s. s_ReadSlice s delim) r of ((bs, err), r) \<Rightarrow> ((case bs of None \<Rightarrow> [] | Some bs \<Rightarrow> bs, err), r))"

text \<open>The letters of the augmentation string after the leading \<open>z\<close>.\<close>

fun parseCIE_aug :: "u8 list \<Rightarrow> cieInfo \<Rightarrow> reader \<Rightarrow> (eh_error + cieInfo) \<times> reader" where
  "parseCIE_aug [] cie r = (Inr cie, r)"
| "parseCIE_aug (ch # chs) cie r =
     (if ch = 0x4c then (let (e, r) = rd_Uint8 r in parseCIE_aug chs (cie\<lparr>ldsaEnc := e\<rparr>) r)
      else if ch = 0x52 then (let (e, r) = rd_Uint8 r in parseCIE_aug chs (cie\<lparr>cie_enc := e\<rparr>) r)
      else if ch = 0x50 then
        (let (e, r) = rd_Uint8 r; ((_, err), r) = ptr r (e AND NOT encIndirect) in
         case err of Some err \<Rightarrow> (Inl err, r) | None \<Rightarrow> parseCIE_aug chs cie r)
      else if ch = 0x53 then parseCIE_aug chs (cie\<lparr>isSignalHandler := True\<rparr>) r
      else (Inl ErrAugmentation, r))"

text \<open>The fixed part of the header, up to the augmentation data.\<close>

definition parseCIE_header :: "reader \<Rightarrow> (eh_error + cieInfo) \<times> reader" where
  "parseCIE_header r =
     (let (ver, r) = rd_Uint8 r in
      if ver \<noteq> 1 \<and> ver \<noteq> 3 \<and> ver \<noteq> 4 then (Inl (ErrCIEVersion ver), r)
      else
        let ((augmentation, err), r) = rd_ReadString r 0 in
        case err of
          Some e \<Rightarrow> (Inl (ErrIO e), r)
        | None \<Rightarrow>
            if length augmentation > 8 then (Inl ErrAugmentationLong, r)
            else
              let r = (if ver = 4 then rd_Discard r 2 else r);
                  (ca, r) = uleb r; (da, r) = sleb r;
                  (ra, r) = (if ver = 1 then (let (b, r) = rd_Uint8 r in (ucast b, r)) else uleb r);
                  cie = \<lparr>dataAlign = da, codeAlign = ca, regRA = ra, cie_enc = encFormatNative OR encAdjustAbs,
                         ldsaEnc = encFormatNative OR encAdjustAbs, hasAugmentation = False,
                         isSignalHandler = False, initialState = zero_vmRegs\<rparr>
              in case augmentation of
                   [] \<Rightarrow> (Inr cie, r)
                 | z # chs \<Rightarrow>
                     if z \<noteq> 0x7a then (Inl ErrAugmentationOld, r)
                     else let (_, r) = uleb r in parseCIE_aug chs (cie\<lparr>hasAugmentation := True\<rparr>) r)"

definition parseCIE_body :: "nat \<Rightarrow> reader \<Rightarrow> ((eh_error + cieInfo) \<times> reader) run" where
  "parseCIE_body fuel r =
     (case parseCIE_header r of
        (Inl e, r) \<Rightarrow> Ret (Inl e, r)
      | (Inr cie, r) \<Rightarrow>
          run_bind (newVMRegs (rd_machine r)) (\<lambda>regs.
          let cie = cie\<lparr>initialState := regs\<rparr> in
          run_bind (step fuel (new_state cie regs) r) (\<lambda>(err, st, r).
            case err of Some e \<Rightarrow> Ret (Inl e, r) | None \<Rightarrow> Ret (Inr (cie\<lparr>initialState := st_cur st\<rparr>), r))))"

definition parseCIE :: "nat \<Rightarrow> reader \<Rightarrow> int \<Rightarrow> ((eh_error + cieInfo) \<times> reader) run" where
  "parseCIE fuel r n =
     (case rd_StartSection r n of
        (Some e, r) \<Rightarrow> Ret (Inl (ErrIO e), r)
      | (None, r) \<Rightarrow>
          run_bind (parseCIE_body fuel r) (\<lambda>(res, r). run_bind (rd_EndSection r) (\<lambda>r. Ret (res, r))))"

subsection \<open>The cache\<close>

record 'c lru =
  lru_New :: 'c
  lru_Get :: "'c \<Rightarrow> int \<Rightarrow> cieInfo option \<times> 'c"
  lru_Add :: "'c \<Rightarrow> int \<Rightarrow> cieInfo \<Rightarrow> 'c"

text \<open>The reader that \<open>processCIE\<close> opens on the range of \<open>r\<close>, at the entry's position.\<close>

definition cie_reader :: "reader \<Rightarrow> int \<Rightarrow> reader" where
  "cie_reader r ciePos =
     (case s_Outer (rd r) of (source, start, len) \<Rightarrow>
        r\<lparr>rd := (snd (s_Seek (s_Init source start len) ciePos 0))\<lparr>s_bufSize := min (max 256 1024) maxBufferSize\<rparr>\<rparr>)"

definition processCIE ::
  "'c lru \<Rightarrow> nat \<Rightarrow> reader \<Rightarrow> int \<Rightarrow> 'c \<Rightarrow> ((eh_error + cieInfo) \<times> 'c) run" where
  "processCIE lru fuel r ciePos cieCache =
     (case lru_Get lru cieCache ciePos of
        (Some cie, cieCache) \<Rightarrow> Ret (Inr cie, cieCache)
      | (None, cieCache) \<Rightarrow>
          (case parseLengthAndMarker (cie_reader r ciePos) of
             (Inl e, _) \<Rightarrow> Ret (Inl e, cieCache)
           | (Inr (len, marker), cr) \<Rightarrow>
               if marker \<ge> 0 then Ret (Inl ErrUnexpectedType, cieCache)
               else run_bind (parseCIE fuel cr len) (\<lambda>(res, _).
                    case res of Inr cie \<Rightarrow> Ret (Inr cie, lru_Add lru cieCache ciePos cie)
                    | Inl e \<Rightarrow> Ret (Inl e, cieCache))))"

section \<open>Frame description entries\<close>

record fdeInfo =
  fde_id :: int
  fde_ciePos :: int
  fde_ipLen :: u64
  fde_ipStart :: u64

definition sigretCodeMap :: "u16 \<Rightarrow> u8 list option" where
  "sigretCodeMap machine =
     (if machine = EM_AARCH64 then Some [0x68, 0x11, 0x80, 0xd2, 0x01, 0x00, 0x00, 0xd4]
      else if machine = EM_X86_64 then Some [0x48, 0xc7, 0xc0, 0x0f, 0x00, 0x00, 0x00, 0x0f, 0x05]
      else None)"

definition isSignalTrampoline :: "File \<Rightarrow> fdeInfo \<Rightarrow> bool run" where
  "isSignalTrampoline efCode fde =
     (case sigretCodeMap (f_Machine efCode) of
        None \<Rightarrow> Ret False
      | Some sigretCode \<Rightarrow>
          if fde_ipLen fde \<noteq> of_nat (length sigretCode) then Ret False
          else run_bind (VirtualMemory efCode (sint (fde_ipStart fde)) (int (length sigretCode)) 64) (\<lambda>(fdeCode, err).
               if err \<noteq> None then Ret False else Ret (fdeCode = sigretCode)))"

record extractionFilter =
  flt_start :: u64
  flt_end :: u64
  flt_entryStart :: u64
  flt_entryEnd :: u64
  flt_ehFrames :: bool
  flt_golangFrames :: bool

definition fdeHook :: "extractionFilter \<Rightarrow> fdeInfo \<Rightarrow> bool \<times> extractionFilter" where
  "fdeHook f fde =
     (if flt_start f \<le> fde_ipStart fde \<and> fde_ipStart fde + fde_ipLen fde \<le> flt_end f then (False, f)
      else if fde_ipStart fde = 0 then (False, f)
      else if fde_ipStart fde + fde_ipLen fde > flt_entryStart f \<and> flt_entryEnd f \<ge> fde_ipStart fde then (False, f)
      else (True, f\<lparr>flt_ehFrames := True\<rparr>))"

definition golangHook :: "extractionFilter \<Rightarrow> u64 \<Rightarrow> u64 \<Rightarrow> extractionFilter" where
  "golangHook f start end' = f\<lparr>flt_start := start, flt_end := end', flt_golangFrames := True\<rparr>"

record elfExtractor =
  ee_file :: File
  ee_hooks :: extractionFilter
  ee_intervals :: IntervalData
  ee_allowGenericRegs :: bool

text \<open>The opcodes of an entry: each step adds a delta for the location before it.\<close>

primrec fde_loop ::
  "nat \<Rightarrow> nat \<Rightarrow> bool \<Rightarrow> vm_state \<Rightarrow> StackDeltaArray \<Rightarrow> reader \<Rightarrow> ((eh_error + StackDeltaArray) \<times> reader) run" where
  "fde_loop 0 fuel allow st deltas r = Loop"
| "fde_loop (Suc k) fuel allow st deltas r =
     (if rd_Remaining r > 0
      then run_bind (step fuel st r) (\<lambda>(err, st', r). case err of
             Some e \<Rightarrow> Ret (Inl e, r)
           | None \<Rightarrow> run_bind (getUnwindInfo (st_cur st') allow) (\<lambda>info.
               fde_loop k fuel allow st' (StackDeltaArray_Add deltas (ucast (st_loc st)) info) r))
      else Ret (Inr deltas, r))"

text \<open>The header: the code range; \<open>Inl\<close> is the error.\<close>

definition parseFDE_header :: "reader \<Rightarrow> int \<Rightarrow> u64 \<Rightarrow> cieInfo \<Rightarrow> eh_error option \<times> fdeInfo \<times> reader" where
  "parseFDE_header r fid ipStart cie =
     (let fde = \<lparr>fde_id = fid, fde_ciePos = 0, fde_ipLen = 0, fde_ipStart = 0\<rparr>;
          ((start, err), r) = ptr r (cie_enc cie); fde = fde\<lparr>fde_ipStart := start\<rparr> in
      case err of
        Some e \<Rightarrow> (Some e, fde, r)
      | None \<Rightarrow>
          if ipStart \<noteq> 0 \<and> start \<noteq> ipStart then (Some (ErrIpStart start ipStart), fde, r)
          else
            let enc = (if cie_enc cie AND encIndirect \<noteq> 0 then cie_enc cie
                       else cie_enc cie AND (encFormatMask OR encSignedMask));
                ((len, err), r) = ptr r enc; fde = fde\<lparr>fde_ipLen := len\<rparr> in
            case err of
              Some e \<Rightarrow> (Some e, fde, r)
            | None \<Rightarrow>
                (None, fde, if hasAugmentation cie then (let (n, r) = uleb r in rd_Discard r (sint n)) else r))"

definition parseFDE_body ::
  "nat \<Rightarrow> reader \<Rightarrow> int \<Rightarrow> u64 \<Rightarrow> cieInfo \<Rightarrow> elfExtractor option \<Rightarrow>
     ((eh_error option \<times> fdeInfo) \<times> elfExtractor option \<times> reader) run" where
  "parseFDE_body fuel r fid ipStart cie ee =
     (case parseFDE_header r fid ipStart cie of
        (Some e, fde, r) \<Rightarrow> Ret ((Some e, fde), ee, r)
      | (None, fde, r) \<Rightarrow>
          (case ee of
             None \<Rightarrow> Ret ((None, fde), ee, r)
           | Some x \<Rightarrow>
               let (go, hooks) = fdeHook (ee_hooks x) fde; x = x\<lparr>ee_hooks := hooks\<rparr> in
               if \<not> go then Ret ((None, fde), Some x, r)
               else
                 run_bind (if isSignalHandler cie then Ret True else isSignalTrampoline (ee_file x) fde) (\<lambda>sig.
                 run_bind
                   (if sig then Ret (Inr (StackDeltaArray_Add [] 0 UnwindInfoSignal), r)
                    else fde_loop fuel fuel (ee_allowGenericRegs x) (new_state cie (initialState cie)) [] r)
                   (\<lambda>(res, r). case res of
                      Inl e \<Rightarrow> Ret ((Some e, fde), Some x, r)
                    | Inr deltas \<Rightarrow>
                        let bb = \<lparr>Start = fde_ipStart fde, End = fde_ipStart fde + fde_ipLen fde, Deltas = deltas\<rparr>
                        in Ret ((None, fde), Some (x\<lparr>ee_intervals := IntervalData_Add (ee_intervals x) bb\<rparr>), r)))))"

definition parseFDE ::
  "nat \<Rightarrow> reader \<Rightarrow> int \<Rightarrow> int \<Rightarrow> u64 \<Rightarrow> cieInfo \<Rightarrow> elfExtractor option \<Rightarrow>
     ((eh_error option \<times> fdeInfo) \<times> elfExtractor option \<times> reader) run" where
  "parseFDE fuel r fid n ipStart cie ee =
     (case rd_StartSection r n of
        (Some e, r) \<Rightarrow> Ret ((Some (ErrIO e), \<lparr>fde_id = 0, fde_ciePos = 0, fde_ipLen = 0, fde_ipStart = 0\<rparr>), ee, r)
      | (None, r) \<Rightarrow>
          run_bind (parseFDE_body fuel r fid ipStart cie ee) (\<lambda>(res, ee, r).
            run_bind (rd_EndSection r) (\<lambda>r. Ret (res, ee, r))))"

section \<open>Regions of the file\<close>

record elfRegion =
  rg_offset :: int
  rg_length :: int
  rg_vaddr :: u64

definition empty_region :: elfRegion where
  "empty_region = \<lparr>rg_offset = 0, rg_length = 0, rg_vaddr = 0\<rparr>"

definition Valid :: "elfRegion \<Rightarrow> bool" where
  "Valid r \<longleftrightarrow> rg_length r > 0"

definition elfRegionFromSection :: "Section option \<Rightarrow> elfRegion" where
  "elfRegionFromSection s =
     (case s of
        None \<Rightarrow> empty_region
      | Some s \<Rightarrow>
          if sh_Type s = SHT_NOBITS \<or> sh_Flags s AND SHF_COMPRESSED \<noteq> 0 then empty_region
          else \<lparr>rg_offset = sint (sh_Offset s), rg_length = sint (sh_Size s), rg_vaddr = sh_Addr s\<rparr>)"

definition bytes_of :: "string \<Rightarrow> u8 list" where
  "bytes_of s = map of_char s"

text \<open>The region that the header table \<open>.eh_frame_hdr\<close> points to.\<close>

definition readEhframe_hdr :: "File \<Rightarrow> elfRegion \<Rightarrow> eh_error + elfRegion" where
  "readEhframe_hdr ef header =
     (let r = \<lparr>rd = s_Init (Some (f_elfReader ef)) (rg_offset header) 20, rd_machine = f_Machine ef,
               rd_debugFrame = False, rd_vaddr = rg_vaddr header\<rparr>;
          ((got, err), r) = on_rd (\<lambda>s. s_Read s 4) r;
          hdr = got @ replicate (4 - length got) 0
      in case err of
           Some e \<Rightarrow> Inl (ErrIO e)
         | None \<Rightarrow>
             if hdr ! 0 \<noteq> 1 then Inl (ErrHdrVersion (hdr ! 0))
             else (case ptr r (hdr ! 1) of
                     ((_, Some e), _) \<Rightarrow> Inl e
                   | ((framePtr, None), _) \<Rightarrow>
                       (case ProgByVirtualAddress ef framePtr of
                          None \<Rightarrow> Inl (ErrUnmappable framePtr)
                        | Some p \<Rightarrow>
                            let fileoffset = p_Off p + framePtr - p_Vaddr p
                            in Inr \<lparr>rg_offset = sint fileoffset, rg_length = sint (p_Filesz p + p_Off p - fileoffset),
                                    rg_vaddr = framePtr\<rparr>)))"

definition readEhframe :: "File \<Rightarrow> ((eh_error + elfRegion) \<times> File) run" where
  "readEhframe ef =
     run_bind (File_Section ef (bytes_of ''.eh_frame'')) (\<lambda>(s, ef).
     if Valid (elfRegionFromSection s) then Ret (Inr (elfRegionFromSection s), ef)
     else
       run_bind (File_Section ef (bytes_of ''.eh_frame_hdr'')) (\<lambda>(s, ef).
       let header = elfRegionFromSection s in
       if Valid header then Ret (readEhframe_hdr ef header, ef)
       else (case ProgByType ef PT_GNU_EH_FRAME of
               None \<Rightarrow> Ret (Inr empty_region, ef)
             | Some p \<Rightarrow>
                 Ret (readEhframe_hdr ef \<lparr>rg_offset = sint (p_Off p), rg_length = sint (p_Filesz p), rg_vaddr = p_Vaddr p\<rparr>, ef))))"

section \<open>The walk\<close>

primrec walk_loop ::
  "nat \<Rightarrow> 'c lru \<Rightarrow> nat \<Rightarrow> reader \<Rightarrow> 'c \<Rightarrow> elfExtractor \<Rightarrow> (eh_error option \<times> elfExtractor) run" where
  "walk_loop 0 lru fuel r cieCache ee = Loop"
| "walk_loop (Suc k) lru fuel r cieCache ee =
     (if rd_Remaining r > 0
      then let fid = rd_Tell r in
        case parseLengthAndMarker r of
          (Inl e, _) \<Rightarrow> Ret (if e = ErrEmptyEntry then None else Some e, ee)
        | (Inr (n, ciePos), r) \<Rightarrow>
            if ciePos < 0
            then run_bind (parseCIE fuel r n) (\<lambda>(res, r). case res of
                   Inr cie \<Rightarrow> walk_loop k lru fuel r (lru_Add lru cieCache fid cie) ee
                 | Inl e \<Rightarrow> Ret (Some e, ee))
            else run_bind (processCIE lru fuel r ciePos cieCache) (\<lambda>(res, cieCache). case res of
                   Inl e \<Rightarrow> Ret (Some e, ee)
                 | Inr cie \<Rightarrow>
                     run_bind (parseFDE fuel r fid n 0 cie (Some ee)) (\<lambda>((err, _), ee', r).
                       let ee = (case ee' of Some x \<Rightarrow> x | None \<Rightarrow> ee)
                       in case err of Some e \<Rightarrow> Ret (Some e, ee) | None \<Rightarrow> walk_loop k lru fuel r cieCache ee))
      else Ret (None, ee))"

definition frames_reader :: "File \<Rightarrow> elfRegion \<Rightarrow> bool \<Rightarrow> reader" where
  "frames_reader ef frames debugFrame =
     \<lparr>rd = s_Init (Some (f_elfReader ef)) (rg_offset frames) (rg_length frames), rd_machine = f_Machine ef,
      rd_debugFrame = debugFrame, rd_vaddr = rg_vaddr frames\<rparr>"

definition walkFDEs ::
  "'c lru \<Rightarrow> nat \<Rightarrow> elfExtractor \<Rightarrow> File \<Rightarrow> elfRegion \<Rightarrow> bool \<Rightarrow> (eh_error option \<times> elfExtractor) run" where
  "walkFDEs lru fuel ee ef frames debugFrame =
     walk_loop fuel lru fuel (frames_reader ef frames debugFrame) (lru_New lru) ee"

definition parseEHFrame :: "'c lru \<Rightarrow> nat \<Rightarrow> elfExtractor \<Rightarrow> (eh_error option \<times> elfExtractor) run" where
  "parseEHFrame lru fuel ee =
     run_bind (readEhframe (ee_file ee)) (\<lambda>(res, ef).
     let ee = ee\<lparr>ee_file := ef\<rparr> in
     case res of
       Inl e \<Rightarrow> Ret (Some e, ee)
     | Inr frames \<Rightarrow> if \<not> Valid frames then Ret (None, ee) else walkFDEs lru fuel ee ef frames False)"

text \<open>\<open>parseDebugFrame\<close> on the extractor's own file (\<open>None\<close>) or on a separate debug file.\<close>

definition parseDebugFrame ::
  "'c lru \<Rightarrow> nat \<Rightarrow> elfExtractor \<Rightarrow> File option \<Rightarrow> (eh_error option \<times> elfExtractor) run" where
  "parseDebugFrame lru fuel ee debugELF =
     run_bind (File_Section (case debugELF of None \<Rightarrow> ee_file ee | Some ef \<Rightarrow> ef) (bytes_of ''.debug_frame'')) (\<lambda>(s, ef).
     let ee = (case debugELF of None \<Rightarrow> ee\<lparr>ee_file := ef\<rparr> | Some _ \<Rightarrow> ee); debugFrames = elfRegionFromSection s
     in if \<not> Valid debugFrames then Ret (None, ee) else walkFDEs lru fuel ee ef debugFrames True)"

end
