(* ===== verification/DwarfProps.thy ===== *)
theory DwarfProps
  imports DwarfVM
begin

text \<open>
  Properties of the call-frame machine: LEB128 numbers and packed offsets are read back as written,
  the opcode loop keeps the machine well formed, does not panic and ends on a section that lies in the
  file, and the unwind information it yields has the shape the unwinder expects.
\<close>

section \<open>LEB128\<close>

text \<open>The DWARF encodings of unsigned and signed numbers.\<close>

fun uleb_enc :: "nat \<Rightarrow> u8 list" where
  "uleb_enc n = (if n < 128 then [of_nat n] else of_nat (n mod 128 + 128) # uleb_enc (n div 128))"

function sleb_enc :: "int \<Rightarrow> u8 list" where
  "sleb_enc i = (if - 64 \<le> i \<and> i < 64 then [of_int (i mod 128)] else of_int (i mod 128 + 128) # sleb_enc (i div 128))"
  by pat_completeness auto
termination
  by (relation "measure (\<lambda>i. nat (if i < 0 then - i else i))") auto

declare uleb_enc.simps [simp del] sleb_enc.simps [simp del]

lemma seven_bits_table:
  "list_all (\<lambda>k. (of_nat k :: u8) AND 0x7f = of_nat k \<and> (of_nat k :: u8) AND 0x80 = 0 \<and>
     (of_nat (k + 128) :: u8) AND 0x7f = of_nat k \<and> (of_nat (k + 128) :: u8) AND 0x80 \<noteq> 0 \<and>
     ((of_nat k :: u8) AND 0x40 \<noteq> 0 \<longleftrightarrow> 64 \<le> k) \<and>
     ucast (of_nat k :: u8) = (of_nat k :: u64)) [0..<128]"
  by code_simp

lemma seven_bits:
  assumes "k < 128"
  shows "(of_nat k :: u8) AND 0x7f = of_nat k" "(of_nat k :: u8) AND 0x80 = 0"
    "(of_nat (k + 128) :: u8) AND 0x7f = of_nat k" "(of_nat (k + 128) :: u8) AND 0x80 \<noteq> 0"
    "(of_nat k :: u8) AND 0x40 \<noteq> 0 \<longleftrightarrow> 64 \<le> k"
    "ucast (of_nat k :: u8) = (of_nat k :: u64)"
  using seven_bits_table assms unfolding list_all_iff by auto

lemma of_nat_split7: "(of_nat n :: u64) = of_nat (n mod 128) OR push_bit 7 (of_nat (n div 128))"
proof -
  have "n mod 128 = take_bit 7 n" "n div 128 = drop_bit 7 n"
    by (simp_all add: take_bit_eq_mod drop_bit_eq_div)
  then show ?thesis by (auto simp: bit_simps intro!: bit_word_eqI)
qed

lemma of_int_split7: "(of_int i :: u64) = of_int (i mod 128) OR push_bit 7 (of_int (i div 128))"
proof -
  have "i mod 128 = take_bit 7 i" "i div 128 = drop_bit 7 i"
    by (simp_all add: take_bit_eq_mod drop_bit_eq_div)
  then show ?thesis by (auto simp: bit_simps intro!: bit_word_eqI)
qed

lemma s_bytes_advance:
  assumes "0 \<le> s_cur s" "0 \<le> k" "k \<le> s_avail s"
  shows "s_bytes (s_advance s k) = drop (nat k) (s_bytes s)"
proof -
  have "s_avail (s_advance s k) = s_avail s - k" using assms(2,3) by (rule s_advance_avail)
  moreover have "nat (s_cur s + k) = nat k + nat (s_cur s)" using assms by simp
  ultimately show ?thesis
    using assms(2) by (simp add: s_bytes_def drop_take nat_diff_distrib' s_advance_def s_avail_nonneg)
qed

lemma s_Uint8_byte:
  assumes "s_bytes s = b # bs" "0 \<le> s_cur s"
  shows "s_Uint8 s = (b, s_advance s 1)" "s_bytes (s_advance s 1) = bs" "0 \<le> s_cur (s_advance s 1)"
proof -
  show "s_Uint8 s = (b, s_advance s 1)" using assms by (cases s rule: s_Uint8_cases) simp_all
  show "s_bytes (s_advance s 1) = bs"
    using s_bytes_avail [OF assms(1)] s_bytes_advance [OF assms(2), of 1] assms(1) by simp
  show "0 \<le> s_cur (s_advance s 1)" using assms(2) by (simp add: s_advance_def)
qed

lemma push_bit_split7:
  "push_bit k ((x :: u64) OR push_bit 7 y) = push_bit k x OR push_bit (k + 7) y"
  by (simp add: push_bit_or add.commute)

lemma uleb_loop_enc:
  assumes "s_bytes s = uleb_enc n @ rest" "0 \<le> s_cur s"
  shows "uleb_loop s k val = (val OR push_bit k (of_nat n), s_advance s (int (length (uleb_enc n))))"
  using assms
proof (induction n arbitrary: s k val rule: uleb_enc.induct)
  case (1 n)
  show ?case
  proof (cases "n < 128")
    case True
    with 1 have "s_bytes s = of_nat n # rest" by (simp add: uleb_enc.simps [of n])
    from s_Uint8_byte [OF this "1.prems"(2)] True show ?thesis
      by (subst uleb_loop.simps) (simp add: seven_bits uleb_enc.simps [of n])
  next
    case False
    let ?b = "of_nat (n mod 128 + 128) :: u8"
    have bytes: "s_bytes s = ?b # (uleb_enc (n div 128) @ rest)"
      using "1.prems"(1) False by (simp add: uleb_enc.simps [of n])
    note u = s_Uint8_byte [OF bytes "1.prems"(2)]
    have lt: "n mod 128 < 128" by simp
    have "uleb_loop s k val = uleb_loop (s_advance s 1) (k + 7) (val OR push_bit k (of_nat (n mod 128)))"
      using seven_bits(3,4,6) [OF lt] by (subst uleb_loop.simps) (simp only: u(1) Let_def prod.case if_True simp_thms)
    also have "\<dots> = ((val OR push_bit k (of_nat (n mod 128))) OR push_bit (k + 7) (of_nat (n div 128)),
        s_advance (s_advance s 1) (int (length (uleb_enc (n div 128)))))"
      by (rule "1.IH" [OF False u(2,3)])
    also have "(val OR push_bit k (of_nat (n mod 128))) OR push_bit (k + 7) (of_nat (n div 128)) = val OR push_bit k (of_nat n)"
      by (subst of_nat_split7 [of n]) (simp only: push_bit_split7 ac_simps)
    finally show ?thesis using False by (simp add: uleb_enc.simps [of n])
  qed
qed

lemma sleb_last:
  assumes "- 64 \<le> i" "i < 64"
  shows "(of_int i :: u64) = of_int (i mod 128) OR (if 64 \<le> i mod 128 then push_bit 7 (- 1) else 0)"
proof -
  have "i div 128 = (if i < 0 then - 1 else 0)" using assms by auto
  moreover have "i < 0 \<longleftrightarrow> 64 \<le> i mod 128" using assms by (auto simp: zmod_trivial_iff) presburger+
  ultimately show ?thesis by (subst of_int_split7) simp
qed

lemma sleb_loop_enc:
  assumes "s_bytes s = sleb_enc i @ rest" "0 \<le> s_cur s"
  shows "sleb_loop s k val = (val OR push_bit k (of_int i), s_advance s (int (length (sleb_enc i))))"
  using assms
proof (induction i arbitrary: s k val rule: sleb_enc.induct)
  case (1 i)
  define m where "m = nat (i mod 128)"
  have m: "m < 128" "i mod 128 = int m" by (simp_all add: m_def)
  show ?case
  proof (cases "- 64 \<le> i \<and> i < 64")
    case True
    with 1 have "s_bytes s = of_nat m # rest" by (simp add: sleb_enc.simps [of i] m)
    note u = s_Uint8_byte [OF this "1.prems"(2)]
    have i: "(of_int i :: u64) = of_nat m OR push_bit 7 (if 64 \<le> m then - 1 else 0)"
      using sleb_last [of i] True m(2) by (cases "64 \<le> m") (simp_all only: if_True if_False of_int_of_nat_eq zle_int push_bit_of_0, auto)
    have "push_bit k (of_int i :: u64) = push_bit k (of_nat m) OR push_bit (k + 7) (if 64 \<le> m then - 1 else 0)"
      unfolding i by (rule push_bit_split7)
    then show ?thesis
      using True seven_bits [OF m(1)]
      by (subst sleb_loop.simps) (cases "64 \<le> m"; simp add: u(1) Let_def sleb_enc.simps [of i] or.assoc)
  next
    case False
    let ?b = "of_nat (m + 128) :: u8"
    have bytes: "s_bytes s = ?b # (sleb_enc (i div 128) @ rest)"
      using "1.prems"(1) False by (simp add: sleb_enc.simps [of i] m)
    note u = s_Uint8_byte [OF bytes "1.prems"(2)]
    have "sleb_loop s k val = sleb_loop (s_advance s 1) (k + 7) (val OR push_bit k (of_nat m))"
      using seven_bits(3,4,6) [OF m(1)] by (subst sleb_loop.simps) (simp only: u(1) Let_def prod.case if_True simp_thms)
    also have "\<dots> = ((val OR push_bit k (of_nat m)) OR push_bit (k + 7) (of_int (i div 128)),
        s_advance (s_advance s 1) (int (length (sleb_enc (i div 128)))))"
      by (rule "1.IH" [OF False u(2,3)])
    also have "(val OR push_bit k (of_nat m)) OR push_bit (k + 7) (of_int (i div 128)) = val OR push_bit k (of_int i)"
      by (subst of_int_split7 [of i]) (simp only: push_bit_split7 ac_simps m of_int_of_nat_eq)
    finally show ?thesis using False by (auto simp: sleb_enc.simps [of i])
  qed
qed

section \<open>Sections and moves\<close>

lemma expression_loop_moves: "rd_moves r (snd (expression_loop r expr))"
proof (induction r expr rule: expression_loop.induct)
  case (1 r expr)
  obtain x r' where x: "expression_op r = (x, r')" by fastforce
  note m = expression_op_moves(1) [OF x]
  show ?case
  proof (cases "rd_Remaining r > 0")
    case False
    then show ?thesis by (subst expression_loop.simps) simp
  next
    case True
    show ?thesis
    proof (cases x)
      case (Inl e)
      with x True m show ?thesis by (subst expression_loop.simps) simp
    next
      case (Inr e)
      with x True have "expression_loop r expr = expression_loop r' (expr @ [e])"
        by (subst expression_loop.simps) simp
      moreover have "rd_moves r' (snd (expression_loop r' (expr @ [e])))"
        by (rule "1.IH" [OF True]) (use x Inr in auto)
      ultimately show ?thesis using m by (auto intro: rd_moves_trans)
    qed
  qed
qed

text \<open>A section that is opened, read in and closed is a move of the enclosing one.\<close>

lemma section_moves:
  assumes start: "s_StartSection s n = (None, s1)" and m: "s_moves s1 s2"
  shows "\<exists>s3. s_EndSection s2 = Ret s3 \<and> s_moves s s3"
proof -
  have n: "0 \<le> n" "n \<le> s_Remaining s" and s1: "s1 = s\<lparr>s_ends := s_ends s @ [s_slimit s], s_slimit := s_cur s + n\<rparr>"
    using start by (auto simp: s_StartSection_def split: if_splits)
  define s2' where "s2' = (if s_Remaining s2 > 0 then snd (s_Discard s2 (s_Remaining s2)) else s2)"
  have "s_moves s1 s2'" using m s_Discard_moves s_moves_trans unfolding s2'_def by auto
  then obtain k where k: "0 \<le> k" "k \<le> s_avail s1" "s2' = s_advance s1 k" by (auto simp: s_moves_def)
  have "s_ends s2 = s_ends s @ [s_slimit s]" using m s1 by (auto simp: s_moves_def s_advance_def)
  then have "s_EndSection s2 = Ret (s2'\<lparr>s_slimit := s_slimit s, s_ends := s_ends s\<rparr>)"
    by (simp add: s_EndSection_def s2'_def Let_def)
  also have "s2'\<lparr>s_slimit := s_slimit s, s_ends := s_ends s\<rparr> = s_advance s k"
    by (simp add: k(3) s1 s_advance_def)
  finally have "s_EndSection s2 = Ret (s_advance s k)" .
  moreover have "s_avail s1 \<le> s_avail s"
    using n by (auto simp: s1 s_avail_def s_Remaining_def)
  then have "s_moves s (s_advance s k)" using k by (intro s_movesI) auto
  ultimately show ?thesis by blast
qed

lemma rd_section_moves:
  assumes "rd_StartSection r n = (None, r1)" "rd_moves r1 r2"
  shows "\<exists>r3. rd_EndSection r2 = Ret r3 \<and> rd_moves r r3"
proof -
  obtain s1 where s1: "s_StartSection (rd r) n = (None, s1)" "r1 = r\<lparr>rd := s1\<rparr>"
    using assms(1) by (auto simp: rd_StartSection_def on_rd_def split: prod.splits)
  obtain s2 where s2: "s_moves s1 s2" "r2 = r\<lparr>rd := s2\<rparr>"
    using assms(2) s1(2) by (auto simp: rd_moves_def)
  obtain s3 where "s_EndSection s2 = Ret s3" "s_moves (rd r) s3" using section_moves [OF s1(1) s2(1)] by blast
  then show ?thesis by (auto simp: rd_EndSection_def s2(2) rd_moves_def)
qed

lemma rd_StartSection_error: "rd_StartSection r n = (Some e, r1) \<Longrightarrow> r1 = r"
  by (auto simp: rd_StartSection_def on_rd_def s_StartSection_def split: if_splits prod.splits)

lemma expression_returns:
  "\<exists>res r'. expression r = Ret (res, r') \<and> rd_moves r r'"
proof -
  obtain n r1 where u: "uleb r = (n, r1)" by fastforce
  obtain err r2 where st: "rd_StartSection r1 (sint n) = (err, r2)" by fastforce
  note m1 = rd_read_moves(1) [OF u]
  show ?thesis
  proof (cases err)
    case (Some e)
    with st have "r2 = r1" by (auto dest: rd_StartSection_error)
    with u st Some m1 show ?thesis by (simp add: expression_def)
  next
    case None
    obtain res r3 where l: "expression_loop r2 [] = (res, r3)" by fastforce
    then have "rd_moves r2 r3" using expression_loop_moves [of r2 "[]"] by simp
    then obtain r4 where "rd_EndSection r3 = Ret r4" "rd_moves r1 r4"
      using rd_section_moves [of r1 "sint n" r2 r3] st None by blast
    with u st None l m1 show ?thesis by (auto simp: expression_def intro: rd_moves_trans)
  qed
qed

lemma ptr_moves: "ptr r enc = (x, r') \<Longrightarrow> rd_moves r r'"
proof -
  have pv: "ptr_value enc r = (v, r1) \<Longrightarrow> rd_moves r r1" for v r1
    by (auto simp: ptr_value_def Let_def split: if_splits prod.splits dest: rd_read_moves)
  assume "ptr r enc = (x, r')"
  then show ?thesis
    by (auto simp: ptr_def Let_def split: if_splits prod.splits option.splits dest: pv)
qed

section \<open>The machine stays well formed\<close>

text \<open>
  All register states have the machine's architecture, and the stack has room for two states of which
  \<open>stackNdx\<close> are in use.
\<close>

definition vm_ok :: "u16 \<Rightarrow> vm_state \<Rightarrow> bool" where
  "vm_ok a st \<longleftrightarrow> (a = EM_X86_64 \<or> a = EM_AARCH64) \<and> vm_arch (st_cur st) = a \<and>
     vm_arch (initialState (st_cie st)) = a \<and> length (st_stack st) = 2 \<and> st_stackNdx st \<le> 2 \<and>
     (\<forall>i < st_stackNdx st. vm_arch (st_stack st ! i) = a)"

lemma set_slot_arch [simp]: "vm_arch (set_slot sl x regs) = vm_arch regs"
  by (cases sl) simp_all

lemma vm_ok_cur:
  "vm_ok a st \<Longrightarrow> vm_arch regs = a \<Longrightarrow> vm_ok a (st\<lparr>st_cur := regs\<rparr>)"
  by (simp add: vm_ok_def)

lemma vm_ok_loc: "vm_ok a st \<Longrightarrow> vm_ok a (st\<lparr>st_loc := l\<rparr>)" "vm_ok a st \<Longrightarrow> vm_ok a (advance st d)"
  by (simp_all add: vm_ok_def advance_def)

lemma rule_op_ok [intro]: "vm_ok a st \<Longrightarrow> vm_ok a (rule_op st reg base off)"
  by (auto simp: rule_op_def vm_ok_def split: option.splits)

lemma set_cfa_ok [intro]: "vm_ok a st \<Longrightarrow> vm_ok a (set_cfa f st)"
  by (simp add: set_cfa_def vm_ok_def)

lemma restore_op_ok:
  assumes "vm_ok a st"
  shows "\<exists>st'. restore_op st reg = Ret st' \<and> vm_ok a st'"
  using assms by (auto simp: restore_op_def vm_ok_def vmRegs_reg_def split: option.splits)

lemma step_rule_ok:
  assumes "step_rule opc operand st r = Some (st', r')" "vm_ok a st"
  shows "vm_ok a st' \<and> rd_moves r r'"
proof -
  have two: "uleb r = (x, r1) \<Longrightarrow> uleb r1 = (y, r2) \<Longrightarrow> rd_moves r r2"
    "uleb r = (x, r1) \<Longrightarrow> sleb r1 = (y, r2) \<Longrightarrow> rd_moves r r2"
    "uleb r = (x, r1) \<Longrightarrow> uleb r1 = (y, r2) \<Longrightarrow> rd_moves r (rd_Discard r2 n)" for x y r1 r2 n
    by (meson rd_moves_trans rd_read_moves rd_Discard_moves)+
  show ?thesis
    using assms unfolding step_rule_def Let_def
    by (auto split: if_splits prod.splits intro: two rd_read_moves)
qed

lemma step_loc_ok:
  assumes "step_loc opc operand st r = Some (err, st', r')" "vm_ok a st"
  shows "vm_ok a st' \<and> rd_moves r r'"
  using assms unfolding step_loc_def Let_def
  by (auto split: if_splits prod.splits intro: rd_read_moves ptr_moves vm_ok_loc)

lemma step_state_ok:
  assumes ok: "vm_ok a st"
  shows "\<exists>out st' r'. step_state opc operand st r = Ret (out, st', r') \<and> vm_ok a st' \<and> rd_moves r r'"
proof -
  consider (restore) "opc = cfaRestoreExtended" | (remember) "opc = cfaRememberState" | (pop) "opc = cfaRestoreState"
    | (cfa) "opc = cfaDefCfaExpression" | (expr) "opc = cfaExpression" | (restore') "opc = cfaRestore"
    | (bad) "opc \<notin> {cfaRestoreExtended, cfaRememberState, cfaRestoreState, cfaDefCfaExpression, cfaExpression, cfaRestore}"
    by blast
  then show ?thesis
  proof cases
    case restore
    obtain reg r1 where u: "uleb r = (reg, r1)" by fastforce
    with restore restore_op_ok [OF ok, of reg] rd_read_moves(1) [OF u] show ?thesis
      by (auto simp: step_state_def)
  next
    case remember
    with ok show ?thesis
      by (auto simp: step_state_def vm_ok_def nth_list_update less_Suc_eq)
  next
    case pop
    with ok show ?thesis by (auto simp: step_state_def vm_ok_def)
  next
    case cfa
    obtain res r1 where "expression r = Ret (res, r1)" "rd_moves r r1" using expression_returns by blast
    with cfa ok show ?thesis by (cases res) (auto simp: step_state_def)
  next
    case expr
    obtain reg r1 where u: "uleb r = (reg, r1)" by fastforce
    obtain res r2 where "expression r1 = Ret (res, r2)" "rd_moves r1 r2" using expression_returns by blast
    with expr u ok rd_read_moves(1) [OF u] show ?thesis
      by (cases res; cases "vmRegs_reg (st_cur st) reg")
        (auto simp: step_state_def vm_ok_def intro: rd_moves_trans)
  next
    case restore'
    with restore_op_ok [OF ok] show ?thesis by (fastforce simp: step_state_def)
  next
    case bad
    with ok show ?thesis by (simp add: step_state_def)
  qed
qed

lemma step_body_ok:
  assumes ok: "vm_ok a st"
  shows "\<exists>out st' r' b r1. step_body st r = Ret (out, st', r') \<and> vm_ok a st' \<and>
    rd_Uint8 r = (b, r1) \<and> rd_moves r1 r'"
proof -
  obtain b r1 where b: "rd_Uint8 r = (b, r1)" by fastforce
  define opc where "opc = (if b AND cfaHighOpcodeMask \<noteq> 0 then b AND cfaHighOpcodeMask else b)"
  define operand where "operand = (if b AND cfaHighOpcodeMask \<noteq> 0 then b AND cfaHighOpcodeValueMask else 0)"
  have body: "step_body st r = (case step_loc opc operand st r1 of
      Some (err, st, r) \<Rightarrow> Ret (Done err, st, r)
    | None \<Rightarrow> (case step_rule opc operand st r1 of Some (st, r) \<Rightarrow> next_op st r | None \<Rightarrow> step_state opc operand st r1))"
    by (simp only: step_body_def b opc_def operand_def Let_def prod.case)
  show ?thesis
    using b step_loc_ok [of opc operand st r1 _ _ _ a] step_rule_ok [of opc operand st r1 _ _ a]
      step_state_ok [OF ok, of opc operand r1] ok
    by (auto simp: body split: option.splits prod.splits)
qed

section \<open>The loop ends\<close>

text \<open>The current section lies in the file.\<close>

definition rd_in_file :: "reader \<Rightarrow> bool" where
  "rd_in_file r \<longleftrightarrow> 0 \<le> s_cur (rd r) \<and> s_slimit (rd r) \<le> int (length (content (s_source (rd r))))"

lemma rd_moves_in_file: "rd_moves r r' \<Longrightarrow> rd_in_file r \<Longrightarrow> rd_in_file r'"
  by (auto simp: rd_moves_def s_moves_def s_advance_def rd_in_file_def)

lemma in_file_byte:
  assumes "rd_in_file r" "rd_Remaining r > 0" "rd_Uint8 r = (b, r1)"
  shows "rd_avail r1 < rd_avail r"
proof -
  have a: "0 < s_avail (rd r)" using assms(1,2) by (auto simp: rd_in_file_def rd_Remaining_def s_Remaining_def s_avail_def)
  then have "length (s_bytes (rd r)) \<noteq> 0" using assms(1) by (simp add: length_s_bytes rd_in_file_def)
  then show ?thesis
    using assms(3) by (cases "rd r" rule: s_Uint8_cases) (auto simp: rd_Uint8_def on_rd_def)
qed

lemma step_returns:
  assumes "vm_ok a st" "rd_in_file r" "nat (rd_avail r) < fuel"
  shows "\<exists>err st' r'. step fuel st r = Ret (err, st', r') \<and> vm_ok a st' \<and> rd_moves r r' \<and>
    (rd_Remaining r > 0 \<longrightarrow> rd_avail r' < rd_avail r)"
  using assms
proof (induction fuel arbitrary: st r)
  case (Suc fuel)
  show ?case
  proof (cases "rd_Remaining r > 0")
    case False
    with Suc.prems show ?thesis by auto
  next
    case True
    obtain out st1 r1 b r0 where body: "step_body st r = Ret (out, st1, r1)" "vm_ok a st1"
      "rd_Uint8 r = (b, r0)" "rd_moves r0 r1" using step_body_ok [OF Suc.prems(1)] by blast
    have m: "rd_moves r r1" using rd_read_moves(3) [OF body(3)] body(4) by (rule rd_moves_trans)
    have less: "rd_avail r1 < rd_avail r"
      using in_file_byte [OF Suc.prems(2) True body(3)] rd_moves_avail [OF body(4)] by linarith
    show ?thesis
    proof (cases out)
      case (Done err)
      with body(1,2) True m less show ?thesis by auto
    next
      case Next
      have "nat (rd_avail r1) < fuel" using Suc.prems(3) less s_avail_nonneg [of "rd r1"] by linarith
      then obtain err st' r' where step: "step fuel st1 r1 = Ret (err, st', r')" "vm_ok a st'" "rd_moves r1 r'"
        using Suc.IH [OF body(2) rd_moves_in_file [OF m Suc.prems(2)]] by blast
      with Next body(1) True less m rd_moves_avail [OF step(3)] show ?thesis
        by (auto intro: rd_moves_trans)
    qed
  qed
qed simp

lemma step_diverges:
  assumes "rd_Remaining r > 0" "s_bytes (rd r) = []"
  shows "step fuel st r = Loop"
proof -
  have "rd_Uint8 r = (0, r)"
    using assms(2) by (cases "rd r" rule: s_Uint8_cases) (auto simp: rd_Uint8_def on_rd_def)
  then have "step_body st r = Ret (Next, st, r)"
    by (simp add: step_body_def step_loc_def step_rule_def)
  then show ?thesis using assms(1) by (induction fuel) simp_all
qed

section \<open>Packed offsets\<close>

lemma makeOff_or:
  "makeOff a b c d = push_bit 48 (ucast a) OR push_bit 32 (ucast b) OR push_bit 16 (ucast c) OR ucast d"
proof -
  have "push_bit 48 (ucast a :: u64) AND push_bit 32 (ucast b) = 0"
    by (rule bit_word_eqI) (auto simp: bit_simps dest!: bit_imp_le_length)
  moreover have "(push_bit 48 (ucast a :: u64) OR push_bit 32 (ucast b)) AND push_bit 16 (ucast c) = 0"
    by (rule bit_word_eqI) (auto simp: bit_simps dest!: bit_imp_le_length)
  moreover have "(push_bit 48 (ucast a :: u64) OR push_bit 32 (ucast b) OR push_bit 16 (ucast c)) AND ucast d = 0"
    by (rule bit_word_eqI) (auto simp: bit_simps dest!: bit_imp_le_length)
  ultimately show ?thesis
    unfolding makeOff_def by (simp only: disjunctive_add_eq_or or.assoc)
qed

lemma splitOff_makeOff: "splitOff (makeOff a b c d) = (a, b, c, d)"
  unfolding makeOff_or splitOff_def prod.inject
  by (intro conjI; rule bit_word_eqI; auto simp: bit_simps dest: bit_imp_le_length)

section \<open>Register files\<close>

text \<open>
  What the machine relies on in an architecture's register table: two DWARF register numbers never
  name the same tracked register.  Then a rule for one register leaves the rules of the others alone.
\<close>

locale register_file =
  fixes lookup :: "uleb128 \<Rightarrow> regslot option" and machine :: u16
  assumes lookup_inj: "lookup i = Some sl \<Longrightarrow> lookup j = Some sl \<Longrightarrow> i = j"
    and dispatch: "vm_arch regs = machine \<Longrightarrow> vmRegs_reg regs n = lookup n"
begin

lemma slots_differ: "lookup i = Some sl \<Longrightarrow> lookup j = Some sl' \<Longrightarrow> i \<noteq> j \<Longrightarrow> sl \<noteq> sl'"
  using lookup_inj by blast

lemma rule_op_other:
  assumes "vm_arch (st_cur st) = machine" "lookup j = Some sl" "i \<noteq> j"
  shows "get_slot sl (st_cur (rule_op st i base off)) = get_slot sl (st_cur st)"
proof (cases "lookup i")
  case None
  with assms show ?thesis by (simp add: rule_op_def dispatch)
next
  case (Some sl')
  then have "sl' \<noteq> sl" using assms slots_differ by metis
  with Some assms show ?thesis by (cases sl; cases sl') (simp_all add: rule_op_def dispatch)
qed

lemma rule_op_same:
  assumes "vm_arch (st_cur st) = machine" "lookup i = Some sl"
  shows "vr_reg (get_slot sl (st_cur (rule_op st i base off))) = base"
    "vr_off (get_slot sl (st_cur (rule_op st i base off))) = off * dataAlign (st_cie st)"
  using assms by (cases sl; simp add: rule_op_def dispatch)+

lemma rule_op_cfa: "vm_cfa (st_cur (rule_op st i base off)) = vm_cfa (st_cur st)"
proof -
  have "vm_cfa (set_slot sl x regs) = vm_cfa regs" for sl x regs by (cases sl) simp_all
  then show ?thesis by (simp add: rule_op_def split: option.splits)
qed

end

interpretation x86_regs: register_file regX86 EM_X86_64
  by unfold_locales (auto simp: regX86_def vmRegs_reg_def split: if_splits)

interpretation arm_regs: register_file regARM EM_AARCH64
  by unfold_locales (auto simp: regARM_def vmRegs_reg_def split: if_splits)

section \<open>Unwind information\<close>

lemma UnwindInfo_command_flags:
  "Flags UnwindInfoInvalid = 1" "Flags UnwindInfoStop = 1"
  by (simp_all add: UnwindInfo_defs)

definition x86_bases :: "u8 set" where
  "x86_bases = {UnwindRegFp, UnwindRegSp, UnwindRegX86RAX, UnwindRegX86R9, UnwindRegX86R11, UnwindRegX86R15}"

lemma x86_fp_info_keeps: "BaseReg (x86_fp_info regs info) = BaseReg info" "Flags (x86_fp_info regs info) = Flags info"
  by (simp_all add: x86_fp_info_def Let_def split: prod.splits)

lemma x86_cfa_info_base:
  "BaseReg info = 0 \<Longrightarrow> BaseReg (x86_cfa_info regs info) \<in> insert 0 x86_bases"
proof -
  assume z: "BaseReg info = 0"
  let ?reg = "vr_reg (vm_cfa regs)"
  have g: "getUnwinderRegX86 6 = 4" "getUnwinderRegX86 7 = 3" "getUnwinderRegX86 0 = 6" "getUnwinderRegX86 9 = 9"
    "getUnwinderRegX86 11 = 10" "getUnwinderRegX86 15 = 12" by (simp_all add: getUnwinderRegX86_def)
  consider "?reg = 6" | "?reg = 7" | "?reg = 0" | "?reg = 9" | "?reg = 11" | "?reg = 15" | "?reg = 256" | "?reg = 257"
    | "?reg \<notin> {6, 7, 0, 9, 11, 15, 256, 257}" by blast
  then show ?thesis
    unfolding x86_cfa_info_def Let_def x86_bases_def by cases (use z in \<open>auto simp: g split: prod.splits\<close>)
qed

lemma x86_bases_nibble: "b \<in> x86_bases \<Longrightarrow> (b OR push_bit 4 q) AND 15 = b"
proof -
  assume b: "b \<in> x86_bases"
  have "(push_bit 4 q :: u8) AND mask 4 = 0" by (rule bit_word_eqI) (auto simp: bit_simps)
  moreover have "(15 :: u8) = mask 4" by (simp add: mask_eq_exp_minus_1)
  ultimately have "push_bit 4 q AND (15 :: u8) = 0" by simp
  with b show ?thesis by (auto simp: bit.conj_disj_distrib2 x86_bases_def)
qed

lemma getUnwindInfoX86_shape:
  "Flags (getUnwindInfoX86 regs) AND UnwindFlagCommand \<noteq> 0 \<or> BaseReg (getUnwindInfoX86 regs) AND 15 \<in> x86_bases"
proof -
  define raReg where "raReg = getUnwinderRegX86 (vr_reg (vm_ra regs))"
  define i0 where "i0 = (if (raReg \<noteq> 0 \<and> raReg \<noteq> 1) \<and> raReg \<noteq> 4 \<and> raReg \<noteq> 3 then zero_UnwindInfo\<lparr>Flags := 4\<rparr> else zero_UnwindInfo)"
  define i1 where "i1 = x86_cfa_info regs (x86_fp_info regs i0)"
  have "BaseReg i1 \<in> insert 0 x86_bases"
    unfolding i1_def by (rule x86_cfa_info_base) (simp add: x86_fp_info_keeps i0_def zero_UnwindInfo_def)
  moreover have "getUnwindInfoX86 regs = UnwindInfoStop \<or> getUnwindInfoX86 regs = UnwindInfoInvalid \<or>
      \<not> (Flags i1 AND 1 = 0 \<and> BaseReg i1 = 0) \<and>
      (getUnwindInfoX86 regs = i1 \<or> getUnwindInfoX86 regs = i1\<lparr>BaseReg := BaseReg i1 OR push_bit 4 raReg\<rparr>)"
    unfolding getUnwindInfoX86_def Let_def raReg_def [symmetric] i0_def [symmetric] i1_def [symmetric] by auto
  ultimately show ?thesis
    using x86_bases_nibble [of "BaseReg i1" raReg] x86_bases_nibble [of "BaseReg i1" 0]
    by (auto simp: UnwindInfo_command_flags)
qed

lemma getUnwindInfo_leaf:
  assumes "getUnwindInfo regs False = Ret info"
  shows "Flags info AND UnwindFlagLeafOnly = 0"
  using assms by (auto simp: getUnwindInfo_def UnwindInfo_command_flags split: if_splits)

section \<open>Properties\<close>

text \<open>A reader at the start of some bytes, and a CIE, for the examples.\<close>

definition example_reader :: "u8 list \<Rightarrow> int \<Rightarrow> reader" where
  "example_reader bs len = \<lparr>rd = s_Init (Some bs) 0 len, rd_machine = EM_X86_64, rd_debugFrame = False, rd_vaddr = 0\<rparr>"

definition example_cie :: cieInfo where
  "example_cie = \<lparr>dataAlign = - 8, codeAlign = 1, regRA = 16, cie_enc = 0, ldsaEnc = 0, hasAugmentation = False,
     isSignalHandler = False, initialState = newVMRegsX86\<rparr>"

lemma example_reader_in_file [simp]:
  "0 \<le> s_cur (rd (example_reader bs len))"
  "rd_in_file (example_reader bs (int (length bs))) \<longleftrightarrow> int64 (int (length bs)) \<le> int (length bs)"
  by (simp_all add: example_reader_def s_Init_def rd_in_file_def content_def)

lemma example_vm_ok [simp]: "vm_ok EM_X86_64 (new_state example_cie newVMRegsX86)"
  by (simp add: vm_ok_def new_state_def example_cie_def newVMRegsX86_def Let_def)

text \<open>
  C28: An unsigned or signed LEB128 number at the reader's position is read back as the number it encodes
  (modulo 64 bits, however long the encoding is), and the reader then stands behind it.
\<close>

theorem leb128_roundtrip:
  assumes "0 \<le> s_cur (rd r)"
  shows "(s_bytes (rd r) = uleb_enc n @ rest \<longrightarrow>
      uleb r = (of_nat n, r\<lparr>rd := s_advance (rd r) (int (length (uleb_enc n)))\<rparr>)) \<and>
    (s_bytes (rd r) = sleb_enc i @ rest \<longrightarrow>
      sleb r = (of_int i, r\<lparr>rd := s_advance (rd r) (int (length (sleb_enc i)))\<rparr>))"
  using uleb_loop_enc [OF _ assms, of n rest 0 0] sleb_loop_enc [OF _ assms, of i rest 0 0]
  by (simp add: uleb_def sleb_def on_rd_def)

theorem leb128_roundtrip_witness:
  "fst (uleb (example_reader [0xac, 0x02, 0x01] 3)) = 300 \<and> fst (sleb (example_reader [0x80, 0x7f, 0x01] 3)) = - 128"
proof -
  let ?r = "example_reader [0xac, 0x02, 0x01] 3" and ?q = "example_reader [0x80, 0x7f, 0x01] 3"
  have "s_bytes (rd ?r) = [0xac, 0x02] @ [1]" "s_bytes (rd ?q) = [0x80, 0x7f] @ [1]" by code_simp+
  moreover have "uleb_enc 300 = [0xac, 0x02]" by (simp add: uleb_enc.simps)
  moreover have "sleb_enc (- 128) = [0x80, 0x7f]" by (simp add: sleb_enc.simps)
  ultimately show ?thesis
    using leb128_roundtrip [of ?r 300 "[1]"] leb128_roundtrip [of ?q _ "[1]" "- 128"] by simp
qed

text \<open>
  C6: On a section that lies in the file, one step of the call-frame machine returns: with fuel for each
  byte at hand it does not run out, it does not panic, it keeps the machine well formed, it only moves the
  position forward inside the section, and it consumes at least one byte when there is one.
\<close>

theorem step_terminates:
  assumes "vm_ok a st" and "rd_in_file r" and "nat (s_avail (rd r)) < fuel"
  shows "\<exists>err st' r'. step fuel st r = Ret (err, st', r') \<and> vm_ok a st' \<and> rd_moves r r' \<and>
    (rd_Remaining r > 0 \<longrightarrow> s_avail (rd r') < s_avail (rd r))"
  using assms by (rule step_returns)

theorem step_terminates_witness:
  "\<exists>err st' r'. step 4 (new_state example_cie newVMRegsX86) (example_reader [0x0c, 7, 8] 3) = Ret (err, st', r') \<and>
     vm_ok EM_X86_64 st' \<and> rd_moves (example_reader [0x0c, 7, 8] 3) r' \<and>
     (rd_Remaining (example_reader [0x0c, 7, 8] 3) > 0 \<longrightarrow>
        s_avail (rd r') < s_avail (rd (example_reader [0x0c, 7, 8] 3)))"
proof (rule step_terminates [OF example_vm_ok])
  show "rd_in_file (example_reader [0x0c, 7, 8] 3)" by code_simp
  show "nat (s_avail (rd (example_reader [0x0c, 7, 8] 3))) < 4" by code_simp
qed

text \<open>
  C12: On a section that extends past the end of the file, a step that reaches the end of the file does not
  return: the missing bytes read as no-operations and the remaining length never shrinks.
\<close>

theorem step_truncated_diverges:
  assumes "rd_Remaining r > 0" and "s_bytes (rd r) = []"
  shows "step fuel st r = Loop"
  using assms by (rule step_diverges)

theorem step_truncated_diverges_witness:
  "rd_Remaining (example_reader [] 8) = 8 \<and>
   step 1000 (new_state example_cie newVMRegsX86) (example_reader [] 8) = Loop"
proof -
  have "rd_Remaining (example_reader [] 8) = 8" "s_bytes (rd (example_reader [] 8)) = []" by code_simp+
  with step_truncated_diverges [of "example_reader [] 8" 1000] show ?thesis by simp
qed

text \<open>
  C33: On both architectures a rule for one DWARF register leaves the rule of every other tracked register,
  and the CFA, as they were.
\<close>

theorem rule_keeps_others:
  assumes "vm_arch (st_cur st) = EM_X86_64 \<or> vm_arch (st_cur st) = EM_AARCH64"
    and "vmRegs_reg (st_cur st) j = Some sl" and "i \<noteq> j"
  shows "get_slot sl (st_cur (rule_op st i base off)) = get_slot sl (st_cur st) \<and>
    vm_cfa (st_cur (rule_op st i base off)) = vm_cfa (st_cur st)"
  using assms(1)
proof
  assume a: "vm_arch (st_cur st) = EM_X86_64"
  with assms(2) have "regX86 j = Some sl" by (simp add: x86_regs.dispatch)
  then show ?thesis using x86_regs.rule_op_other [OF a _ assms(3)] x86_regs.rule_op_cfa by simp
next
  assume a: "vm_arch (st_cur st) = EM_AARCH64"
  with assms(2) have "regARM j = Some sl" by (simp add: arm_regs.dispatch)
  then show ?thesis using arm_regs.rule_op_other [OF a _ assms(3)] arm_regs.rule_op_cfa by simp
qed

theorem rule_keeps_others_witness:
  "vm_fp (st_cur (rule_op (new_state example_cie newVMRegsX86) 16 129 1)) = vm_fp newVMRegsX86 \<and>
   vm_ra (st_cur (rule_op (new_state example_cie newVMRegsX86) 16 129 1)) \<noteq> vm_ra newVMRegsX86"
proof -
  let ?st = "new_state example_cie newVMRegsX86"
  have "vm_arch (st_cur ?st) = EM_X86_64 \<or> vm_arch (st_cur ?st) = EM_AARCH64"
    "vmRegs_reg (st_cur ?st) 6 = Some SlotFP" by code_simp+
  from rule_keeps_others [OF this, of 16 129 1] have "vm_fp (st_cur (rule_op ?st 16 129 1)) = vm_fp (st_cur ?st)" by simp
  moreover have "vm_ra (st_cur (rule_op ?st 16 129 1)) \<noteq> vm_ra newVMRegsX86" by code_simp
  ultimately show ?thesis by (simp add: new_state_def)
qed

text \<open>
  The four 16-bit parameters packed into a rule's offset are the ones unpacked from it.
\<close>

theorem makeOff_roundtrip: "splitOff (makeOff a b c d) = (a, b, c, d)"
  by (rule splitOff_makeOff)

text \<open>
  C29: Unwind information computed without generic registers never carries the leaf-only flag; on x86-64 it
  is always a command or has a supported base register, so the unwinder never sees an undefined base.
\<close>

theorem getUnwindInfo_shape:
  assumes "getUnwindInfo regs allow = Ret info"
  shows "(allow \<or> Flags info AND UnwindFlagLeafOnly = 0) \<and>
    (vm_arch regs = EM_X86_64 \<longrightarrow> Flags info AND UnwindFlagCommand \<noteq> 0 \<or> BaseReg info AND 15 \<in> x86_bases)"
proof -
  have "allow \<or> Flags info AND UnwindFlagLeafOnly = 0"
    using assms getUnwindInfo_leaf [of regs info] by (cases allow) auto
  moreover have "vm_arch regs = EM_X86_64 \<Longrightarrow> info = getUnwindInfoX86 regs \<or> info = UnwindInfoInvalid"
    using assms by (auto simp: getUnwindInfo_def split: if_splits)
  ultimately show ?thesis using getUnwindInfoX86_shape [of regs] by (auto simp: UnwindInfo_command_flags)
qed

theorem getUnwindInfo_shape_witness:
  "getUnwindInfo (newVMRegsX86\<lparr>vm_cfa := \<lparr>vr_arch = EM_X86_64, vr_reg = 7, vr_off = 16\<rparr>,
     vm_ra := \<lparr>vr_arch = EM_X86_64, vr_reg = 129, vr_off = - 8\<rparr>\<rparr>) False =
     Ret (zero_UnwindInfo\<lparr>BaseReg := UnwindRegSp, Param := 16\<rparr>) \<and> UnwindRegSp AND 15 \<in> x86_bases"
proof -
  let ?regs = "newVMRegsX86\<lparr>vm_cfa := \<lparr>vr_arch = EM_X86_64, vr_reg = 7, vr_off = 16\<rparr>,
     vm_ra := \<lparr>vr_arch = EM_X86_64, vr_reg = 129, vr_off = - 8\<rparr>\<rparr>"
  have r: "getUnwindInfo ?regs False = Ret (zero_UnwindInfo\<lparr>BaseReg := UnwindRegSp, Param := 16\<rparr>)" by code_simp
  from getUnwindInfo_shape [OF r] r show ?thesis
    by (simp add: newVMRegsX86_def zero_UnwindInfo_def Let_def)
qed

end
