(* ===== verification/PfelfProps.thy ===== *)
theory PfelfProps
  imports Pfelf
begin

text \<open>
  Properties of the ELF file model of \<open>Pfelf\<close>: what the accesses to segments and slices return, when they
  panic, and what the symbol lookup finds.
\<close>

section \<open>Segments\<close>

fun source_data :: "elfsource \<Rightarrow> u8 list option" where
  "source_data (MmapReader d) = d"
| "source_data (FileReader d) = Some d"

text \<open>A segment whose file part lies in the file and whose sizes are representable.\<close>

definition prog_ok :: "Prog \<Rightarrow> u8 list \<Rightarrow> bool" where
  "prog_ok ph data \<longleftrightarrow>
     source_data (p_elfReader ph) = Some data \<and> uint (p_Off ph) + uint (p_Filesz ph) \<le> int (length data) \<and>
     int (length data) < 2 ^ 63 \<and> uint (p_Filesz ph) \<le> uint (p_Memsz ph) \<and> uint (p_Memsz ph) < 2 ^ 63"

text \<open>The segment's memory as the dynamic loader sets it up: the file's part followed by zeroes.\<close>

definition prog_image :: "Prog \<Rightarrow> u8 list \<Rightarrow> u8 list" where
  "prog_image ph data =
     take (unat (p_Filesz ph)) (drop (unat (p_Off ph)) data) @ replicate (unat (p_Memsz ph) - unat (p_Filesz ph)) 0"

lemma sint_small: "uint (w :: u64) < 2 ^ 63 \<Longrightarrow> sint w = uint w"
proof -
  assume "uint w < 2 ^ 63"
  moreover have "- (2 ^ 63) \<le> uint w" by (rule order_trans [OF _ uint_ge_0]) simp
  ultimately show ?thesis by (simp add: sint_uint signed_take_bit_int_eq_self)
qed

lemma uint_word_of_int_u64: "0 \<le> x \<Longrightarrow> x < 2 ^ 64 \<Longrightarrow> uint (word_of_int x :: u64) = x"
  by (simp add: uint_word_of_int take_bit_int_eq_self)

lemma prog_okD:
  assumes "prog_ok ph data"
  shows "sint (p_Off ph) = uint (p_Off ph)" "sint (p_Filesz ph) = uint (p_Filesz ph)"
    "sint (p_Memsz ph) = uint (p_Memsz ph)" "uint (p_Off ph) + uint (p_Filesz ph) \<le> int (length data)"
    "int (length data) < 2 ^ 63" "uint (p_Filesz ph) \<le> uint (p_Memsz ph)" "uint (p_Memsz ph) < 2 ^ 63"
    "source_data (p_elfReader ph) = Some data"
proof -
  have "uint (p_Off ph) < 2 ^ 63" "uint (p_Filesz ph) < 2 ^ 63" "uint (p_Memsz ph) < 2 ^ 63"
    using assms uint_ge_0 [of "p_Filesz ph"] unfolding prog_ok_def by linarith+
  then show "sint (p_Off ph) = uint (p_Off ph)" "sint (p_Filesz ph) = uint (p_Filesz ph)"
    "sint (p_Memsz ph) = uint (p_Memsz ph)" by (simp_all only: sint_small)
qed (use assms in \<open>auto simp: prog_ok_def\<close>)

lemma source_ReadAt_in_file:
  assumes "source_data src = Some data" "0 \<le> off" "off + int n \<le> int (length data)"
  shows "source_ReadAt src n off = (take n (drop (nat off) data), None)"
proof -
  have "n \<le> length data - nat off" using assms(2,3) by linarith
  with assms show ?thesis by (cases src) (auto simp: ReadAt_def os_ReadAt_def Let_def min_def)
qed

lemma less_Filesz:
  "0 \<le> off \<Longrightarrow> off < 2 ^ 64 \<Longrightarrow> (word_of_int off :: u64) < w \<longleftrightarrow> off < uint w"
  by (simp only: word_less_def uint_word_of_int_u64)

lemma Prog_ReadAt_gap_zero:
  assumes ok: "prog_ok ph data" and "0 \<le> off" "off < 2 ^ 63"
  shows "Prog_ReadAt_gap ph p n off =
     (if n < length p \<and> off < uint (p_Memsz ph)
      then let e = min (length p - n) (nat (uint (p_Memsz ph) - off))
           in Ret (replicate e 0 @ drop e p, n + e, if n + e \<noteq> length p then Some EOF else None)
      else Ret (p, n, if n \<noteq> length p then Some EOF else None))"
proof -
  note d = prog_okD [OF ok]
  have i: "int64 (uint (p_Memsz ph) - off) = uint (p_Memsz ph) - off"
    by (rule int64_id) (use assms d(7) uint_ge_0 [of "p_Memsz ph"] in linarith)+
  have w: "(word_of_int off :: u64) < p_Memsz ph \<longleftrightarrow> off < uint (p_Memsz ph)"
    by (rule less_Filesz) (use assms in auto)
  have m: "nat (min (int (length p) - int n) (uint (p_Memsz ph) - off)) = min (length p - n) (nat (uint (p_Memsz ph) - off))"
    by linarith
  show ?thesis unfolding Prog_ReadAt_gap_def d(3) i w by (auto simp: Let_def m)
qed

lemma Prog_ReadAt_file_part:
  fixes p :: "u8 list"
  assumes ok: "prog_ok ph data" and "0 \<le> off" "off < uint (p_Filesz ph)"
  defines "e \<equiv> min (length p) (nat (uint (p_Filesz ph) - off))"
  shows "Prog_ReadAt ph p off =
     Prog_ReadAt_gap ph (take e (drop (nat (uint (p_Off ph) + off)) data) @ drop e p) e (off + int e)"
proof -
  note d = prog_okD [OF ok]
  have lt: "off < 2 ^ 63" using assms d(6,7) by linarith
  have i: "int64 (uint (p_Filesz ph) - off) = uint (p_Filesz ph) - off"
    by (rule int64_id) (use assms d(6,7) in linarith)+
  have w: "(word_of_int off :: u64) < p_Filesz ph"
    using assms lt by (subst less_Filesz) auto
  have e: "min (int (length p)) (uint (p_Filesz ph) - off) = int e"
    using assms(3) unfolding e_def by linarith
  have j: "int64 (uint (p_Off ph) + off) = uint (p_Off ph) + off"
    by (rule int64_id) (use assms d(4,5) uint_ge_0 [of "p_Off ph"] in linarith)+
  have e_le: "int e \<le> uint (p_Filesz ph) - off" using assms(3) unfolding e_def by linarith
  have src: "source_ReadAt (p_elfReader ph) e (uint (p_Off ph) + off) = (take e (drop (nat (uint (p_Off ph) + off)) data), None)"
    by (rule source_ReadAt_in_file) (use d(4,8) assms(2) e_le uint_ge_0 [of "p_Off ph"] in auto)
  have len: "length (take e (drop (nat (uint (p_Off ph) + off)) data)) = e"
    unfolding length_take length_drop using d(4) e_le assms(2) uint_ge_0 [of "p_Off ph"] by linarith
  have k: "int64 (off + int e) = off + int e"
    by (rule int64_id) (use e_le assms(2) d(6,7) in linarith)+
  show ?thesis
    unfolding Prog_ReadAt_def d(1,2) i e using w src len k by (simp add: j)
qed

lemma prog_ok_length: "prog_ok ph data \<Longrightarrow> unat (p_Filesz ph) \<le> length data - unat (p_Off ph)"
  using prog_okD(4) [of ph data] uint_ge_0 [of "p_Off ph"] unfolding unat_eq_nat_uint by linarith

lemma prog_image_file:
  assumes "prog_ok ph data" "0 \<le> off" "off + int len \<le> uint (p_Filesz ph)"
  shows "take len (drop (nat off) (prog_image ph data)) = take len (drop (nat (uint (p_Off ph) + off)) data)"
proof -
  have o: "nat (uint (p_Off ph) + off) = nat off + unat (p_Off ph)"
    using assms(2) by (simp add: nat_add_distrib)
  have l: "len \<le> unat (p_Filesz ph) - nat off" "nat off \<le> unat (p_Filesz ph)"
    using assms(2,3) unfolding unat_eq_nat_uint by linarith+
  have "unat (p_Filesz ph) \<le> length data - unat (p_Off ph)"
    by (rule prog_ok_length [OF assms(1)])
  with l have "len \<le> length data - (nat off + unat (p_Off ph))" by linarith
  with l prog_ok_length [OF assms(1)] show ?thesis unfolding o by (simp add: prog_image_def drop_take take_take min_def)
qed

lemma prog_image_gap:
  assumes "prog_ok ph data" "uint (p_Filesz ph) \<le> off" "off + int len \<le> uint (p_Memsz ph)"
  shows "take len (drop (nat off) (prog_image ph data)) = replicate len 0"
proof -
  have "unat (p_Filesz ph) \<le> length data - unat (p_Off ph)"
    by (rule prog_ok_length [OF assms(1)])
  moreover have "unat (p_Filesz ph) \<le> nat off" "len \<le> unat (p_Memsz ph) - nat off"
    using assms(2,3) uint_ge_0 [of "p_Filesz ph"] unfolding unat_eq_nat_uint by linarith+
  ultimately show ?thesis by (simp add: prog_image_def drop_take min_def)
qed

lemma Prog_ReadAt_in_file:
  assumes ok: "prog_ok ph data" and "0 \<le> off" "off + int (length p) \<le> uint (p_Filesz ph)"
  shows "Prog_ReadAt ph p off = Ret (take (length p) (drop (nat (uint (p_Off ph) + off)) data), length p, None)"
proof (cases "off < uint (p_Filesz ph)")
  case True
  have e: "min (length p) (nat (uint (p_Filesz ph) - off)) = length p" using assms(3) by linarith
  have lt: "off + int (length p) < 2 ^ 63" using prog_okD(6,7) [OF ok] assms(3) by linarith
  have len: "length p \<le> length data - nat (uint (p_Off ph) + off)"
    using prog_okD(4) [OF ok] assms(2,3) uint_ge_0 [of "p_Off ph"] by linarith
  show ?thesis
    unfolding Prog_ReadAt_file_part [OF ok assms(2) True] e
    using assms(2) lt len by (subst Prog_ReadAt_gap_zero [OF ok]) simp_all
next
  case False
  then have "length p = 0" using assms(3) by linarith
  then have p: "p = []" by simp
  have "off < 2 ^ 64" using prog_okD(6,7) [OF ok] assms(3) by simp
  with False assms(2) have "\<not> (word_of_int off :: u64) < p_Filesz ph" by (subst less_Filesz) auto
  then show ?thesis by (simp add: p Prog_ReadAt_def Prog_ReadAt_gap_def)
qed

text \<open>
  C22: \<open>Prog.ReadAt\<close> returns the segment's memory: a read inside the file's part gives the file's bytes, a read
  inside the area between \<open>Filesz\<close> and \<open>Memsz\<close> gives zeroes, with the full count and no error; the slice's
  former contents do not matter.
\<close>

theorem Prog_ReadAt_image:
  assumes ok: "prog_ok ph data" and "0 \<le> off" "off + int (length p) \<le> uint (p_Memsz ph)"
    and one_part: "off + int (length p) \<le> uint (p_Filesz ph) \<or> uint (p_Filesz ph) \<le> off"
  shows "Prog_ReadAt ph p off = Ret (take (length p) (drop (nat off) (prog_image ph data)), length p, None)"
  using one_part
proof
  assume f: "off + int (length p) \<le> uint (p_Filesz ph)"
  show ?thesis unfolding prog_image_file [OF ok assms(2) f] by (rule Prog_ReadAt_in_file [OF ok assms(2) f])
next
  assume f: "uint (p_Filesz ph) \<le> off"
  have lt: "off < 2 ^ 63" using prog_okD(7) [OF ok] assms(3) by linarith
  have w: "\<not> (word_of_int off :: u64) < p_Filesz ph"
    using f lt assms(2) by (subst less_Filesz) auto
  have "min (length p) (nat (uint (p_Memsz ph) - off)) = length p" using assms(3) by linarith
  moreover have "p \<noteq> [] \<Longrightarrow> off < uint (p_Memsz ph)"
    using assms(3) by (cases p) auto
  ultimately show ?thesis using w
    unfolding prog_image_gap [OF ok f assms(3)]
    by (auto simp: Prog_ReadAt_def Prog_ReadAt_gap_zero [OF ok assms(2) lt] Let_def)
qed

text \<open>
  C34: a read that starts in the file's part and ends in the zero-filled area returns a wrong slice without an
  error: the clearing loop writes at the start of the slice, so the first bytes of the file's data are
  overwritten with as many zeroes as the area contributes, and the tail keeps the slice's former contents.
\<close>

theorem Prog_ReadAt_spanning:
  assumes ok: "prog_ok ph data" and "0 \<le> off" "off < uint (p_Filesz ph)"
    and "uint (p_Filesz ph) < off + int (length p)" "off + int (length p) \<le> uint (p_Memsz ph)"
  defines "n \<equiv> nat (uint (p_Filesz ph) - off)"
  shows "Prog_ReadAt ph p off =
     Ret (replicate (length p - n) 0 @
          drop (length p - n) (take n (drop (nat (uint (p_Off ph) + off)) data) @ drop n p), length p, None)"
proof -
  have e: "min (length p) (nat (uint (p_Filesz ph) - off)) = n" "n < length p"
    using assms(2-4) by (auto simp: n_def)
  have o: "off + int n = uint (p_Filesz ph)" using assms(3) by (simp add: n_def)
  have f: "uint (p_Filesz ph) < 2 ^ 63" "uint (p_Filesz ph) < uint (p_Memsz ph)"
    using prog_okD(6,7) [OF ok] assms(4,5) by linarith+
  have m: "min (length p - n) (nat (uint (p_Memsz ph) - uint (p_Filesz ph))) = length p - n"
    using assms(5) o by linarith
  have len: "n \<le> length data - nat (uint (p_Off ph) + off)"
    using prog_okD(4) [OF ok] assms(2) o uint_ge_0 [of "p_Off ph"] by linarith
  then have l: "length (take n (drop (nat (uint (p_Off ph) + off)) data) @ drop n p) = length p"
    using e(2) by simp
  show ?thesis
    unfolding Prog_ReadAt_file_part [OF ok assms(2,3)] e(1) o Prog_ReadAt_gap_zero [OF ok uint_ge_0 f(1)] l
    using e(2) f(2) by (simp add: m Let_def)
qed

definition example_prog :: Prog where
  "example_prog = \<lparr>p_Type = 1, p_Flags = 4, p_Off = 2, p_Vaddr = 0x1000, p_Paddr = 0, p_Filesz = 4, p_Memsz = 8,
     p_Align = 0, p_elfReader = FileReader [1, 2, 3, 4, 5, 6]\<rparr>"

lemma example_prog_ok: "prog_ok example_prog [1, 2, 3, 4, 5, 6]"
  by (simp add: prog_ok_def example_prog_def)

theorem Prog_ReadAt_image_witness:
  "Prog_ReadAt example_prog [9, 9, 9] 1 = Ret ([4, 5, 6], 3, None)"
  using Prog_ReadAt_image [OF example_prog_ok, of 1 "[9, 9, 9]"]
  by (simp add: example_prog_def prog_image_def)

theorem Prog_ReadAt_spanning_witness:
  "Prog_ReadAt example_prog [9, 9, 9, 9] 2 = Ret ([0, 0, 9, 9], 4, None)"
  using Prog_ReadAt_spanning [OF example_prog_ok, of 2 "[9, 9, 9, 9]"]
  by (simp add: example_prog_def)

section \<open>Slices of the memory map\<close>



text \<open>
  an ELF file can crash the process that loads its section headers.  When the file is memory mapped and the
  header of the section name table has the file's length as its offset and an empty size, \<open>LoadSections\<close>
  panics; no check of the header comes before the slice.
\<close>

theorem LoadSections_panics:
  assumes "\<not> f_InsideCore f" "f_Sections f = None" "f_mmapReader f = Some (Some data)"
    and "e_shstrndx (f_elfHeader f) < e_shnum (f_elfHeader f)"
    and headers: "os_ReadAt (f_elfReader f) (64 * unat (e_shnum (f_elfHeader f))) (sint (e_shoff (f_elfHeader f))) = (sbytes, None)"
    and "sh = parse_Section64 (File_getReader f) (entries (unat (e_shnum (f_elfHeader f))) 64 sbytes ! unat (e_shstrndx (f_elfHeader f)))"
    and "sh_Flags sh AND SHF_COMPRESSED = 0" "sint (sh_Offset sh) = int (length data)" "sh_FileSize sh = 0"
    and "int (length data) < 2 ^ 63"
  shows "LoadSections f = Panic"
proof -
  let ?hdr = "f_elfHeader f"
  have nz: "e_shnum ?hdr \<noteq> 0" using assms(4) by auto
  have src: "sh_elfReader sh = MmapReader (Some data)"
    using assms(3,6) by (simp add: parse_Section64_def File_getReader_def getReader_def)
  have i: "unat (e_shstrndx ?hdr) < unat (e_shnum ?hdr)" using assms(4) by (simp add: word_less_nat_alt)
  have "map (parse_Section64 (File_getReader f)) (entries (unat (e_shnum ?hdr)) 64 sbytes) ! unat (e_shstrndx ?hdr) = sh"
    using i assms(6) by (simp add: entries_def)
  moreover have "Section_Data sh maxBytesLargeSection = Panic"
    using assms(7-10) by (simp add: Section_Data_def src Subslice_def content_def Let_def)
  ultimately show ?thesis
    using assms(1,2,4) nz headers by (simp add: LoadSections_def Let_def not_le)
qed

text \<open>
  \<open>LoadSections\<close> reports a bad section name once.  The call that finds it returns the error but keeps the
  section headers it has set up, so the next call returns success with the names left incomplete.
\<close>

theorem LoadSections_error_once:
  assumes "LoadSections f = Ret (Some (ErrSectionName k), f')"
  shows "LoadSections f' = Ret (None, f')"
proof -
  have "f_Sections f' \<noteq> None \<and> f_InsideCore f' = f_InsideCore f \<and> \<not> f_InsideCore f"
    using assms by (auto simp: LoadSections_def Let_def
        split: if_splits prod.split_asm option.split_asm) (auto split: sum.split_asm prod.split_asm)
  then show ?thesis by (simp add: LoadSections_def Let_def)
qed

section \<open>Virtual memory\<close>

lemma ProgByVirtualAddress_offset:
  assumes "ProgByVirtualAddress f a = Some ph" "prog_ok ph data"
  shows "unat (a - p_Vaddr ph) < unat (p_Memsz ph)" "ph \<in> set (f_loadData f)"
    "int64 (sint a - sint (p_Vaddr ph)) = uint (a - p_Vaddr ph)"
proof -
  from assms(1) have r: "p_Vaddr ph \<le> a" "a < p_Vaddr ph + p_Memsz ph" "ph \<in> set (f_loadData f)"
    by (auto simp: ProgByVirtualAddress_def find_Some_iff in_set_conv_nth)
  have "unat a < unat (p_Vaddr ph) + unat (p_Memsz ph)"
    using r(2) unat_plus_le [of "p_Vaddr ph" "p_Memsz ph"] by (simp add: word_less_nat_alt)
  with r(1) show lt: "unat (a - p_Vaddr ph) < unat (p_Memsz ph)"
    by (simp add: unat_sub word_le_nat_alt less_diff_conv2)
  show "ph \<in> set (f_loadData f)" by (rule r(3))
  have "uint (a - p_Vaddr ph) < 2 ^ 63"
    using lt prog_okD(7) [OF assms(2)] unfolding unat_eq_nat_uint by linarith
  then show "int64 (sint a - sint (p_Vaddr ph)) = uint (a - p_Vaddr ph)"
    by (simp add: int64_def sint_small)
qed

lemma Prog_ReadAt_part:
  assumes ok: "prog_ok ph data" and "off + length p \<le> unat (p_Memsz ph)"
    and "off + length p \<le> unat (p_Filesz ph) \<or> unat (p_Filesz ph) \<le> off"
  shows "Prog_ReadAt ph p (int off) = Ret (take (length p) (drop off (prog_image ph data)), length p, None)"
proof (cases "off + length p \<le> unat (p_Filesz ph)")
  case True
  then have f: "int off + int (length p) \<le> uint (p_Filesz ph)"
    using uint_ge_0 [of "p_Filesz ph"] unfolding unat_eq_nat_uint by linarith
  show ?thesis
    using Prog_ReadAt_in_file [OF ok _ f] prog_image_file [OF ok _ f] by simp
next
  case False
  with assms(3) have f: "uint (p_Filesz ph) \<le> int off" unfolding unat_eq_nat_uint by linarith
  have m: "int off + int (length p) \<le> uint (p_Memsz ph)"
    using assms(2) uint_ge_0 [of "p_Memsz ph"] unfolding unat_eq_nat_uint by linarith
  then have lt: "int off < 2 ^ 63" using prog_okD(7) [OF ok] by linarith
  then have w: "\<not> (word_of_int (int off) :: u64) < p_Filesz ph" using f by (subst less_Filesz) auto
  have "min (length p) (nat (uint (p_Memsz ph) - int off)) = length p" using m by linarith
  moreover have "p \<noteq> [] \<Longrightarrow> int off < uint (p_Memsz ph)" using m by (cases p) auto
  ultimately show ?thesis
    using w prog_image_gap [OF ok f m] Prog_ReadAt_gap_zero [OF ok _ lt, of p 0]
    by (auto simp: Prog_ReadAt_def Let_def)
qed

lemma VirtualMemory_at:
  assumes seg: "ProgByVirtualAddress f a = Some ph" and ok: "prog_ok ph data"
    and "0 < sz" "sz \<le> maxSize" and fits: "unat (a - p_Vaddr ph) + nat sz \<le> unat (p_Memsz ph)"
    and part: "unat (a - p_Vaddr ph) + nat sz \<le> unat (p_Filesz ph) \<or> unat (p_Filesz ph) \<le> unat (a - p_Vaddr ph)"
  shows "VirtualMemory f (sint a) sz maxSize =
     Ret (take (nat sz) (drop (unat (a - p_Vaddr ph)) (prog_image ph data)), None)"
proof -
  note p = ProgByVirtualAddress_offset [OF seg ok]
  note d = prog_okD [OF ok]
  define off where "off = unat (a - p_Vaddr ph)"
  have off: "int64 (sint a - sint (p_Vaddr ph)) = int off" by (simp add: p(3) off_def)
  have read: "Prog_ReadAt ph (replicate (nat sz) 0) (int off) = Ret (take (nat sz) (drop off (prog_image ph data)), nat sz, None)"
    using Prog_ReadAt_part [OF ok, of off "replicate (nat sz) 0"] fits part by (simp add: off_def)
  have "off + nat sz \<le> nat (uint (p_Memsz ph))" using fits unfolding off_def by (simp only: unat_eq_nat_uint)
  then have end_lt: "int off + sz < 2 ^ 63" using d(7) uint_ge_0 [of "p_Memsz ph"] by linarith
  have i: "int64 (int off + sz) = int off + sz"
    by (rule int64_id) (use end_lt \<open>0 < sz\<close> in linarith)+
  have slice: "Subslice (Some data) (int64 (uint (p_Off ph) + int off)) sz = Ret (Inr (take (nat sz) (drop off (prog_image ph data))))"
    if f: "int off + sz \<le> uint (p_Filesz ph)"
  proof -
    have j: "int64 (uint (p_Off ph) + int off) = uint (p_Off ph) + int off"
      by (rule int64_id) (use f d(4,5) \<open>0 < sz\<close> uint_ge_0 [of "p_Off ph"] in linarith)+
    have k: "int64 (uint (p_Off ph) + int off + sz) = uint (p_Off ph) + int off + sz"
      by (rule int64_id) (use f d(4,5) \<open>0 < sz\<close> uint_ge_0 [of "p_Off ph"] in linarith)+
    have le: "uint (p_Off ph) + int off + sz \<le> int (length data)" using f d(4) by linarith
    have "take (nat sz) (drop (nat (int off)) (prog_image ph data)) = take (nat sz) (drop (nat (uint (p_Off ph) + int off)) data)"
      by (rule prog_image_file [OF ok]) (use f \<open>0 < sz\<close> in auto)
    moreover have "\<not> uint (p_Off ph) + int off < 0" using uint_ge_0 [of "p_Off ph"] by linarith
    ultimately show ?thesis
      unfolding Subslice_def content_def j k Let_def using le \<open>0 < sz\<close> by simp
  qed
  show ?thesis
    unfolding VirtualMemory_def off_def [symmetric]
    using seg \<open>0 < sz\<close> \<open>sz \<le> maxSize\<close> d(8) read slice
    by (cases "p_elfReader ph") (auto simp: off i d(1,2) Let_def)
qed


definition example_File :: "Prog \<Rightarrow> File" where
  "example_File ph = \<lparr>f_elfReader = [], f_mmapReader = None, f_loadData = [ph], f_ROData = [], f_Progs = [ph],
     f_Sections = None, f_neededIndexes = [], f_soNameIndex = 0,
     f_elfHeader = \<lparr>e_type = 0, e_machine = 0, e_entry = 0, e_phoff = 0, e_shoff = 0, e_phnum = 0, e_shnum = 1, e_shstrndx = 0\<rparr>,
     f_gnuHash_addr = 0,
     f_gnuHash_header = \<lparr>g_numBuckets = 0, g_symbolOffset = 0, g_bloomSize = 0, g_bloomShift = 0\<rparr>,
     f_sysvHash_addr = 0, f_sysvHash_header = \<lparr>v_numBuckets = 0, v_numSymbols = 0\<rparr>,
     f_stringsAddr = 0, f_symbolsAddr = 0, f_bias = 0, f_InsideCore = False, f_isExecutable = False, f_Type = 0,
     f_Machine = 0, f_Entry = 0\<rparr>"


text \<open>The section header table of one entry: an empty section at the end of the file.\<close>

definition panic_header :: "u8 list" where
  "panic_header = replicate 24 0 @ 64 # replicate 39 0"

theorem LoadSections_panics_witness:
  "LoadSections ((example_File example_prog)\<lparr>f_elfReader := panic_header, f_mmapReader := Some (Some panic_header)\<rparr>) = Panic"
  by (rule LoadSections_panics
      [where data = panic_header and sbytes = panic_header and
        sh = "(parse_Section64 (MmapReader (Some panic_header)) panic_header)"]; code_simp)

definition bad_name_file :: File where
  "bad_name_file = (example_File example_prog)\<lparr>f_elfReader := 9 # replicate 31 0 @ 4 # replicate 31 0\<rparr>"

theorem LoadSections_error_once_witness:
  "case LoadSections bad_name_file of Ret (err, f) \<Rightarrow>
     err = Some (ErrSectionName 0) \<and> LoadSections f = Ret (None, f) | _ \<Rightarrow> False"
proof -
  obtain err f where r: "LoadSections bad_name_file = Ret (err, f)" and e: "err = Some (ErrSectionName 0)"
  proof -
    have "case LoadSections bad_name_file of Ret (err, f) \<Rightarrow> err = Some (ErrSectionName 0) | _ \<Rightarrow> False" by code_simp
    then show ?thesis using that by (auto split: run.splits)
  qed
  then show ?thesis using LoadSections_error_once [of bad_name_file 0 f] by simp
qed

section \<open>Symbol lookup\<close>

lemma Subslice_length: "Subslice d off sz = Ret (Inr bs) \<Longrightarrow> length bs = nat sz"
  by (auto simp: Subslice_def Let_def split: if_splits)

lemma source_ReadAt_length: "source_ReadAt src n off = (got, None) \<Longrightarrow> length got = n"
  by (cases src) (auto simp: ReadAt_def os_ReadAt_def Let_def split: option.split_asm if_splits)

lemma Prog_ReadAt_gap_count:
  assumes "Prog_ReadAt_gap ph p k off = Ret (p', n, None)"
  shows "length p' = length p \<and> n = length p"
  using assms by (auto simp: Prog_ReadAt_gap_def Let_def split: if_splits)

lemma Prog_ReadAt_count:
  assumes "Prog_ReadAt ph p off = Ret (p', n, None)"
  shows "length p' = length p \<and> n = length p"
proof (cases "(word_of_int off :: u64) < p_Filesz ph")
  case False
  then show ?thesis using assms Prog_ReadAt_gap_count by (simp add: Prog_ReadAt_def)
next
  case True
  define e where "e = min (int (length p)) (int64 (sint (p_Filesz ph) - off))"
  obtain got err where s: "source_ReadAt (p_elfReader ph) (nat e) (int64 (sint (p_Off ph) + off)) = (got, err)"
    by fastforce
  have "err = None \<Longrightarrow> length got = nat e" using s by (auto intro: source_ReadAt_length)
  moreover have "nat e \<le> length p" by (simp add: e_def)
  ultimately show ?thesis
    using assms True s unfolding Prog_ReadAt_def e_def [symmetric] Let_def
    by (auto split: if_splits dest!: Prog_ReadAt_gap_count)
qed

lemma VirtualMemory_length:
  "VirtualMemory f addr sz maxSize = Ret (bs, None) \<Longrightarrow> 0 \<le> sz \<Longrightarrow> length bs = nat sz"
  by (auto simp: VirtualMemory_def Let_def run_cases simp del: run_bind_eq_Ret
      split: if_splits option.split_asm elfsource.split_asm dest!: Subslice_length Prog_ReadAt_count)

text \<open>
  What a found symbol is: an entry of the symbol table whose name, read from the string table, is the requested
  one with its terminator.
\<close>

definition symbol_at :: "File \<Rightarrow> u8 list \<Rightarrow> Symbol \<Rightarrow> bool" where
  "symbol_at f symbol s \<longleftrightarrow> (\<exists>n raw cnt.
     File_ReadAt f (replicate 24 0) (int64 (f_symbolsAddr f + uint (n :: u32) * 24)) = Ret (raw, cnt, None) \<and>
     VirtualMemory f (int64 (f_stringsAddr f + uint (fld 0 4 raw :: u32))) (int (length symbol) + 1)
       maxBytesSmallSection = Ret (symbol @ [0], None) \<and>
     s = sym_of symbol raw)"

lemma readAndMatchSymbol_at:
  assumes "readAndMatchSymbol f n symbol = Ret (Some s)"
  shows "symbol_at f symbol s"
proof -
  from assms obtain raw cnt sname where
    r: "File_ReadAt f (replicate 24 0) (int64 (f_symbolsAddr f + uint n * 24)) = Ret (raw, cnt, None)"
    "VirtualMemory f (int64 (f_stringsAddr f + uint (fld 0 4 raw :: u32))) (int (length symbol) + 1)
       maxBytesSmallSection = Ret (sname, None)"
    and m: "sname ! length symbol = 0" "take (length symbol) sname = symbol" "s = sym_of symbol raw"
    by (auto simp: readAndMatchSymbol_def Let_def split: if_splits)
  have "length sname = Suc (length symbol)" using VirtualMemory_length [OF r(2)] by simp
  with m(1,2) have "sname = symbol @ [0]"
    by (metis lessI take_Suc_conv_app_nth take_all_iff order_refl)
  with r m(3) show ?thesis unfolding symbol_at_def by blast
qed

lemma gnu_bucket_sound: "gnu_bucket fuel f symbol h offs i = Ret (Inr s) \<Longrightarrow> symbol_at f symbol s"
proof (induction fuel arbitrary: offs i)
  case (Suc fuel)
  then show ?case
    by (auto simp: run_cases simp del: run_bind_eq_Ret split: if_split_asm intro: readAndMatchSymbol_at)
qed simp

lemma sysv_bucket_sound: "sysv_bucket fuel f symbol offs i = Ret (Inr s) \<Longrightarrow> symbol_at f symbol s"
proof (induction fuel arbitrary: offs i)
  case (Suc fuel)
  then show ?case
    by (auto simp: run_cases simp del: run_bind_eq_Ret split: if_split_asm intro: readAndMatchSymbol_at)
qed simp

lemma symbol_at_header [simp]:
  "symbol_at (f\<lparr>f_gnuHash_header := g\<rparr>) symbol s = symbol_at f symbol s"
  "symbol_at (f\<lparr>f_sysvHash_header := v\<rparr>) symbol s = symbol_at f symbol s"
  by (simp_all add: symbol_at_def File_ReadAt_def VirtualMemory_def ProgByVirtualAddress_def cong: option.case_cong)

lemma gnu_lookup_sound: "gnu_lookup fuel f symbol = Ret (Inr s) \<Longrightarrow> symbol_at f symbol s"
  by (auto simp: gnu_lookup_def Let_def run_cases simp del: run_bind_eq_Ret
      split: if_split_asm option.split_asm dest!: gnu_bucket_sound)

lemma sysv_lookup_sound: "sysv_lookup fuel f symbol = Ret (Inr s) \<Longrightarrow> symbol_at f symbol s"
  by (auto simp: sysv_lookup_def Let_def run_cases simp del: run_bind_eq_Ret dest!: sysv_bucket_sound)

text \<open>
  C17: a symbol that \<open>LookupSymbol\<close> returns is in the file: some entry of the dynamic symbol table holds its address,
  size and type, and the string table holds exactly the requested name, terminator included, at the entry's name
  index.  This holds for both hash tables and for any table contents.
\<close>

theorem LookupSymbol_sound:
  assumes "LookupSymbol fuel f symbol = Ret (Inr s, f')"
  shows "symbol_at f symbol s"
  using assms
  by (auto simp: LookupSymbol_def Let_def run_cases simp del: run_bind_eq_Ret
      split: if_split_asm option.split_asm dest!: gnu_lookup_sound sysv_lookup_sound)

text \<open>One entry of a bucket's chain that the search passes over.\<close>

definition gnu_passes :: "File \<Rightarrow> u8 list \<Rightarrow> int \<Rightarrow> u32 \<Rightarrow> bool" where
  "gnu_passes f symbol offs i \<longleftrightarrow> (\<exists>h2. read32 f 0 offs = Ret (Inr h2) \<and> h2 AND 1 = 0 \<and>
     (calcGNUHash symbol OR 1 = h2 OR 1 \<longrightarrow> readAndMatchSymbol f i symbol = Ret None))"

definition gnu_hits :: "File \<Rightarrow> u8 list \<Rightarrow> int \<Rightarrow> u32 \<Rightarrow> Symbol \<Rightarrow> bool" where
  "gnu_hits f symbol offs i s \<longleftrightarrow> (\<exists>h2. read32 f 0 offs = Ret (Inr h2) \<and>
     calcGNUHash symbol OR 1 = h2 OR 1 \<and> readAndMatchSymbol f i symbol = Ret (Some s))"

lemma gnu_bucket_finds:
  assumes "\<And>j. j < k \<Longrightarrow> gnu_passes f symbol (int64 (offs + 4 * int j)) (i + of_nat j)"
    and "gnu_hits f symbol (int64 (offs + 4 * int k)) (i + of_nat k) s" and "k < fuel"
  shows "gnu_bucket fuel f symbol (calcGNUHash symbol OR 1) (int64 offs) i = Ret (Inr s)"
  using assms
proof (induction k arbitrary: offs i fuel)
  case 0
  then obtain m where "fuel = Suc m" by (cases fuel) auto
  with 0 show ?case by (auto simp: gnu_hits_def)
next
  case (Suc k)
  then obtain m where m: "fuel = Suc m" "k < m" by (cases fuel) auto
  have "gnu_bucket m f symbol (calcGNUHash symbol OR 1) (int64 (offs + 4)) (i + 1) = Ret (Inr s)"
  proof (rule Suc.IH)
    show "gnu_passes f symbol (int64 (offs + 4 + 4 * int j)) (i + 1 + of_nat j)" if "j < k" for j
      using Suc.prems(1) [of "Suc j"] that by (simp add: algebra_simps)
    show "gnu_hits f symbol (int64 (offs + 4 + 4 * int k)) (i + 1 + of_nat k) s"
      using Suc.prems(2) by (simp add: algebra_simps)
  qed (rule m(2))
  then show ?case using Suc.prems(1) [of 0] by (auto simp: m(1) gnu_passes_def)
qed

text \<open>The addresses of the tables behind the header.\<close>

definition gnu_bloom_addr :: "File \<Rightarrow> u8 list \<Rightarrow> int" where
  "gnu_bloom_addr f symbol =
     int64 (f_gnuHash_addr f + 16 + 8 * uint ((calcGNUHash symbol div 64) mod g_bloomSize (f_gnuHash_header f)))"

definition gnu_mask :: "File \<Rightarrow> u8 list \<Rightarrow> u64" where
  "gnu_mask f symbol = push_bit (unat (calcGNUHash symbol mod 64)) 1 OR
     push_bit (unat (drop_bit (unat (g_bloomShift (f_gnuHash_header f))) (calcGNUHash symbol) mod 64)) 1"

definition gnu_buckets_addr :: "File \<Rightarrow> int" where
  "gnu_buckets_addr f = f_gnuHash_addr f + 16 + uint (g_bloomSize (f_gnuHash_header f)) * 8"

definition gnu_chain_addr :: "File \<Rightarrow> u32 \<Rightarrow> int" where
  "gnu_chain_addr f i = gnu_buckets_addr f + 4 * uint (g_numBuckets (f_gnuHash_header f)) +
     4 * uint (i - g_symbolOffset (f_gnuHash_header f))"


text \<open>A file with one segment at address 0: a GNU hash table at 8, symbols at 40, strings at 88.\<close>

definition table_File :: "u8 list \<Rightarrow> File" where
  "table_File data = example_File \<lparr>p_Type = 1, p_Flags = 4, p_Off = 0, p_Vaddr = 0, p_Paddr = 0,
     p_Filesz = of_nat (length data), p_Memsz = of_nat (length data), p_Align = 0, p_elfReader = FileReader data\<rparr>"

definition gnu_table :: "u8 list" where
  "gnu_table = replicate 8 0 @ [1, 0, 0, 0, 1, 0, 0, 0, 1, 0, 0, 0, 0, 0, 0, 0] @ [0x40, 0, 0, 0, 0, 0, 0, 0] @ [1, 0, 0, 0] @
     [0x07, 0xb6, 0x02, 0] @ replicate 24 0 @ [1, 0, 0, 0, 0x12, 0, 1, 0, 0x55, 0, 0, 0, 0, 0, 0, 0, 0x10, 0, 0, 0, 0, 0, 0, 0] @
     [0, 97, 0]"

definition gnu_File :: File where
  "gnu_File = (table_File gnu_table)\<lparr>f_gnuHash_addr := 8, f_symbolsAddr := 40, f_stringsAddr := 88,
     f_gnuHash_header := \<lparr>g_numBuckets = 1, g_symbolOffset = 1, g_bloomSize = 1, g_bloomShift = 0\<rparr>\<rparr>"

definition gnu_symbol :: Symbol where
  "gnu_symbol = \<lparr>sy_Name = [97], sy_Address = 0x55, sy_Size = 0x10, sy_Info = 0x12, sy_Shndx = 1\<rparr>"

lemma gnu_File_hits: "gnu_hits gnu_File [97] (int64 (gnu_chain_addr gnu_File 1 + 4 * int 0)) (1 + of_nat 0) gnu_symbol"
proof -
  have "read32 gnu_File 0 (int64 (gnu_chain_addr gnu_File 1 + 4 * int 0)) = Ret (Inr 0x2b607)" by code_simp
  moreover have "calcGNUHash [97] OR 1 = 0x2b607 OR 1" by code_simp
  moreover have "readAndMatchSymbol gnu_File (1 + of_nat 0) [97] = Ret (Some gnu_symbol)" by code_simp
  ultimately show ?thesis unfolding gnu_hits_def by blast
qed


theorem LookupSymbol_sound_witness:
  "LookupSymbol 1 gnu_File [97] = Ret (Inr gnu_symbol, gnu_File) \<and> symbol_at gnu_File [97] gnu_symbol"
proof -
  have "LookupSymbol 1 gnu_File [97] = Ret (Inr gnu_symbol, gnu_File)" by code_simp
  with LookupSymbol_sound [OF this] show ?thesis by simp
qed

text \<open>
  C37: a GNU hash header with buckets but an empty Bloom filter is reported as corrupt by the first lookup only.  The
  header stays cached, the next lookup skips the check because the bucket count is set, and the division by the
  filter's size panics.
\<close>

theorem LookupSymbol_corrupt_panics:
  assumes "f_gnuHash_addr f \<noteq> 0" "g_numBuckets (f_gnuHash_header f) = 0"
    and "File_ReadAt f (gnuHashHeader_bytes (f_gnuHash_header f)) (f_gnuHash_addr f) = Ret (p, n, None)"
    and "g_numBuckets (parse_gnuHashHeader p) \<noteq> 0" "g_bloomSize (parse_gnuHashHeader p) = 0"
  shows "\<exists>f'. LookupSymbol fuel f symbol = Ret (Inl ErrGnuHashCorrupt, f') \<and> LookupSymbol fuel' f' symbol' = Panic"
  using assms by (simp add: LookupSymbol_def gnu_lookup_def Let_def)

definition corrupt_File :: File where
  "corrupt_File = (table_File (replicate 8 0 @ 1 # replicate 15 0))\<lparr>f_gnuHash_addr := 8\<rparr>"

theorem LookupSymbol_corrupt_panics_witness:
  "\<exists>f'. LookupSymbol 1 corrupt_File [97] = Ret (Inl ErrGnuHashCorrupt, f') \<and> LookupSymbol 1 f' [97] = Panic"
proof (rule LookupSymbol_corrupt_panics)
  show "File_ReadAt corrupt_File (gnuHashHeader_bytes (f_gnuHash_header corrupt_File)) (f_gnuHash_addr corrupt_File) =
    Ret (1 # replicate 15 0, 16, None)" by code_simp
  show "g_numBuckets (parse_gnuHashHeader (1 # replicate 15 0)) \<noteq> 0"
    "g_bloomSize (parse_gnuHashHeader (1 # replicate 15 0)) = 0"
    "f_gnuHash_addr corrupt_File \<noteq> 0" "g_numBuckets (f_gnuHash_header corrupt_File) = 0" by code_simp+
qed


definition circle_table :: "u8 list" where
  "circle_table = replicate 8 0 @ [1, 0, 0, 0, 2, 0, 0, 0] @ [1, 0, 0, 0] @ [0, 0, 0, 0, 1, 0, 0, 0] @
     replicate 24 0 @ 1 # replicate 23 0 @ [0, 98, 0]"

definition circle_File :: File where
  "circle_File = (table_File circle_table)\<lparr>f_sysvHash_addr := 8, f_symbolsAddr := 28, f_stringsAddr := 76,
     f_sysvHash_header := \<lparr>v_numBuckets = 1, v_numSymbols = 2\<rparr>\<rparr>"


section \<open>File offsets\<close>

text \<open>The executable segment that the kernel maps a file offset from, page alignment included.\<close>

definition maps_offset :: "u64 \<Rightarrow> u64 \<Rightarrow> Prog \<Rightarrow> bool" where
  "maps_offset pageMask off p \<longleftrightarrow> p_Type p = PT_LOAD \<and> p_Flags p AND PF_X \<noteq> 0 \<and>
     p_Off p AND NOT pageMask \<le> off \<and> off < p_Off p + p_Filesz p"

lemma FileOffsetToVirtualAddress_find:
  "FileOffsetToVirtualAddress pmask (GetAddressMapper f) off =
     map_option (\<lambda>p. p_Vaddr p + (off - p_Off p)) (find (maps_offset pmask off) (f_Progs f))"
proof -
  have "FileOffsetToVirtualAddress pmask
      (map (\<lambda>p. \<lparr>am_offset = p_Off p, am_vaddr = p_Vaddr p, am_filesz = p_Filesz p\<rparr>)
        (filter (\<lambda>p. \<not> (p_Type p \<noteq> PT_LOAD \<or> p_Flags p AND PF_X = 0)) ps)) off =
     map_option (\<lambda>p. p_Vaddr p + (off - p_Off p)) (find (maps_offset pmask off) ps)" for ps
    by (induction ps) (auto simp: maps_offset_def Let_def)
  then show ?thesis by (simp add: GetAddressMapper_def)
qed



end
