(* ===== verification/EhframeProps.thy ===== *)
theory EhframeProps
  imports Ehframe DwarfProps PfelfProps
begin

text \<open>
  The walk over a call-frame section ends, and it keeps the interval data consistent: every parser of
  \<open>Ehframe\<close> returns on a section that lies in the file, only moves forward, and leaves the register states
  it stores well formed.
\<close>

section \<open>Parsers move forward\<close>

lemma rd_Uint32_avail:
  assumes "rd_Uint32 r = (v, r')" "v \<noteq> 0"
  shows "rd_avail r' < rd_avail r"
proof -
  obtain s' where s: "s_Uint 4 (rd r) = (v, s')" "r' = r\<lparr>rd := s'\<rparr>"
    using assms(1) by (auto simp: rd_Uint32_def on_rd_def split: prod.splits)
  have n: "4 \<le> length (s_bytes (rd r))" "s' = s_advance (rd r) 4"
    using s(1) assms(2) by (auto simp: s_Uint_def s_ReadN_def split: if_splits)
  have "int (length (s_bytes (rd r))) \<le> s_avail (rd r)" using s_avail_nonneg [of "rd r"] by (simp add: s_bytes_def)
  with n show ?thesis by (simp add: s(2) s_advance_avail)
qed

lemma parseLengthAndMarker_moves:
  assumes "parseLengthAndMarker r = (res, r')"
  shows "rd_moves r r'" "res = Inr x \<Longrightarrow> rd_avail r' < rd_avail r"
proof -
  obtain v r1 where v: "rd_Uint32 r = (v, r1)" by fastforce
  have m: "rd_moves r1 r'" "res = Inr x \<Longrightarrow> v \<noteq> 0"
    using assms v unfolding parseLengthAndMarker_def Let_def
    by (auto split: if_splits prod.splits dest!: rd_read_moves intro: rd_moves_trans)
  show "rd_moves r r'" using rd_read_moves(5) [OF v] m(1) by (rule rd_moves_trans)
  show "res = Inr x \<Longrightarrow> rd_avail r' < rd_avail r"
    using rd_Uint32_avail [OF v] m rd_moves_avail [OF m(1)] by auto
qed

definition rd_ok :: "reader \<Rightarrow> bool" where
  "rd_ok r \<longleftrightarrow> rd_in_file r \<and> 0 \<le> s_bufSize (rd r)"

lemma rd_moves_ok: "rd_moves r r' \<Longrightarrow> rd_ok r \<Longrightarrow> rd_ok r'"
  using rd_moves_in_file by (auto simp: rd_ok_def rd_moves_def s_moves_def s_advance_def)

lemma rd_moves_machine: "rd_moves r r' \<Longrightarrow> rd_machine r' = rd_machine r"
  by (auto simp: rd_moves_def)

lemma s_ReadSlice_moves:
  assumes "s_ReadSlice s d = (x, s')" "0 \<le> s_cur s" "0 \<le> s_bufSize s"
  shows "s_moves s s'"
proof -
  define view where "view = take (nat (s_bufSize s)) (s_bytes s)"
  have len: "int (length view) \<le> s_avail s" using s_avail_nonneg [of s] by (simp add: view_def s_bytes_def)
  have "s_moves s (s_advance s (int i + 1))" if "IndexByte view d = Some i" for i
    by (rule s_movesI) (use IndexByte_length [OF that] len in linarith)+
  moreover have "s_moves s (s_advance s (s_avail s))" by (rule s_movesI) (simp_all add: s_avail_nonneg)
  moreover have "s_moves s (s_advance s (s_bufSize s))"
    if "s_cur s + s_bufSize s < s_slimit s" "s_cur s + s_bufSize s \<le> int (length (content (s_source s)))"
    by (rule s_movesI) (use that assms(2,3) in \<open>auto simp: s_avail_def\<close>)
  ultimately show ?thesis
    using assms(1) unfolding s_ReadSlice_def Let_def view_def [symmetric]
    by (auto split: option.splits if_splits)
qed

lemma rd_ReadString_moves: "rd_ReadString r d = (x, r') \<Longrightarrow> rd_ok r \<Longrightarrow> rd_moves r r'"
  by (auto simp: rd_ReadString_def rd_ok_def rd_in_file_def split: prod.splits
      elim!: on_rd_moves intro: s_ReadSlice_moves)

lemma parseCIE_aug_moves: "parseCIE_aug chs cie r = (res, r') \<Longrightarrow> rd_moves r r'"
proof (induction chs cie r rule: parseCIE_aug.induct)
  case (2 ch chs cie r)
  then show ?case
    by (auto simp: Let_def split: if_splits prod.splits option.splits
        dest!: rd_read_moves ptr_moves intro: rd_moves_trans)
qed auto

lemma parseCIE_header_moves:
  assumes "parseCIE_header r = (res, r')" "rd_ok r"
  shows "rd_moves r r'"
proof -
  obtain ver r1 where v: "rd_Uint8 r = (ver, r1)" by fastforce
  obtain aug err r2 where s: "rd_ReadString r1 0 = ((aug, err), r2)" by (metis prod.exhaust)
  have m1: "rd_moves r r1" by (rule rd_read_moves(3) [OF v])
  have m2: "rd_moves r1 r2" by (rule rd_ReadString_moves [OF s rd_moves_ok [OF m1 assms(2)]])
  have "rd_moves r2 r'" if "r' \<noteq> r1"
    using assms(1) v s that unfolding parseCIE_header_def Let_def
    by (auto split: if_splits prod.splits option.splits list.splits dest!: rd_read_moves parseCIE_aug_moves)
      ((assumption | rule rd_moves_trans, (assumption | rule rd_Discard_moves))+)
  with m1 m2 show ?thesis by (blast intro: rd_moves_trans)
qed

section \<open>Entries return\<close>

abbreviation (input) supported :: "u16 \<Rightarrow> bool" where
  "supported a \<equiv> a = EM_X86_64 \<or> a = EM_AARCH64"

lemma newVMRegs_arch: "supported a \<Longrightarrow> \<exists>regs. newVMRegs a = Ret regs \<and> vm_arch regs = a"
  by (auto simp: newVMRegs_def newVMRegsX86_def newVMRegsARM_def Let_def)

lemma new_state_ok: "supported a \<Longrightarrow> vm_arch cur = a \<Longrightarrow> vm_arch (initialState cie) = a \<Longrightarrow> vm_ok a (new_state cie cur)"
  by (simp add: vm_ok_def new_state_def)

lemma StartSection_ok:
  assumes "rd_StartSection r n = (None, r1)" "rd_ok r"
  shows "rd_ok r1" "rd_avail r1 \<le> rd_avail r" "rd_machine r1 = rd_machine r"
  using assms
  by (auto simp: rd_StartSection_def on_rd_def s_StartSection_def rd_ok_def rd_in_file_def s_Remaining_def s_avail_def
      split: if_splits)

text \<open>A body that runs between the start and the end of a section.\<close>

lemma section_body:
  assumes "rd_StartSection r n = (None, r1)" "body = Ret (x, r2)" "rd_moves r1 r2"
  shows "\<exists>r'. run_bind body (\<lambda>(x, r). run_bind (rd_EndSection r) (\<lambda>r. Ret (x, r))) = Ret (x, r') \<and> rd_moves r r'"
  using rd_section_moves [OF assms(1,3)] assms(2) by auto

lemma parseCIE_returns:
  assumes "rd_ok r" "supported (rd_machine r)" "nat (rd_avail r) < fuel"
  shows "\<exists>res r'. parseCIE fuel r n = Ret (res, r') \<and> rd_moves r r' \<and>
    (\<forall>cie. res = Inr cie \<longrightarrow> vm_arch (initialState cie) = rd_machine r)"
proof (cases "rd_StartSection r n")
  case (Pair err r1)
  show ?thesis
  proof (cases err)
    case (Some e)
    with Pair show ?thesis by (auto simp: parseCIE_def dest: rd_StartSection_error)
  next
    case None
    note start = Pair [unfolded None]
    note s = StartSection_ok [OF start assms(1)]
    obtain res0 r2 where h: "parseCIE_header r1 = (res0, r2)" by fastforce
    note m = parseCIE_header_moves [OF h s(1)]
    have "\<exists>res r3. parseCIE_body fuel r1 = Ret (res, r3) \<and> rd_moves r1 r3 \<and>
      (\<forall>cie. res = Inr cie \<longrightarrow> vm_arch (initialState cie) = rd_machine r)"
    proof (cases res0)
      case (Inl e)
      with h m show ?thesis by (simp add: parseCIE_body_def)
    next
      case (Inr cie)
      have mach: "rd_machine r2 = rd_machine r" using rd_moves_machine [OF m] s(3) by simp
      obtain regs where regs: "newVMRegs (rd_machine r2) = Ret regs" "vm_arch regs = rd_machine r"
        using newVMRegs_arch assms(2) mach by metis
      have fuel: "nat (rd_avail r2) < fuel" using assms(3) s(2) rd_moves_avail [OF m] by linarith
      have ok: "vm_ok (rd_machine r) (new_state (cie\<lparr>initialState := regs\<rparr>) regs)"
        by (rule new_state_ok) (simp_all add: assms(2) regs(2))
      obtain err st r3 where step: "step fuel (new_state (cie\<lparr>initialState := regs\<rparr>) regs) r2 = Ret (err, st, r3)"
        "vm_ok (rd_machine r) st" "rd_moves r2 r3"
        using step_returns [OF ok _ fuel] rd_moves_ok [OF m s(1)] by (auto simp: rd_ok_def)
      then show ?thesis using h Inr regs m
        by (cases err) (auto simp: parseCIE_body_def Let_def vm_ok_def intro: rd_moves_trans)
    qed
    then obtain res r3 where b: "parseCIE_body fuel r1 = Ret (res, r3)" "rd_moves r1 r3"
      "\<forall>cie. res = Inr cie \<longrightarrow> vm_arch (initialState cie) = rd_machine r" by blast
    with section_body [OF start b(1,2)] start show ?thesis by (auto simp: parseCIE_def)
  qed
qed

text \<open>Every segment of the file lies in it: then reads of virtual memory return.\<close>

definition segments_ok :: "File \<Rightarrow> bool" where
  "segments_ok f \<longleftrightarrow> (\<forall>ph\<in>set (f_loadData f). uint (p_Memsz ph) < 2 ^ 62 \<and> (\<exists>data. prog_ok ph data))"

lemma Prog_ReadAt_returns:
  assumes "prog_ok ph data" "0 \<le> off" "off < 2 ^ 63"
  shows "\<exists>x. Prog_ReadAt ph p off = Ret x"
proof (cases "off < uint (p_Filesz ph)")
  case True
  have "off + int (min (length p) (nat (uint (p_Filesz ph) - off))) \<le> uint (p_Filesz ph)" using True by linarith
  then have "off + int (min (length p) (nat (uint (p_Filesz ph) - off))) < 2 ^ 63"
    using prog_okD(6,7) [OF assms(1)] by linarith
  then show ?thesis
    using assms(2) by (simp add: Prog_ReadAt_file_part [OF assms(1,2) True] Prog_ReadAt_gap_zero [OF assms(1)] Let_def)
next
  case False
  then have "\<not> (word_of_int off :: u64) < p_Filesz ph" using assms(2,3) by (subst less_Filesz) auto
  then show ?thesis by (simp add: Prog_ReadAt_def Prog_ReadAt_gap_zero [OF assms] Let_def)
qed

lemma VirtualMemory_returns:
  fixes a :: u64
  assumes "segments_ok f" "0 \<le> sz" "sz < 2 ^ 62"
  shows "\<exists>x. VirtualMemory f (sint a) sz maxSize = Ret x"
proof (cases "ProgByVirtualAddress f a")
  case None
  then show ?thesis by (simp add: VirtualMemory_def)
next
  case (Some ph)
  then have "ph \<in> set (f_loadData f)" by (auto simp: ProgByVirtualAddress_def find_Some_iff in_set_conv_nth)
  then obtain data where ok: "prog_ok ph data" and small: "uint (p_Memsz ph) < 2 ^ 62"
    using assms(1) unfolding segments_ok_def by blast
  note p = ProgByVirtualAddress_offset [OF Some ok]
  note d = prog_okD [OF ok]
  define off where "off = uint (a - p_Vaddr ph)"
  have o: "0 \<le> off" "off < uint (p_Memsz ph)"
    using p(1) uint_ge_0 [of "a - p_Vaddr ph"] unfolding off_def unat_eq_nat_uint by linarith+
  have i: "int64 (off + sz) = off + sz" by (rule int64_id) (use o small assms(2,3) in simp_all)
  obtain x where read: "Prog_ReadAt ph (replicate (nat sz) 0) off = Ret x"
    using Prog_ReadAt_returns [OF ok o(1)] o(2) d(7) by fastforce
  have "\<exists>y. Subslice (Some data) (int64 (uint (p_Off ph) + off)) sz = Ret (Inr y)"
    if "off + sz \<le> uint (p_Filesz ph)" "0 < sz"
  proof -
    have j: "int64 (uint (p_Off ph) + off) = uint (p_Off ph) + off"
      "int64 (uint (p_Off ph) + off + sz) = uint (p_Off ph) + off + sz"
      by (rule int64_id; use that o d(4,5) uint_ge_0 [of "p_Off ph"] in linarith)+
    have "uint (p_Off ph) + off + sz \<le> int (length data)" "\<not> uint (p_Off ph) + off < 0"
      using that o d(4) uint_ge_0 [of "p_Off ph"] by linarith+
    then show ?thesis using that(2) by (simp add: Subslice_def content_def j Let_def)
  qed
  then show ?thesis
    using Some assms(2) d(8) read
    by (cases "p_elfReader ph"; cases x) (auto simp: VirtualMemory_def p(3) off_def [symmetric] i d(1,2) Let_def)
qed

lemma isSignalTrampoline_returns: "segments_ok f \<Longrightarrow> \<exists>b. isSignalTrampoline f fde = Ret b"
proof -
  assume ok: "segments_ok f"
  have vm: "\<exists>x. VirtualMemory f (sint (fde_ipStart fde)) (int (length code)) 64 = Ret x"
    if "sigretCodeMap (f_Machine f) = Some code" for code
    by (rule VirtualMemory_returns [OF ok]) (use that in \<open>auto simp: sigretCodeMap_def split: if_splits\<close>)
  show ?thesis
  proof (cases "sigretCodeMap (f_Machine f)")
    case (Some code)
    with vm obtain bs err where "VirtualMemory f (sint (fde_ipStart fde)) (int (length code)) 64 = Ret (bs, err)"
      by (metis prod.exhaust)
    with Some show ?thesis by (auto simp: isSignalTrampoline_def)
  qed (auto simp: isSignalTrampoline_def)
qed

lemma getUnwindInfo_returns: "supported (vm_arch regs) \<Longrightarrow> \<exists>info. getUnwindInfo regs allow = Ret info"
  by (auto simp: getUnwindInfo_def)

lemma fde_loop_returns:
  assumes "vm_ok a st" "rd_ok r" "nat (rd_avail r) < fuel" "nat (rd_avail r) < k"
  shows "\<exists>res r'. fde_loop k fuel allow st deltas r = Ret (res, r') \<and> rd_moves r r'"
  using assms
proof (induction k arbitrary: st deltas r)
  case (Suc k)
  show ?case
  proof (cases "rd_Remaining r > 0")
    case False
    then show ?thesis by auto
  next
    case True
    have "rd_in_file r" using Suc.prems(2) by (simp add: rd_ok_def)
    from step_returns [OF Suc.prems(1) this Suc.prems(3)] True obtain err st' r1
      where step: "step fuel st r = Ret (err, st', r1)" "vm_ok a st'" "rd_moves r r1" "rd_avail r1 < rd_avail r"
      by blast
    obtain info where info: "getUnwindInfo (st_cur st') allow = Ret info"
      using getUnwindInfo_returns [of "st_cur st'"] step(2) by (auto simp: vm_ok_def)
    have "nat (rd_avail r1) < fuel" "nat (rd_avail r1) < k"
      using Suc.prems(3,4) step(4) s_avail_nonneg [of "rd r1"] by linarith+
    from Suc.IH [OF step(2) rd_moves_ok [OF step(3) Suc.prems(2)] this] obtain res r'
      where "fde_loop k fuel allow st' (StackDeltaArray_Add deltas (ucast (st_loc st)) info) r1 = Ret (res, r')" "rd_moves r1 r'"
      by blast
    with step(1,3) info True show ?thesis by (cases err) (auto intro: rd_moves_trans)
  qed
qed simp

lemma parseFDE_header_moves: "parseFDE_header r fid ipStart cie = (err, fde, r') \<Longrightarrow> rd_moves r r'"
  unfolding parseFDE_header_def Let_def
  by (auto split: if_splits prod.splits option.splits dest!: ptr_moves rd_read_moves)
    ((assumption | rule rd_Discard_moves | (rule rd_moves_trans, assumption))+)

text \<open>What the walk keeps of the extractor.\<close>

definition extends :: "elfExtractor \<Rightarrow> elfExtractor \<Rightarrow> bool" where
  "extends ee ee' \<longleftrightarrow> ee_file ee' = ee_file ee \<and> ee_allowGenericRegs ee' = ee_allowGenericRegs ee \<and>
     (counts_deltas (ee_intervals ee) \<longrightarrow> counts_deltas (ee_intervals ee'))"

lemma extends_refl [simp]: "extends ee ee"
  by (simp add: extends_def)

lemma extends_trans: "extends ee ee' \<Longrightarrow> extends ee' ee'' \<Longrightarrow> extends ee ee''"
  by (simp add: extends_def)

lemma parseFDE_body_returns:
  assumes "rd_ok r" "supported a" "vm_arch (initialState cie) = a" "nat (rd_avail r) < fuel" "segments_ok (ee_file ee)"
  shows "\<exists>res ee' r'. parseFDE_body fuel r fid ipStart cie (Some ee) = Ret (res, Some ee', r') \<and> rd_moves r r' \<and> extends ee ee'"
proof -
  obtain err fde r1 where h: "parseFDE_header r fid ipStart cie = (err, fde, r1)" by (metis prod.exhaust)
  note m = parseFDE_header_moves [OF h]
  obtain go hooks where hk: "fdeHook (ee_hooks ee) fde = (go, hooks)" by fastforce
  define x where "x = ee\<lparr>ee_hooks := hooks\<rparr>"
  have x: "extends ee x" "ee_file x = ee_file ee" by (simp_all add: x_def extends_def)
  obtain sig where sig: "(if isSignalHandler cie then Ret True else isSignalTrampoline (ee_file x) fde) = Ret sig"
    using isSignalTrampoline_returns [OF assms(5)] x(2) by (cases "isSignalHandler cie") auto
  have fuel: "nat (rd_avail r1) < fuel" using assms(4) rd_moves_avail [OF m] by linarith
  obtain res r2 where loop: "(if sig then Ret (Inr (StackDeltaArray_Add [] 0 UnwindInfoSignal), r1)
      else fde_loop fuel fuel (ee_allowGenericRegs x) (new_state cie (initialState cie)) [] r1) = Ret (res, r2)" "rd_moves r1 r2"
    using fde_loop_returns [OF new_state_ok [OF assms(2) assms(3) assms(3)] rd_moves_ok [OF m assms(1)] fuel fuel]
    by (cases sig) fastforce+
  have "extends ee (x\<lparr>ee_intervals := IntervalData_Add (ee_intervals x) bb\<rparr>)" for bb
    using IntervalData_Add_counts by (auto simp: x_def extends_def)
  with h m hk sig loop x(1) show ?thesis
    by (cases err; cases go; cases res) (auto simp: parseFDE_body_def x_def [symmetric] intro: rd_moves_trans)
qed

lemma parseFDE_returns:
  assumes "rd_ok r" "supported a" "vm_arch (initialState cie) = a" "nat (rd_avail r) < fuel" "segments_ok (ee_file ee)"
  shows "\<exists>res ee' r'. parseFDE fuel r fid n ipStart cie (Some ee) = Ret (res, Some ee', r') \<and> rd_moves r r' \<and> extends ee ee'"
proof (cases "rd_StartSection r n")
  case (Pair err r1)
  show ?thesis
  proof (cases err)
    case (Some e)
    with Pair show ?thesis by (auto simp: parseFDE_def dest: rd_StartSection_error)
  next
    case None
    note start = Pair [unfolded None]
    note s = StartSection_ok [OF start assms(1)]
    have "nat (rd_avail r1) < fuel" using assms(4) s(2) by linarith
    from parseFDE_body_returns [OF s(1) assms(2,3) this assms(5)] obtain res ee' r2
      where b: "parseFDE_body fuel r1 fid ipStart cie (Some ee) = Ret (res, Some ee', r2)" "rd_moves r1 r2" "extends ee ee'"
      by blast
    from rd_section_moves [OF start b(2)] obtain r3 where "rd_EndSection r2 = Ret r3" "rd_moves r r3" by blast
    with start b(1,3) show ?thesis by (simp add: parseFDE_def)
  qed
qed

section \<open>The walk returns\<close>

text \<open>
  What the code relies on in the cache: a key is found only with a value that was added for it.  \<open>contents\<close> is the
  set of entries a cache holds; entries may be evicted at any time.
\<close>

definition lru_ok :: "'c lru \<Rightarrow> ('c \<Rightarrow> (int \<times> cieInfo) set) \<Rightarrow> bool" where
  "lru_ok lru contents \<longleftrightarrow> contents (lru_New lru) = {} \<and>
     (\<forall>c k v c'. lru_Get lru c k = (Some v, c') \<longrightarrow> (k, v) \<in> contents c) \<and>
     (\<forall>c k. contents (snd (lru_Get lru c k)) \<subseteq> contents c) \<and>
     (\<forall>c k v. contents (lru_Add lru c k v) \<subseteq> insert (k, v) (contents c))"

definition cache_arch :: "('c \<Rightarrow> (int \<times> cieInfo) set) \<Rightarrow> u16 \<Rightarrow> 'c \<Rightarrow> bool" where
  "cache_arch contents a c \<longleftrightarrow> (\<forall>(k, cie) \<in> contents c. vm_arch (initialState cie) = a)"

lemma cache_arch_Add:
  "lru_ok lru contents \<Longrightarrow> cache_arch contents a c \<Longrightarrow> vm_arch (initialState cie) = a \<Longrightarrow> cache_arch contents a (lru_Add lru c k cie)"
  unfolding lru_ok_def cache_arch_def by blast

lemma cache_arch_Get:
  assumes "lru_ok lru contents" "cache_arch contents a c" "lru_Get lru c k = (res, c')"
  shows "cache_arch contents a c'" "res = Some cie \<Longrightarrow> vm_arch (initialState cie) = a"
proof -
  have "contents c' \<subseteq> contents c" using assms(1,3) unfolding lru_ok_def by (metis snd_conv)
  with assms(2) show "cache_arch contents a c'" unfolding cache_arch_def by blast
  show "vm_arch (initialState cie) = a" if "res = Some cie"
    using assms that unfolding lru_ok_def cache_arch_def by blast
qed

text \<open>The range of the walk lies in the file.\<close>

definition range_ok :: "reader \<Rightarrow> bool" where
  "range_ok r \<longleftrightarrow> 0 \<le> s_start (rd r) \<and> s_start (rd r) \<le> s_limit (rd r) \<and>
     s_limit (rd r) \<le> int (length (content (s_source (rd r)))) \<and> int (length (content (s_source (rd r)))) < 2 ^ 63"

lemma rd_moves_range: "rd_moves r r' \<Longrightarrow> range_ok r' = range_ok r \<and> s_limit (rd r') = s_limit (rd r) \<and> s_start (rd r') = s_start (rd r)"
  by (auto simp: rd_moves_def s_moves_def s_advance_def range_ok_def)

lemma cie_reader_ok:
  assumes "range_ok r"
  shows "rd_ok (cie_reader r pos)" "rd_avail (cie_reader r pos) \<le> s_limit (rd r) - s_start (rd r)"
    "rd_machine (cie_reader r pos) = rd_machine r"
proof -
  have "int64 (s_limit (rd r)) = s_limit (rd r)" by (rule int64_id) (use assms in \<open>auto simp: range_ok_def\<close>)
  then show "rd_ok (cie_reader r pos)" "rd_avail (cie_reader r pos) \<le> s_limit (rd r) - s_start (rd r)"
    "rd_machine (cie_reader r pos) = rd_machine r"
    using assms by (auto simp: cie_reader_def rd_ok_def rd_in_file_def s_Init_def s_Seek_def range_ok_def s_avail_def Let_def)
qed

lemma processCIE_returns:
  assumes "lru_ok lru contents" "cache_arch contents (rd_machine r) c" "range_ok r" "supported (rd_machine r)"
    "nat (s_limit (rd r) - s_start (rd r)) < fuel"
  shows "\<exists>res c'. processCIE lru fuel r pos c = Ret (res, c') \<and> cache_arch contents (rd_machine r) c' \<and>
    (\<forall>cie. res = Inr cie \<longrightarrow> vm_arch (initialState cie) = rd_machine r)"
proof -
  note cr = cie_reader_ok [OF assms(3), of pos]
  obtain got c1 where g: "lru_Get lru c pos = (got, c1)" by fastforce
  note arch = cache_arch_Get [OF assms(1,2) g]
  obtain res r1 where p: "parseLengthAndMarker (cie_reader r pos) = (res, r1)" by fastforce
  note m = parseLengthAndMarker_moves(1) [OF p]
  have "nat (rd_avail r1) < fuel" using assms(5) cr(2) rd_moves_avail [OF m] by linarith
  then obtain cres r2 where c: "parseCIE fuel r1 n = Ret (cres n, r2 n)"
    "\<forall>cie. cres n = Inr cie \<longrightarrow> vm_arch (initialState cie) = rd_machine r" for n
    using parseCIE_returns [OF rd_moves_ok [OF m cr(1)], of fuel] rd_moves_machine [OF m] cr(3) assms(4) by metis
  show ?thesis
  proof (cases got)
    case (Some cie)
    with g arch show ?thesis by (simp add: processCIE_def)
  next
    case None
    show ?thesis
    proof (cases res)
      case (Inl e)
      with g None p arch(1) show ?thesis by (simp add: processCIE_def)
    next
      case (Inr lm)
      obtain len marker where lm: "lm = (len, marker)" by fastforce
      have "\<exists>x y. cres len = Inl x \<or> cres len = Inr y" by (cases "cres len") auto
      with g None p Inr lm arch(1) c [of len] cache_arch_Add [OF assms(1) arch(1)] show ?thesis
        by (cases "marker \<ge> 0"; cases "cres len") (auto simp: processCIE_def)
    qed
  qed
qed

text \<open>
  One round of the loop: it returns, or it goes on behind the entry with the cache and the interval data still
  in order.
\<close>

definition walk_inv :: "('c \<Rightarrow> (int \<times> cieInfo) set) \<Rightarrow> nat \<Rightarrow> reader \<Rightarrow> 'c \<Rightarrow> elfExtractor \<Rightarrow> bool" where
  "walk_inv contents fuel r c ee \<longleftrightarrow> cache_arch contents (rd_machine r) c \<and> range_ok r \<and> rd_ok r \<and> supported (rd_machine r) \<and>
     nat (s_limit (rd r) - s_start (rd r)) < fuel \<and> nat (rd_avail r) < fuel \<and> segments_ok (ee_file ee)"

lemma walk_inv_moves:
  assumes "walk_inv contents fuel r c ee" "rd_moves r r'" "cache_arch contents (rd_machine r) c'" "extends ee ee'"
  shows "walk_inv contents fuel r' c' ee'"
  using assms rd_moves_range [OF assms(2)] rd_moves_machine [OF assms(2)] rd_moves_ok [OF assms(2)] rd_moves_avail [OF assms(2)]
  by (auto simp: walk_inv_def extends_def)

definition walk_goes_on ::
  "('c \<Rightarrow> (int \<times> cieInfo) set) \<Rightarrow> nat \<Rightarrow> 'c lru \<Rightarrow> nat \<Rightarrow> reader \<Rightarrow> 'c \<Rightarrow> elfExtractor \<Rightarrow> bool" where
  "walk_goes_on contents k lru fuel r c ee \<longleftrightarrow>
     (\<exists>err ee'. walk_loop (Suc k) lru fuel r c ee = Ret (err, ee') \<and> extends ee ee') \<or>
     (\<exists>r2 c2 ee2. walk_loop (Suc k) lru fuel r c ee = walk_loop k lru fuel r2 c2 ee2 \<and> rd_avail r2 < rd_avail r \<and>
        walk_inv contents fuel r2 c2 ee2 \<and> extends ee ee2)"

lemma walk_cie:
  assumes lru: "lru_ok lru contents" and inv: "walk_inv contents fuel r c ee" and "rd_Remaining r > 0"
    and p: "parseLengthAndMarker r = (Inr (n, pos), r1)" and "pos < 0"
  shows "walk_goes_on contents k lru fuel r c ee"
proof -
  note m = parseLengthAndMarker_moves [OF p]
  have "walk_inv contents fuel r1 c ee" using inv by (rule walk_inv_moves) (use m inv in \<open>auto simp: walk_inv_def\<close>)
  then obtain cres r2 where c: "parseCIE fuel r1 n = Ret (cres, r2)" "rd_moves r1 r2"
    "\<forall>cie. cres = Inr cie \<longrightarrow> vm_arch (initialState cie) = rd_machine r"
    using parseCIE_returns [of r1 fuel n] rd_moves_machine [OF m(1)] by (auto simp: walk_inv_def)
  show ?thesis
  proof (cases cres)
    case (Inl e)
    with assms(3-5) c(1) show ?thesis by (simp add: walk_goes_on_def)
  next
    case (Inr cie)
    with c(3) inv have "cache_arch contents (rd_machine r) (lru_Add lru c (rd_Tell r) cie)"
      by (intro cache_arch_Add [OF lru]) (auto simp: walk_inv_def)
    then have "walk_inv contents fuel r2 (lru_Add lru c (rd_Tell r) cie) ee"
      by (rule walk_inv_moves [OF inv rd_moves_trans [OF m(1) c(2)] _ extends_refl])
    moreover have "rd_avail r2 < rd_avail r" using m(2) [OF refl] rd_moves_avail [OF c(2)] by linarith
    moreover have "walk_loop (Suc k) lru fuel r c ee = walk_loop k lru fuel r2 (lru_Add lru c (rd_Tell r) cie) ee"
      using assms(3-5) c(1) Inr by simp
    ultimately show ?thesis unfolding walk_goes_on_def using extends_refl by blast
  qed
qed

lemma walk_fde:
  assumes lru: "lru_ok lru contents" and inv: "walk_inv contents fuel r c ee" and "rd_Remaining r > 0"
    and p: "parseLengthAndMarker r = (Inr (n, pos), r1)" and "\<not> pos < 0"
  shows "walk_goes_on contents k lru fuel r c ee"
proof -
  note m = parseLengthAndMarker_moves [OF p]
  note mach = rd_moves_machine [OF m(1)]
  have r1: "walk_inv contents fuel r1 c ee" using inv by (rule walk_inv_moves) (use m inv in \<open>auto simp: walk_inv_def\<close>)
  then obtain cres c1 where c: "processCIE lru fuel r1 pos c = Ret (cres, c1)" "cache_arch contents (rd_machine r) c1"
    "\<forall>cie. cres = Inr cie \<longrightarrow> vm_arch (initialState cie) = rd_machine r"
    using processCIE_returns [OF lru, of r1 c fuel pos] mach by (auto simp: walk_inv_def)
  show ?thesis
  proof (cases cres)
    case (Inl e)
    with assms(3-5) c(1) show ?thesis by (simp add: walk_goes_on_def)
  next
    case (Inr cie)
    obtain res ee2 r2 where f: "parseFDE fuel r1 (rd_Tell r) n 0 cie (Some ee) = Ret (res, Some ee2, r2)"
      "rd_moves r1 r2" "extends ee ee2"
      using parseFDE_returns [of r1 "rd_machine r" cie fuel ee "rd_Tell r" n 0] r1 c(3) Inr mach by (auto simp: walk_inv_def)
    have "walk_inv contents fuel r2 c1 ee2"
      by (rule walk_inv_moves [OF inv rd_moves_trans [OF m(1) f(2)] c(2) f(3)])
    moreover have "rd_avail r2 < rd_avail r" using m(2) [OF refl] rd_moves_avail [OF f(2)] by linarith
    ultimately show ?thesis using assms(3-5) c(1) Inr f(1,3)
      by (cases res; cases "fst res") (auto simp: walk_goes_on_def Let_def)
  qed
qed

lemma walk_loop_returns:
  assumes lru: "lru_ok lru contents" and "walk_inv contents fuel r c ee" "nat (rd_avail r) < k"
  shows "\<exists>err ee'. walk_loop k lru fuel r c ee = Ret (err, ee') \<and> extends ee ee'"
  using assms(2,3)
proof (induction k arbitrary: r c ee)
  case (Suc k)
  obtain res r1 where p: "parseLengthAndMarker r = (res, r1)" by fastforce
  consider "\<not> rd_Remaining r > 0 \<or> (\<exists>e. res = Inl e)" | n pos where "rd_Remaining r > 0" "res = Inr (n, pos)"
    by (metis old.sum.exhaust surj_pair)
  then show ?case
  proof cases
    case 1
    with p show ?thesis by (auto simp: Let_def)
  next
    case 2
    then have "walk_goes_on contents k lru fuel r c ee"
      using walk_cie [OF lru Suc.prems(1)] walk_fde [OF lru Suc.prems(1)] p by blast
    then consider "\<exists>err ee'. walk_loop (Suc k) lru fuel r c ee = Ret (err, ee') \<and> extends ee ee'"
      | r2 c2 ee2 where "walk_loop (Suc k) lru fuel r c ee = walk_loop k lru fuel r2 c2 ee2" "rd_avail r2 < rd_avail r"
        "walk_inv contents fuel r2 c2 ee2" "extends ee ee2"
      unfolding walk_goes_on_def by blast
    then show ?thesis
    proof cases
      case (2 r2 c2 ee2)
      have "nat (rd_avail r2) < k" using Suc.prems(2) 2(2) s_avail_nonneg [of "rd r2"] by linarith
      from Suc.IH [OF 2(3) this] 2(1,4) show ?thesis by (auto intro: extends_trans)
    qed
  qed
qed simp

text \<open>
  C8: the extraction of stack deltas from a call-frame section ends: on a region that lies in the file, with the
  segments inside the file and a supported machine, the walk over all entries returns for any contents of the
  section, without running out of fuel and without a panic, and the number of deltas it reports is the number of
  deltas in the blocks.  The cache of common entries may evict what it likes.
\<close>

theorem walkFDEs_returns:
  assumes "lru_ok lru contents" and "counts_deltas (ee_intervals ee)" "segments_ok (ee_file ee)"
    and "supported (f_Machine ef)" "0 \<le> rg_offset frames" "0 \<le> rg_length frames"
    and "rg_offset frames + rg_length frames \<le> int (length (f_elfReader ef))" "int (length (f_elfReader ef)) < 2 ^ 63"
    and "nat (rg_length frames) < fuel"
  shows "\<exists>err ee'. walkFDEs lru fuel ee ef frames debugFrame = Ret (err, ee') \<and> ee_file ee' = ee_file ee \<and>
     counts_deltas (ee_intervals ee')"
proof -
  let ?r = "frames_reader ef frames debugFrame"
  have i: "int64 (rg_offset frames + rg_length frames) = rg_offset frames + rg_length frames"
    by (rule int64_id) (use assms(5-8) in linarith)+
  have avail: "rd_avail ?r = rg_length frames"
    using assms(5-7) by (simp add: frames_reader_def s_Init_def s_avail_def content_def i)
  have "walk_inv contents fuel ?r (lru_New lru) ee"
    using assms avail
    by (auto simp: walk_inv_def cache_arch_def lru_ok_def range_ok_def rd_ok_def rd_in_file_def frames_reader_def s_Init_def content_def i)
  moreover have "nat (rd_avail ?r) < fuel" using assms(9) avail by simp
  ultimately obtain err ee' where "walk_loop fuel lru fuel ?r (lru_New lru) ee = Ret (err, ee')" "extends ee ee'"
    using walk_loop_returns [OF assms(1)] by blast
  with assms(2) show ?thesis by (auto simp: walkFDEs_def extends_def)
qed

text \<open>A cache of the most recent entries, and a section with one common entry and one frame description.\<close>

definition recent_lru :: "(int \<times> cieInfo) list lru" where
  "recent_lru = \<lparr>lru_New = [], lru_Get = (\<lambda>c k. (map_of c k, c)), lru_Add = (\<lambda>c k v. take 128 ((k, v) # c))\<rparr>"

lemma recent_lru_ok: "lru_ok recent_lru set"
proof -
  have "set (take n xs) \<subseteq> set xs" for n and xs :: "(int \<times> cieInfo) list" by (rule set_take_subset)
  then show ?thesis
    unfolding lru_ok_def recent_lru_def using map_of_SomeD by (fastforce dest: in_set_takeD)
qed

definition example_section :: "u8 list" where
  "example_section =
     [0x10, 0, 0, 0, 0, 0, 0, 0, 1, 0, 1, 0x78, 0x10, 0x0c, 7, 8, 0x90, 1, 0, 0] @
     [0x14, 0, 0, 0, 0x18, 0, 0, 0, 0, 0x10, 0, 0, 0, 0, 0, 0, 0x20, 0, 0, 0, 0, 0, 0, 0] @ [0, 0, 0, 0]"

definition example_extractor :: elfExtractor where
  "example_extractor = \<lparr>ee_file = (table_File [])\<lparr>f_elfReader := example_section, f_Machine := EM_X86_64\<rparr>,
     ee_hooks = \<lparr>flt_start = 0, flt_end = 0, flt_entryStart = 0, flt_entryEnd = 0, flt_ehFrames = False, flt_golangFrames = False\<rparr>,
     ee_intervals = \<lparr>NumDeltas = 0, Blocks = []\<rparr>, ee_allowGenericRegs = False\<rparr>"

lemma example_extractor_ok: "segments_ok (ee_file example_extractor)" "counts_deltas (ee_intervals example_extractor)"
  by (simp_all add: segments_ok_def example_extractor_def table_File_def example_File_def counts_deltas_def prog_ok_def)

theorem walkFDEs_returns_witness:
  "\<exists>err ee'. walkFDEs recent_lru 60 example_extractor (ee_file example_extractor)
       \<lparr>rg_offset = 0, rg_length = 48, rg_vaddr = 0\<rparr> False = Ret (err, ee') \<and>
     ee_file ee' = ee_file example_extractor \<and> counts_deltas (ee_intervals ee')"
  by (rule walkFDEs_returns [OF recent_lru_ok example_extractor_ok(2,1)])
    (simp_all add: example_extractor_def example_section_def)

section \<open>The filter\<close>

text \<open>The code ranges that the other sources of stack deltas cover.\<close>

definition range_of_fde :: "fdeInfo \<Rightarrow> nat set" where
  "range_of_fde fde = {unat (fde_ipStart fde) ..< unat (fde_ipStart fde) + unat (fde_ipLen fde)}"

text \<open>
  C35: the filter lets a frame description pass only when its code range is disjoint from the entry stub and does not
  lie inside the area of the Go line table, so that no address gets two descriptions.  A description that starts
  right behind the entry stub is dropped as well, although it does not overlap it.
\<close>

theorem fdeHook_filters:
  assumes "unat (fde_ipStart fde) + unat (fde_ipLen fde) < 2 ^ 64" "0 < fde_ipLen fde"
  shows "(fst (fdeHook f fde) \<longrightarrow> range_of_fde fde \<inter> {unat (flt_entryStart f) ..< unat (flt_entryEnd f)} = {} \<and>
       \<not> range_of_fde fde \<subseteq> {unat (flt_start f) ..< unat (flt_end f)} \<and> flt_ehFrames (snd (fdeHook f fde))) \<and>
     (fde_ipStart fde = flt_entryEnd f \<and> flt_entryStart f \<le> flt_entryEnd f \<longrightarrow> \<not> fst (fdeHook f fde))"
proof -
  have u: "unat (fde_ipStart fde + fde_ipLen fde) = unat (fde_ipStart fde) + unat (fde_ipLen fde)"
    using assms(1) by (simp add: unat_word_ariths)
  have l: "0 < unat (fde_ipLen fde)" using assms(2) by (simp add: word_less_nat_alt)
  have sub: "range_of_fde fde \<subseteq> {unat (flt_start f) ..< unat (flt_end f)} \<longleftrightarrow>
      flt_start f \<le> fde_ipStart fde \<and> fde_ipStart fde + fde_ipLen fde \<le> flt_end f"
    using l by (auto simp: range_of_fde_def ivl_subset word_le_nat_alt u)
  have disj: "range_of_fde fde \<inter> {unat (flt_entryStart f) ..< unat (flt_entryEnd f)} = {}"
    if "\<not> (fde_ipStart fde + fde_ipLen fde > flt_entryStart f \<and> flt_entryEnd f \<ge> fde_ipStart fde)"
    using that by (auto simp: range_of_fde_def word_le_nat_alt word_less_nat_alt u)
  have "flt_entryStart f \<le> flt_entryEnd f \<Longrightarrow> fde_ipStart fde = flt_entryEnd f \<Longrightarrow> flt_entryStart f < fde_ipStart fde + fde_ipLen fde"
    unfolding word_le_nat_alt word_less_nat_alt u using l by simp
  then show ?thesis using sub disj by (auto simp: fdeHook_def)
qed

theorem fdeHook_filters_witness:
  "let f = \<lparr>flt_start = 0, flt_end = 0, flt_entryStart = 0x1000, flt_entryEnd = 0x1010, flt_ehFrames = False, flt_golangFrames = False\<rparr>;
       fde = \<lparr>fde_id = 0, fde_ciePos = 0, fde_ipLen = 4, fde_ipStart = 0x1010\<rparr>
   in \<not> fst (fdeHook f fde) \<and> range_of_fde fde \<inter> {unat (flt_entryStart f) ..< unat (flt_entryEnd f)} = {} \<and>
      fst (fdeHook f (fde\<lparr>fde_ipStart := 0x2000\<rparr>)) \<and>
      range_of_fde (fde\<lparr>fde_ipStart := 0x2000\<rparr>) \<inter> {unat (flt_entryStart f) ..< unat (flt_entryEnd f)} = {}"
  using fdeHook_filters [of "\<lparr>fde_id = 0, fde_ciePos = 0, fde_ipLen = 4, fde_ipStart = 0x1010\<rparr>"
      "\<lparr>flt_start = 0, flt_end = 0, flt_entryStart = 0x1000, flt_entryEnd = 0x1010, flt_ehFrames = False, flt_golangFrames = False\<rparr>"]
    fdeHook_filters [of "\<lparr>fde_id = 0, fde_ciePos = 0, fde_ipLen = 4, fde_ipStart = 0x2000\<rparr>"
      "\<lparr>flt_start = 0, flt_end = 0, flt_entryStart = 0x1000, flt_entryEnd = 0x1010, flt_ehFrames = False, flt_golangFrames = False\<rparr>"]
  by (simp add: fdeHook_def range_of_fde_def)

end
