(* ===== verification/EbpfMaps.thy ===== *)
theory EbpfMaps
  imports Lpm StackDelta
begin

text \<open>
  The eBPF map handler of \<open>src/processmanager/ebpf/ebpf.go\<close>, its asynchronous updater of the
  map-in-map tables (\<open>asyncupdate.go\<close>) and the handler interface (\<open>src/processmanager/ebpfapi\<close>).

  The maps themselves live in the kernel and are reached through a third-party library.  They are a
  parameter of the model: a record \<open>'k bpf\<close> of operations on a kernel state \<open>'k\<close>, with the
  documented behaviour the theorems need stated as the predicate \<open>bpf_laws\<close>.  A map handle is named by
  the map it refers to, so a clone of a handle has the same name.
\<close>

section \<open>Maps, keys and values\<close>

datatype InterpreterType = UnknownInterp | PHP | PHPJIT | Python | Native | Kernel | HotSpot | Ruby | Perl | V8
  | Dotnet | LuaJIT | Go | BEAM | ThreadContext

record StackDeltaEBPF =
  AddressLow :: u16
  UnwindInfo_idx :: u16

record StackDeltaPageKey =
  FileID :: u64
  Page :: u64

record StackDeltaPageInfo =
  FirstDelta :: u32
  pi_NumDeltas :: u16
  MapID :: u16

record PIDPage =
  PrefixLen :: u32
  Pid :: u32
  pp_Page :: u64

record PIDPageMappingInfo =
  File_id :: u64
  Bias_and_unwind_program :: u64

record OffsetRange =
  Lower_offset1 :: u64
  Upper_offset1 :: u64
  Lower_offset2 :: u64
  Upper_offset2 :: u64
  Program_index :: u16

text \<open>The maps of \<open>ebpfMapsImpl\<close>; \<open>ExeIDToStackDeltas i\<close> is the outer map of bucket \<open>i\<close>.\<close>

datatype bpfmap = InterpreterOffsets | PerlProcs | PyProcs | HotspotProcs | PhpProcs | RubyProcs | V8Procs
  | BeamProcs | LuaJitProcs | GoProcs | ThreadContextProcs | ExeIDToStackDeltas u16 | StackDeltaPageToInfo
  | PidPageToMappingInfo | UnwindInfoArray | ReportedPIDs | InnerMap nat

datatype bkey = K32 u32 | K64 u64 | KPage StackDeltaPageKey | KPid PIDPage

datatype bval = VRange OffsetRange | VProc "u8 list" | VMap bpfmap | VPageInfo StackDeltaPageInfo
  | VMapping PIDPageMappingInfo | VUnwind UnwindInfo | VDelta StackDeltaEBPF

datatype bpf_error = E2BIG | ErrKeyExist | ErrKeyNotExist | Errno int

datatype update_flag = UpdateAny | UpdateNoExist

record 'k bpf =
  bpf_Lookup :: "bpfmap \<Rightarrow> bkey \<Rightarrow> 'k \<Rightarrow> bval option"
  bpf_Update :: "bpfmap \<Rightarrow> bkey \<Rightarrow> bval \<Rightarrow> update_flag \<Rightarrow> 'k \<Rightarrow> bpf_error option \<times> 'k"
  bpf_Delete :: "bpfmap \<Rightarrow> bkey \<Rightarrow> 'k \<Rightarrow> bpf_error option \<times> 'k"
  bpf_BatchUpdate :: "bpfmap \<Rightarrow> bkey list \<Rightarrow> bval list \<Rightarrow> 'k \<Rightarrow> (int \<times> bpf_error option) \<times> 'k"
  bpf_BatchDelete :: "bpfmap \<Rightarrow> bkey list \<Rightarrow> 'k \<Rightarrow> (int \<times> bpf_error option) \<times> 'k"
  bpf_NewMap :: "u32 \<Rightarrow> 'k \<Rightarrow> (bpf_error + nat) \<times> 'k"
  bpf_Clone :: "bpfmap \<Rightarrow> 'k \<Rightarrow> bpf_error option \<times> 'k"
  bpf_Close :: "bpfmap \<Rightarrow> 'k \<Rightarrow> bpf_error option \<times> 'k"
  bpf_MaximizeMemlock :: "'k \<Rightarrow> bpf_error option \<times> 'k"
  bpf_restoreRlimit :: "'k \<Rightarrow> 'k"
  bpf_MaxEntries :: "bpfmap \<Rightarrow> u32"

datatype handler_error = BpfErr bpf_error | InvalidRanges | TypeNotSupported InterpreterType
  | BiasErr bias_error | NoMoreSpace InterpreterType | NoMapAvailable u32 | InvalidMapID u16
  | UnwindInfoArrayFull u16 | MapNotAvailable string | NegativeBatchCount int | Joined "handler_error list"

text \<open>\<open>errors.Join\<close> of a collected error with one more.\<close>

fun errors_Join :: "handler_error option \<Rightarrow> handler_error option \<Rightarrow> handler_error option" where
  "errors_Join None e = e"
| "errors_Join (Some e) None = Some e"
| "errors_Join (Some e) (Some e') = Some (Joined [e, e'])"

section \<open>The asynchronous updater\<close>

record asyncMapInMapUpdate =
  up_Outer :: bpfmap
  up_FileID :: u64
  up_Inner :: "bpfmap option"

text \<open>A worker with its channel; \<open>draining\<close> tells that it has left the loop \<open>WorkerLoop\<close>.\<close>

record asyncUpdateWorker =
  queue :: "asyncMapInMapUpdate list"
  draining :: bool

record asyncMapUpdaterPool =
  workers :: "asyncUpdateWorker list"
  ctx_done :: bool

abbreviation (input) updatePoolWorkers :: nat where "updatePoolWorkers \<equiv> 16"
abbreviation (input) updatePoolQueueCap :: nat where "updatePoolQueueCap \<equiv> 8"

definition newAsyncMapUpdaterPool :: "nat \<Rightarrow> asyncMapUpdaterPool" where
  "newAsyncMapUpdaterPool numWorkers =
     \<lparr>workers = replicate numWorkers \<lparr>queue = [], draining = False\<rparr>, ctx_done = False\<rparr>"

text \<open>The index of the worker; Go's division panics without workers.\<close>

definition workerIdx :: "asyncMapUpdaterPool \<Rightarrow> u64 \<Rightarrow> nat" where
  "workerIdx p fileID = unat fileID mod length (workers p)"

text \<open>
  \<open>EnqueueUpdate\<close>: the state after the send.  The send of a full channel waits for the worker, which
  only touches outer maps; \<open>pool_step\<close> has that wait as the guard of its send.
\<close>

definition EnqueueUpdate :: "bpfmap \<Rightarrow> u64 \<Rightarrow> bpfmap option \<Rightarrow> asyncMapUpdaterPool \<Rightarrow> asyncMapUpdaterPool run" where
  "EnqueueUpdate outer fileID inner p =
     (if workers p = [] then Panic
      else if ctx_done p then Ret p
      else (let i = workerIdx p fileID; w = workers p ! i
        in Ret (p\<lparr>workers := (workers p)[i := w\<lparr>queue := queue w @
             [\<lparr>up_Outer = outer, up_FileID = fileID, up_Inner = inner\<rparr>]\<rparr>]\<rparr>)))"

text \<open>One iteration of \<open>WorkerLoop\<close> on a received update, and of the drain loop.\<close>

definition serve_update :: "'k bpf \<Rightarrow> asyncMapInMapUpdate \<Rightarrow> 'k \<Rightarrow> 'k" where
  "serve_update K update k =
     (case up_Inner update of
        None \<Rightarrow> snd (bpf_Delete K (up_Outer update) (K64 (up_FileID update)) k)
      | Some inner \<Rightarrow>
          (let (err, k) = bpf_Update K (up_Outer update) (K64 (up_FileID update)) (VMap inner) UpdateNoExist k
           in snd (bpf_Close K inner k)))"

definition drain_update :: "'k bpf \<Rightarrow> asyncMapInMapUpdate \<Rightarrow> 'k \<Rightarrow> 'k" where
  "drain_update K update k =
     (case up_Inner update of None \<Rightarrow> k | Some inner \<Rightarrow> snd (bpf_Close K inner k))"

section \<open>The handler\<close>

record 'k ebpfMapsImpl =
  kern :: 'k
  available :: "bpfmap list"
  errCounter :: "(string \<times> int) list"
  hasLPMTrieBatchOperations :: bool
  updateWorkers :: asyncMapUpdaterPool

text \<open>The fields with a \<open>name\<close> tag, in the order of the struct.\<close>

definition tagged_fields :: "(bpfmap \<times> string) list" where
  "tagged_fields =
     [(InterpreterOffsets, ''interpreter_offsets''), (PerlProcs, ''perl_procs''), (PyProcs, ''py_procs''),
      (HotspotProcs, ''hotspot_procs''), (PhpProcs, ''php_procs''), (RubyProcs, ''ruby_procs''), (V8Procs, ''v8_procs''),
      (BeamProcs, ''beam_procs''), (LuaJitProcs, ''luajit_procs''), (GoProcs, ''go_procs''),
      (ThreadContextProcs, ''thread_context_procs''), (StackDeltaPageToInfo, ''stack_delta_page_to_info''),
      (PidPageToMappingInfo, ''pid_page_to_mapping_info''), (UnwindInfoArray, ''unwind_info_array''),
      (ReportedPIDs, ''reported_pids'')]"

abbreviation (input) StackDeltaBucketSmallest :: nat where "StackDeltaBucketSmallest \<equiv> 8"
abbreviation (input) StackDeltaBucketLargest :: nat where "StackDeltaBucketLargest \<equiv> 23"

fun decimal :: "nat \<Rightarrow> string" where
  "decimal n = (if n < 10 then [char_of (48 + n)] else decimal (n div 10) @ [char_of (48 + n mod 10)])"

fun load_tagged :: "(string \<Rightarrow> bool) \<Rightarrow> (string \<Rightarrow> bool) \<Rightarrow> (bpfmap \<times> string) list \<Rightarrow> handler_error + bpfmap list" where
  "load_tagged IsMapEnabled maps [] = Inr []"
| "load_tagged IsMapEnabled maps ((m, nameTag) # fs) =
     (if \<not> maps nameTag
      then (if \<not> IsMapEnabled nameTag then load_tagged IsMapEnabled maps fs else Inl (MapNotAvailable nameTag))
      else (case load_tagged IsMapEnabled maps fs of Inl e \<Rightarrow> Inl e | Inr ms \<Rightarrow> Inr (m # ms)))"

fun load_buckets :: "(string \<Rightarrow> bool) \<Rightarrow> nat list \<Rightarrow> handler_error + bpfmap list" where
  "load_buckets maps [] = Inr []"
| "load_buckets maps (i # is) =
     (let deltasMapName = ''exe_id_to_'' @ decimal i @ ''_stack_deltas''
      in if \<not> maps deltasMapName then Inl (MapNotAvailable deltasMapName)
         else (case load_buckets maps is of Inl e \<Rightarrow> Inl e | Inr ms \<Rightarrow> Inr (ExeIDToStackDeltas (of_nat i) # ms)))"

text \<open>
  \<open>LoadMaps\<close>, given which maps the loaded collection has, which of them the interpreter configuration
  enables, and whether the probe of the LPM batch operations succeeded.
\<close>

definition LoadMaps :: "(string \<Rightarrow> bool) \<Rightarrow> (string \<Rightarrow> bool) \<Rightarrow> bool \<Rightarrow> 'k \<Rightarrow> handler_error + 'k ebpfMapsImpl" where
  "LoadMaps IsMapEnabled maps probe k =
     (case load_tagged IsMapEnabled maps tagged_fields of
        Inl e \<Rightarrow> Inl e
      | Inr ms \<Rightarrow>
          (case load_buckets maps [StackDeltaBucketSmallest..<StackDeltaBucketLargest + 1] of
             Inl e \<Rightarrow> Inl e
           | Inr bs \<Rightarrow> Inr \<lparr>kern = k, available = ms @ bs, errCounter = [], hasLPMTrieBatchOperations = probe,
                 updateWorkers = newAsyncMapUpdaterPool updatePoolWorkers\<rparr>))"

text \<open>A call on a map: a field that was not loaded is a nil pointer, and the call panics.\<close>

definition on_map :: "bpfmap \<Rightarrow> ('k \<Rightarrow> 'r \<times> 'k) \<Rightarrow> 'k ebpfMapsImpl \<Rightarrow> ('r \<times> 'k ebpfMapsImpl) run" where
  "on_map m call impl =
     (if m \<in> set (available impl)
      then (let (r, k) = call (kern impl) in Ret (r, impl\<lparr>kern := k\<rparr>))
      else Panic)"

fun bump :: "string \<Rightarrow> (string \<times> int) list \<Rightarrow> (string \<times> int) list" where
  "bump metric [] = [(metric, 1)]"
| "bump metric ((m, n) # c) = (if m = metric then (m, n + 1) # c else (m, n) # bump metric c)"

definition trackMapError ::
  "string \<Rightarrow> handler_error option \<Rightarrow> 'k ebpfMapsImpl \<Rightarrow> handler_error option \<times> 'k ebpfMapsImpl" where
  "trackMapError metric err impl =
     (case err of None \<Rightarrow> (None, impl) | Some e \<Rightarrow> (Some e, impl\<lparr>errCounter := bump metric (errCounter impl)\<rparr>))"

definition CollectMetrics :: "'k ebpfMapsImpl \<Rightarrow> (string \<times> int) list \<times> 'k ebpfMapsImpl" where
  "CollectMetrics impl = (errCounter impl, impl\<lparr>errCounter := []\<rparr>)"

definition InterpreterOffsetKeyValue :: "u16 \<Rightarrow> u64 \<Rightarrow> (u64 \<times> u64) list \<Rightarrow> handler_error + u64 \<times> OffsetRange" where
  "InterpreterOffsetKeyValue ebpfProgIndex fileID offsetRanges =
     (case offsetRanges of
        [first] \<Rightarrow> Inr (fileID, \<lparr>Lower_offset1 = fst first, Upper_offset1 = snd first, Lower_offset2 = 0,
          Upper_offset2 = 0, Program_index = ebpfProgIndex\<rparr>)
      | [first, second] \<Rightarrow> Inr (fileID, \<lparr>Lower_offset1 = fst first, Upper_offset1 = snd first,
          Lower_offset2 = fst second, Upper_offset2 = snd second, Program_index = ebpfProgIndex\<rparr>)
      | _ \<Rightarrow> Inl InvalidRanges)"

definition UpdateInterpreterOffsets ::
  "'k bpf \<Rightarrow> u16 \<Rightarrow> u64 \<Rightarrow> (u64 \<times> u64) list \<Rightarrow> 'k ebpfMapsImpl \<Rightarrow> (handler_error option \<times> 'k ebpfMapsImpl) run" where
  "UpdateInterpreterOffsets K ebpfProgIndex fileID offsetRanges impl =
     (case InterpreterOffsetKeyValue ebpfProgIndex fileID offsetRanges of
        Inl err \<Rightarrow> Ret (Some err, impl)
      | Inr (key, v) \<Rightarrow>
          run_bind (on_map InterpreterOffsets (bpf_Update K InterpreterOffsets (K64 key) (VRange v) UpdateAny) impl)
            (\<lambda>(err, impl). Ret (map_option BpfErr err, impl)))"

definition getInterpreterTypeMap :: "InterpreterType \<Rightarrow> handler_error + bpfmap" where
  "getInterpreterTypeMap typ =
     (case typ of
        Perl \<Rightarrow> Inr PerlProcs | Python \<Rightarrow> Inr PyProcs | HotSpot \<Rightarrow> Inr HotspotProcs | PHP \<Rightarrow> Inr PhpProcs
      | Ruby \<Rightarrow> Inr RubyProcs | V8 \<Rightarrow> Inr V8Procs | BEAM \<Rightarrow> Inr BeamProcs | Go \<Rightarrow> Inr GoProcs
      | LuaJIT \<Rightarrow> Inr LuaJitProcs | ThreadContext \<Rightarrow> Inr ThreadContextProcs
      | _ \<Rightarrow> Inl (TypeNotSupported typ))"

definition UpdateProcData ::
  "'k bpf \<Rightarrow> InterpreterType \<Rightarrow> u32 \<Rightarrow> u8 list \<Rightarrow> 'k ebpfMapsImpl \<Rightarrow> (handler_error option \<times> 'k ebpfMapsImpl) run" where
  "UpdateProcData K typ pid data impl =
     (case getInterpreterTypeMap typ of
        Inl err \<Rightarrow> Ret (Some err, impl)
      | Inr ebpfMap \<Rightarrow>
          run_bind (on_map ebpfMap (bpf_Update K ebpfMap (K32 pid) (VProc data) UpdateAny) impl)
            (\<lambda>(err, impl). Ret (case err of None \<Rightarrow> None | Some E2BIG \<Rightarrow> Some (NoMoreSpace typ) | Some e \<Rightarrow> Some (BpfErr e), impl)))"

definition DeleteProcData ::
  "'k bpf \<Rightarrow> InterpreterType \<Rightarrow> u32 \<Rightarrow> 'k ebpfMapsImpl \<Rightarrow> (handler_error option \<times> 'k ebpfMapsImpl) run" where
  "DeleteProcData K typ pid impl =
     (case getInterpreterTypeMap typ of
        Inl err \<Rightarrow> Ret (Some err, impl)
      | Inr ebpfMap \<Rightarrow>
          run_bind (on_map ebpfMap (bpf_Delete K ebpfMap (K32 pid)) impl)
            (\<lambda>(err, impl). Ret (map_option BpfErr err, impl)))"

section \<open>Process mappings\<close>

text \<open>\<open>bits.ReverseBytes32\<close> and \<open>bits.ReverseBytes64\<close>.\<close>

definition ReverseBytes32 :: "u32 \<Rightarrow> u32" where
  "ReverseBytes32 x = push_bit 24 x OR (push_bit 8 x AND 0xff0000) OR (drop_bit 8 x AND 0xff00) OR drop_bit 24 x"

definition ReverseBytes64 :: "u64 \<Rightarrow> u64" where
  "ReverseBytes64 x =
     push_bit 32 (ucast (ReverseBytes32 (ucast x))) OR ucast (ReverseBytes32 (ucast (drop_bit 32 x)))"

definition getPIDPage :: "u32 \<Rightarrow> u64 \<Rightarrow> u32 \<Rightarrow> PIDPage" where
  "getPIDPage pid key len = \<lparr>PrefixLen = 0x20 + len, Pid = ReverseBytes32 pid, pp_Page = ReverseBytes64 key\<rparr>"

definition getPIDPageFromPrefix :: "u32 \<Rightarrow> Prefix \<Rightarrow> PIDPage" where
  "getPIDPageFromPrefix pid prefix = getPIDPage pid (Key prefix) (Length prefix)"

definition UpdatePidInterpreterMapping ::
  "'k bpf \<Rightarrow> u32 \<Rightarrow> Prefix \<Rightarrow> u8 \<Rightarrow> u64 \<Rightarrow> u64 \<Rightarrow> 'k ebpfMapsImpl \<Rightarrow> (handler_error option \<times> 'k ebpfMapsImpl) run" where
  "UpdatePidInterpreterMapping K pid prefix interpreterProgram fileID bias impl =
     (case EncodeBiasAndUnwindProgram bias interpreterProgram of
        Inl err \<Rightarrow> Ret (Some (BiasErr err), impl)
      | Inr biasAndUnwindProgram \<Rightarrow>
          run_bind (on_map PidPageToMappingInfo (bpf_Update K PidPageToMappingInfo (KPid (getPIDPageFromPrefix pid prefix))
              (VMapping \<lparr>File_id = fileID, Bias_and_unwind_program = biasAndUnwindProgram\<rparr>) UpdateNoExist) impl)
            (\<lambda>(err, impl). Ret (map_option BpfErr err, impl)))"

definition DeletePidInterpreterMapping ::
  "'k bpf \<Rightarrow> u32 \<Rightarrow> Prefix \<Rightarrow> 'k ebpfMapsImpl \<Rightarrow> (handler_error option \<times> 'k ebpfMapsImpl) run" where
  "DeletePidInterpreterMapping K pid prefix impl =
     run_bind (on_map PidPageToMappingInfo (bpf_Delete K PidPageToMappingInfo (KPid (getPIDPageFromPrefix pid prefix))) impl)
       (\<lambda>(err, impl). Ret (map_option BpfErr err, impl))"

definition RemoveReportedPID :: "'k bpf \<Rightarrow> u32 \<Rightarrow> 'k ebpfMapsImpl \<Rightarrow> 'k ebpfMapsImpl run" where
  "RemoveReportedPID K pid impl =
     run_bind (on_map ReportedPIDs (bpf_Delete K ReportedPIDs (K32 pid)) impl) (\<lambda>(err, impl). Ret impl)"

abbreviation (input) ProgUnwindNative :: u8 where "ProgUnwindNative \<equiv> 1"

definition UpdatePidPageMappingInfo ::
  "'k bpf \<Rightarrow> u32 \<Rightarrow> Prefix \<Rightarrow> u64 \<Rightarrow> u64 \<Rightarrow> 'k ebpfMapsImpl \<Rightarrow> (handler_error option \<times> 'k ebpfMapsImpl) run" where
  "UpdatePidPageMappingInfo K pid prefix fileID bias impl =
     (case EncodeBiasAndUnwindProgram bias ProgUnwindNative of
        Inl err \<Rightarrow> Ret (Some (BiasErr err), impl)
      | Inr biasAndUnwindProgram \<Rightarrow>
          run_bind (on_map PidPageToMappingInfo (bpf_Update K PidPageToMappingInfo (KPid (getPIDPageFromPrefix pid prefix))
              (VMapping \<lparr>File_id = fileID, Bias_and_unwind_program = biasAndUnwindProgram\<rparr>) UpdateAny) impl)
            (\<lambda>(err, impl). Ret (trackMapError ''PidPageToMappingInfoUpdate'' (map_option BpfErr err) impl)))"

fun DeletePidPageMappingInfoSingle ::
  "'k bpf \<Rightarrow> u32 \<Rightarrow> Prefix list \<Rightarrow> u64 \<Rightarrow> handler_error option \<Rightarrow> 'k ebpfMapsImpl \<Rightarrow>
     ((u64 \<times> handler_error option) \<times> 'k ebpfMapsImpl) run" where
  "DeletePidPageMappingInfoSingle K pid [] deleted combinedErrors impl = Ret ((deleted, combinedErrors), impl)"
| "DeletePidPageMappingInfoSingle K pid (prefix # prefixes) deleted combinedErrors impl =
     run_bind (on_map PidPageToMappingInfo (bpf_Delete K PidPageToMappingInfo (KPid (getPIDPageFromPrefix pid prefix))) impl)
       (\<lambda>(err, impl). case err of
          Some e \<Rightarrow> DeletePidPageMappingInfoSingle K pid prefixes deleted (errors_Join combinedErrors (Some (BpfErr e)))
            (snd (trackMapError ''PidPageToMappingInfoDelete'' (Some (BpfErr e)) impl))
        | None \<Rightarrow> DeletePidPageMappingInfoSingle K pid prefixes (deleted + 1) combinedErrors impl)"

definition DeletePidPageMappingInfoBatch ::
  "'k bpf \<Rightarrow> u32 \<Rightarrow> Prefix list \<Rightarrow> 'k ebpfMapsImpl \<Rightarrow> ((u64 \<times> handler_error option) \<times> 'k ebpfMapsImpl) run" where
  "DeletePidPageMappingInfoBatch K pid prefixes impl =
     run_bind (on_map PidPageToMappingInfo
         (bpf_BatchDelete K PidPageToMappingInfo (map (\<lambda>p. KPid (getPIDPageFromPrefix pid p)) prefixes)) impl)
       (\<lambda>((deleted, err), impl).
          let err = map_option BpfErr err;
              (deleted, err) = (if deleted < 0 then (0, errors_Join err (Some (NegativeBatchCount deleted))) else (deleted, err));
              (err, impl) = trackMapError ''PidPageToMappingInfoBatchDelete'' err impl
          in Ret ((word_of_int deleted, err), impl))"

definition DeletePidPageMappingInfo ::
  "'k bpf \<Rightarrow> u32 \<Rightarrow> Prefix list \<Rightarrow> 'k ebpfMapsImpl \<Rightarrow> ((u64 \<times> handler_error option) \<times> 'k ebpfMapsImpl) run" where
  "DeletePidPageMappingInfo K pid prefixes impl =
     (if hasLPMTrieBatchOperations impl
      then run_bind (DeletePidPageMappingInfoBatch K pid prefixes impl)
        (\<lambda>((deleted, err), impl). case err of
           Some e \<Rightarrow> run_bind (DeletePidPageMappingInfoSingle K pid prefixes 0 None impl)
             (\<lambda>((deleted2, err2), impl). Ret ((deleted + deleted2, Some e), impl))
         | None \<Rightarrow> Ret ((deleted, None), impl))
      else DeletePidPageMappingInfoSingle K pid prefixes 0 None impl)"

definition LookupPidPageInformation :: "'k bpf \<Rightarrow> u32 \<Rightarrow> u64 \<Rightarrow> 'k ebpfMapsImpl \<Rightarrow> (u64 \<times> u64) option" where
  "LookupPidPageInformation K pid page impl =
     (case bpf_Lookup K PidPageToMappingInfo (KPid (getPIDPage pid page 0x40)) (kern impl) of
        Some (VMapping cValue) \<Rightarrow>
          Some (File_id cValue, fst (DecodeBiasAndUnwindProgram (Bias_and_unwind_program cValue)))
      | _ \<Rightarrow> None)"

section \<open>Stack delta tables\<close>

text \<open>\<open>getMapID\<close>: the bucket whose inner maps have room for the deltas.\<close>

definition LeadingZeros32 :: "u32 \<Rightarrow> nat" where
  "LeadingZeros32 x = 32 - bits_Len (unat x)"

definition getMapID :: "u32 \<Rightarrow> handler_error + u16" where
  "getMapID numDeltas =
     (let significantBits = 32 - LeadingZeros32 numDeltas
      in if significantBits \<le> StackDeltaBucketSmallest then Inr (of_nat StackDeltaBucketSmallest)
         else if significantBits > StackDeltaBucketLargest then Inl (NoMapAvailable numDeltas)
         else Inr (of_nat significantBits))"

definition getOuterMap :: "u16 \<Rightarrow> bpfmap option" where
  "getOuterMap mapID =
     (if mapID < of_nat StackDeltaBucketSmallest \<or> mapID > of_nat StackDeltaBucketLargest then None
      else Some (ExeIDToStackDeltas mapID))"

definition UpdateUnwindInfo ::
  "'k bpf \<Rightarrow> u16 \<Rightarrow> UnwindInfo \<Rightarrow> 'k ebpfMapsImpl \<Rightarrow> (handler_error option \<times> 'k ebpfMapsImpl) run" where
  "UpdateUnwindInfo K index info impl =
     (if (ucast index :: u32) \<ge> bpf_MaxEntries K UnwindInfoArray then Ret (Some (UnwindInfoArrayFull index), impl)
      else run_bind (on_map UnwindInfoArray
            (bpf_Update K UnwindInfoArray (K32 (ucast index)) (VUnwind info) UpdateAny) impl)
        (\<lambda>(err, impl). Ret (trackMapError ''UnwindInfoArrayUpdate'' (map_option BpfErr err) impl)))"

text \<open>
  \<open>UpdateExeIDToStackDeltas\<close>, from the creation of the inner map on.  The deferred \<open>Close\<close> of the
  inner map and the restored memory limit are the last calls of every path behind them.
\<close>

definition fill_inner ::
  "'k bpf \<Rightarrow> bpfmap \<Rightarrow> nat \<Rightarrow> u16 \<Rightarrow> u64 \<Rightarrow> StackDeltaEBPF list \<Rightarrow> 'k ebpfMapsImpl \<Rightarrow>
     ((handler_error + u16) \<times> 'k ebpfMapsImpl) run" where
  "fill_inner K outerMap inner mapID fileID deltas impl =
     (let (err, k) = bpf_Clone K (InnerMap inner) (kern impl); impl = impl\<lparr>kern := k\<rparr>
      in case err of
           Some e \<Rightarrow> Ret (Inl (BpfErr e), impl)
         | None \<Rightarrow>
             run_bind (EnqueueUpdate outerMap fileID (Some (InnerMap inner)) (updateWorkers impl)) (\<lambda>pool.
               let innerKeys = map (\<lambda>i. K32 (of_nat i)) [0..<length deltas];
                   ((n, err), k) = bpf_BatchUpdate K (InnerMap inner) innerKeys (map VDelta deltas) (kern impl);
                   impl = impl\<lparr>kern := k, updateWorkers := pool\<rparr>
               in case err of
                    Some e \<Rightarrow> Ret (Inl (BpfErr e),
                      snd (trackMapError ''ExeIDToStackDeltasBatchUpdate'' (Some (BpfErr e)) impl))
                  | None \<Rightarrow> Ret (Inr mapID, impl)))"

definition UpdateExeIDToStackDeltas ::
  "'k bpf \<Rightarrow> u64 \<Rightarrow> StackDeltaEBPF list \<Rightarrow> 'k ebpfMapsImpl \<Rightarrow> ((handler_error + u16) \<times> 'k ebpfMapsImpl) run" where
  "UpdateExeIDToStackDeltas K fileID deltas impl =
     (case getMapID (of_nat (length deltas)) of
        Inl err \<Rightarrow> Ret (Inl err, impl)
      | Inr mapID \<Rightarrow>
          (let (err, k) = bpf_MaximizeMemlock K (kern impl); impl = impl\<lparr>kern := k\<rparr>
           in case err of
                Some e \<Rightarrow> Ret (Inl (BpfErr e), impl)
              | None \<Rightarrow>
                  (let (res, k) = bpf_NewMap K (push_bit (unat mapID) 1) (kern impl); impl = impl\<lparr>kern := k\<rparr>
                   in case res of
                        Inl e \<Rightarrow> Ret (Inl (BpfErr e), impl\<lparr>kern := bpf_restoreRlimit K (kern impl)\<rparr>)
                      | Inr inner \<Rightarrow>
                          run_bind (fill_inner K (ExeIDToStackDeltas mapID) inner mapID fileID deltas impl)
                            (\<lambda>(r, impl). Ret (r, impl\<lparr>kern :=
                               bpf_restoreRlimit K (snd (bpf_Close K (InnerMap inner) (kern impl)))\<rparr>)))))"

definition DeleteExeIDToStackDeltas ::
  "u64 \<Rightarrow> u16 \<Rightarrow> 'k ebpfMapsImpl \<Rightarrow> (handler_error option \<times> 'k ebpfMapsImpl) run" where
  "DeleteExeIDToStackDeltas fileID mapID impl =
     (case getOuterMap mapID of
        None \<Rightarrow> Ret (Some (InvalidMapID mapID), impl)
      | Some outerMap \<Rightarrow>
          run_bind (EnqueueUpdate outerMap fileID None (updateWorkers impl))
            (\<lambda>pool. Ret (None, impl\<lparr>updateWorkers := pool\<rparr>)))"

text \<open>The loop of \<open>UpdateStackDeltaPages\<close> that prepares the keys and values.\<close>

fun delta_pages :: "u64 \<Rightarrow> u16 \<Rightarrow> u64 \<Rightarrow> u32 \<Rightarrow> u16 list \<Rightarrow> (StackDeltaPageKey \<times> StackDeltaPageInfo) list" where
  "delta_pages fileID mapID pageAddr firstDelta [] = []"
| "delta_pages fileID mapID pageAddr firstDelta (numDeltas # ns) =
     (\<lparr>FileID = fileID, Page = pageAddr\<rparr>, \<lparr>FirstDelta = firstDelta, pi_NumDeltas = numDeltas, MapID = mapID\<rparr>)
       # delta_pages fileID mapID (pageAddr + 0x10000) (firstDelta + ucast numDeltas) ns"

fun delete_keys :: "'k bpf \<Rightarrow> StackDeltaPageKey list \<Rightarrow> 'k \<Rightarrow> 'k" where
  "delete_keys K [] k = k"
| "delete_keys K (key # keys) k = delete_keys K keys (snd (bpf_Delete K StackDeltaPageToInfo (KPage key) k))"

text \<open>
  \<open>UpdateStackDeltaPages\<close>: a batch that ran out of space is undone with one batch, any other failure
  by deleting every key that was attempted.
\<close>

definition update_pages ::
  "'k bpf \<Rightarrow> (StackDeltaPageKey \<times> StackDeltaPageInfo) list \<Rightarrow> 'k \<Rightarrow> bpf_error option \<times> 'k" where
  "update_pages K pages k =
     (let keys = map fst pages;
          ((inserted, err), k) = bpf_BatchUpdate K StackDeltaPageToInfo (map KPage keys) (map (VPageInfo \<circ> snd) pages) k
      in case err of
           None \<Rightarrow> (None, k)
         | Some e \<Rightarrow>
             (if e = E2BIG
              then (let ((n, derr), k) = bpf_BatchDelete K StackDeltaPageToInfo (map KPage (take (nat inserted) keys)) k
                in if derr = None then (Some e, k) else (Some e, delete_keys K keys k))
              else (Some e, delete_keys K keys k)))"

definition UpdateStackDeltaPages ::
  "'k bpf \<Rightarrow> u64 \<Rightarrow> u16 list \<Rightarrow> u16 \<Rightarrow> u64 \<Rightarrow> 'k ebpfMapsImpl \<Rightarrow> (handler_error option \<times> 'k ebpfMapsImpl) run" where
  "UpdateStackDeltaPages K fileID numDeltasPerPage mapID firstPageAddr impl =
     run_bind (on_map StackDeltaPageToInfo
         (update_pages K (delta_pages fileID mapID firstPageAddr 0 numDeltasPerPage)) impl)
       (\<lambda>(err, impl). Ret (trackMapError ''StackDeltaPageToInfoBatchUpdate'' (map_option BpfErr err) impl))"

definition DeleteStackDeltaPage ::
  "'k bpf \<Rightarrow> u64 \<Rightarrow> u64 \<Rightarrow> 'k ebpfMapsImpl \<Rightarrow> (handler_error option \<times> 'k ebpfMapsImpl) run" where
  "DeleteStackDeltaPage K fileID page impl =
     run_bind (on_map StackDeltaPageToInfo
         (bpf_Delete K StackDeltaPageToInfo (KPage \<lparr>FileID = fileID, Page = page\<rparr>)) impl)
       (\<lambda>(err, impl). Ret (trackMapError ''StackDeltaPageToInfoDelete'' (map_option BpfErr err) impl))"

end
