(* ===== verification/Libpf.thy ===== *)
theory Libpf
  imports GoPrelude
begin

text \<open>
  Basic types of the agent: 128-bit hashes and file IDs with their textual and binary forms
  (\<open>src/libpf/basehash\<close>, \<open>src/libpf/fileid.go\<close>, \<open>src/host\<close>), the frames the eBPF programs send
  (\<open>src/libpf/trace.go\<close>), process and thread IDs, and the integer hash shared with the eBPF code.
\<close>

section \<open>Numbers as text\<close>

text \<open>\<open>strconv.FormatUint\<close> for the bases the code uses, and \<open>strconv.ParseUint(s, 16, 64)\<close>.\<close>

definition lowerHex :: string where "lowerHex = ''0123456789abcdef''"
definition upperHex :: string where "upperHex = ''0123456789ABCDEF''"

function FormatUint :: "nat \<Rightarrow> nat \<Rightarrow> string" where
  "FormatUint base n =
     (if n < base \<or> base < 2 then [lowerHex ! (n mod 16)] else FormatUint base (n div base) @ [lowerHex ! (n mod base)])"
  by pat_completeness auto
termination
  by (relation "measure snd") (auto intro: div_less_dividend)

declare FormatUint.simps [simp del]

definition ToUpper :: "char \<Rightarrow> char" where
  "ToUpper c = (if of_char c \<ge> (97 :: nat) \<and> of_char c \<le> (122 :: nat) then char_of (of_char c - 32 :: nat) else c)"

definition hex_value :: "char \<Rightarrow> nat option" where
  "hex_value c =
     (let n = of_char c :: nat
      in if 48 \<le> n \<and> n \<le> 57 then Some (n - 48)
         else if 97 \<le> n \<and> n \<le> 102 then Some (n - 87)
         else if 65 \<le> n \<and> n \<le> 70 then Some (n - 55)
         else None)"

datatype parse_error = ErrSyntax | ErrRange | ErrLength nat

fun parse_hex :: "string \<Rightarrow> nat \<Rightarrow> nat option" where
  "parse_hex [] acc = Some acc"
| "parse_hex (c # cs) acc = (case hex_value c of None \<Rightarrow> None | Some d \<Rightarrow> parse_hex cs (16 * acc + d))"

definition ParseUint :: "string \<Rightarrow> parse_error + u64" where
  "ParseUint s =
     (if s = [] then Inl ErrSyntax
      else case parse_hex s 0 of
        None \<Rightarrow> Inl ErrSyntax
      | Some n \<Rightarrow> if n < 2 ^ 64 then Inr (of_nat n) else Inl ErrRange)"

section \<open>Hash128\<close>

record Hash128 =
  h_hi :: u64
  h_lo :: u64

definition New128 :: "u64 \<Rightarrow> u64 \<Rightarrow> Hash128" where
  "New128 hi lo = \<lparr>h_hi = hi, h_lo = lo\<rparr>"

definition putUint64AsHex :: "u64 \<Rightarrow> string \<Rightarrow> string" where
  "putUint64AsHex n mapping = map (\<lambda>k. mapping ! unat (drop_bit k n AND 0xF)) [60, 56, 52, 48, 44, 40, 36, 32, 28, 24, 20, 16, 12, 8, 4, 0]"

definition marshalIdentifier :: "u64 \<Rightarrow> u64 \<Rightarrow> string" where
  "marshalIdentifier hi lo = putUint64AsHex hi lowerHex @ putUint64AsHex lo lowerHex"

definition marshalQuotedIdentifier :: "u64 \<Rightarrow> u64 \<Rightarrow> string" where
  "marshalQuotedIdentifier hi lo = [CHR 0x22] @ marshalIdentifier hi lo @ [CHR 0x22]"

text \<open>\<open>encoding/binary\<close>, big endian.\<close>

definition BigEndian_PutUint64 :: "u64 \<Rightarrow> u8 list" where
  "BigEndian_PutUint64 n = map (\<lambda>k. ucast (drop_bit k n)) [56, 48, 40, 32, 24, 16, 8, 0]"

definition BigEndian_Uint64 :: "u8 list \<Rightarrow> u64" where
  "BigEndian_Uint64 bs = foldl (\<lambda>acc b. push_bit 8 acc OR ucast b) 0 bs"

definition copyBytes :: "Hash128 \<Rightarrow> u8 list" where
  "copyBytes h = BigEndian_PutUint64 (h_hi h) @ BigEndian_PutUint64 (h_lo h)"

definition New128FromBytes :: "u8 list \<Rightarrow> parse_error + Hash128" where
  "New128FromBytes b =
     (if length b \<noteq> 16 then Inl (ErrLength (length b))
      else Inr \<lparr>h_hi = BigEndian_Uint64 (take 8 b), h_lo = BigEndian_Uint64 (drop 8 b)\<rparr>)"

definition TrimPrefix :: "string \<Rightarrow> string \<Rightarrow> string" where
  "TrimPrefix s p = (if take (length p) s = p then drop (length p) s else s)"

definition New128FromString :: "string \<Rightarrow> parse_error + Hash128" where
  "New128FromString s =
     (let s = filter (\<lambda>c. c \<noteq> CHR ''-'') (TrimPrefix s ''0x'')
      in if length s \<noteq> 32 then Inl (ErrLength (length s))
         else case ParseUint (take 16 s) of
           Inl e \<Rightarrow> Inl e
         | Inr hi \<Rightarrow> (case ParseUint (drop 16 s) of Inl e \<Rightarrow> Inl e | Inr lo \<Rightarrow> Inr (New128 hi lo)))"

definition Hash128_Less :: "Hash128 \<Rightarrow> Hash128 \<Rightarrow> bool" where
  "Hash128_Less h other \<longleftrightarrow> sint (h_hi h) < sint (h_hi other) \<or> (h_hi h = h_hi other \<and> sint (h_lo h) < sint (h_lo other))"

definition Hash128_Equal :: "Hash128 \<Rightarrow> Hash128 \<Rightarrow> bool" where
  "Hash128_Equal h other \<longleftrightarrow> h_hi h = h_hi other \<and> h_lo h = h_lo other"

definition Hash128_IsZero :: "Hash128 \<Rightarrow> bool" where
  "Hash128_IsZero h \<longleftrightarrow> h_hi h = 0 \<and> h_lo h = 0"

definition Hash128_Compare :: "Hash128 \<Rightarrow> Hash128 \<Rightarrow> int" where
  "Hash128_Compare h other =
     (if sint (h_hi h) < sint (h_hi other) then - 1
      else if sint (h_hi h) > sint (h_hi other) then 1
      else if sint (h_lo h) < sint (h_lo other) then - 1
      else if sint (h_lo h) > sint (h_lo other) then 1
      else 0)"

definition uint64ToGob :: "u64 \<Rightarrow> char \<Rightarrow> string" where
  "uint64ToGob n ch = ''%!'' @ [ch] @ ''(uint64='' @ FormatUint 10 (unat n) @ '')''"

text \<open>\<open>Format\<close> with the flag \<open>#\<close> and the verb.\<close>

definition Hash128_Format :: "bool \<Rightarrow> char \<Rightarrow> Hash128 \<Rightarrow> string" where
  "Hash128_Format sharp ch h =
     (let lower = FormatUint 16 (unat (h_hi h)) @ putUint64AsHex (h_lo h) lowerHex;
          upper = map ToUpper (FormatUint 16 (unat (h_hi h))) @ putUint64AsHex (h_lo h) upperHex
      in if sharp \<and> (ch = CHR ''x'' \<or> ch = CHR ''v'') then ''0x'' @ lower
         else if sharp \<and> ch = CHR ''X'' then ''0x'' @ upper
         else if ch = CHR ''x'' then lower
         else if ch = CHR ''X'' then upper
         else if ch = CHR ''d'' \<or> ch = CHR ''v''
         then ''{'' @ FormatUint 10 (unat (h_hi h)) @ '' '' @ FormatUint 10 (unat (h_lo h)) @ ''}''
         else ''{'' @ uint64ToGob (h_hi h) ch @ '' '' @ uint64ToGob (h_lo h) ch @ ''}'')"

definition StringNoQuotes :: "Hash128 \<Rightarrow> string" where
  "StringNoQuotes h = marshalIdentifier (h_hi h) (h_lo h)"

definition MarshalJSON :: "Hash128 \<Rightarrow> string" where
  "MarshalJSON h = marshalQuotedIdentifier (h_hi h) (h_lo h)"

definition UnmarshalJSON :: "string \<Rightarrow> parse_error + Hash128" where
  "UnmarshalJSON b = (if length b \<noteq> 34 then Inl (ErrLength (length b)) else New128FromString (take 32 (drop 1 b)))"

definition MarshalText :: "Hash128 \<Rightarrow> string" where
  "MarshalText h = marshalIdentifier (h_hi h) (h_lo h)"

definition UnmarshalText :: "string \<Rightarrow> parse_error + Hash128" where
  "UnmarshalText text = New128FromString text"

section \<open>File IDs\<close>

type_synonym FileID128 = Hash128

definition NewFileID :: "u64 \<Rightarrow> u64 \<Rightarrow> FileID128" where
  "NewFileID hi lo = New128 hi lo"

text \<open>\<open>nil\<close> bytes are no error.\<close>

definition FileIDFromBytes :: "u8 list option \<Rightarrow> parse_error + FileID128" where
  "FileIDFromBytes b = (case b of None \<Rightarrow> Inr (New128 0 0) | Some bs \<Rightarrow> New128FromBytes bs)"

definition FileIDFromString :: "string \<Rightarrow> parse_error + FileID128" where
  "FileIDFromString s = New128FromString s"

definition Swapped :: "FileID128 \<Rightarrow> FileID128" where
  "Swapped f = NewFileID (h_lo f) (h_hi f)"

definition FileID_Hash32 :: "FileID128 \<Rightarrow> u32" where
  "FileID_Hash32 f = ucast (h_hi f)"

definition FileIDFromLibpf :: "FileID128 \<Rightarrow> u64" where
  "FileIDFromLibpf fid = h_hi fid"

text \<open>
  \<open>FileIDFromExecutableReader\<close> on the contents of a file; the SHA-256 of a package outside the
  repository is a parameter.  What is hashed is the header, the trailer and the length.
\<close>

definition FileIDFromExecutableReader :: "(u8 list \<Rightarrow> u8 list) \<Rightarrow> u8 list \<Rightarrow> parse_error + FileID128" where
  "FileIDFromExecutableReader sha256 contents =
     (let size = length contents;
          tailBytes = min size 4096
      in FileIDFromBytes (Some (take 16 (sha256
           (take 4096 contents @ drop (size - tailBytes) contents @ BigEndian_PutUint64 (of_nat size))))))"

text \<open>FNV-1a with 128 bits (\<open>hash/fnv\<close>) over the build ID.\<close>

definition fnv128a :: "u8 list \<Rightarrow> 128 word" where
  "fnv128a bs = foldl (\<lambda>h b. (h XOR ucast b) * 0x1000000000000000000013B) 0x6c62272e07bb014262b821756295c58d bs"

definition FileIDFromKernelBuildID :: "u8 list \<Rightarrow> FileID128" where
  "FileIDFromKernelBuildID buildID =
     (let h = fnv128a buildID in NewFileID (ucast (drop_bit 64 h)) (ucast h))"

section \<open>Mappings of frames\<close>

record FrameMappingFileData =
  mf_FileID :: FileID128
  mf_FileName :: string
  mf_GnuBuildID :: string
  mf_GoBuildID :: string

text \<open>A valid \<open>FrameMapping\<close> is its data, the zero value is \<open>None\<close> where it can occur.\<close>

record FrameMappingData =
  fm_File :: FrameMappingFileData
  fm_Start :: u64
  fm_End :: u64
  fm_FileOffset :: u64

section \<open>eBPF frames\<close>

definition NewEbpfFrameHeader :: "u8 \<Rightarrow> u8 \<Rightarrow> u8 \<Rightarrow> u64 \<Rightarrow> u64" where
  "NewEbpfFrameHeader ty ff l data =
     push_bit 60 (ucast ty) OR push_bit 56 (ucast ff) OR push_bit 52 (ucast l) OR data"

text \<open>The accessors read the first word; Go panics on an empty frame.\<close>

definition NewEbpfFrame :: "u8 \<Rightarrow> u8 \<Rightarrow> u8 \<Rightarrow> u64 \<Rightarrow> u64 list run" where
  "NewEbpfFrame ty ff l data =
     (if l = 0 then Panic else Ret ((replicate (unat l) 0)[0 := NewEbpfFrameHeader ty ff l data]))"

definition first_word :: "u64 list \<Rightarrow> (u64 \<Rightarrow> 'a) \<Rightarrow> 'a run" where
  "first_word f g = (case f of [] \<Rightarrow> Panic | w # _ \<Rightarrow> Ret (g w))"

definition EbpfFrame_Type :: "u64 list \<Rightarrow> u8 run" where
  "EbpfFrame_Type f = first_word f (\<lambda>w. ucast (drop_bit 60 w))"

definition EbpfFrame_Flags :: "u64 list \<Rightarrow> u8 run" where
  "EbpfFrame_Flags f = first_word f (\<lambda>w. ucast (drop_bit 56 w AND 0xf))"

definition EbpfFrame_Length :: "u64 list \<Rightarrow> u8 run" where
  "EbpfFrame_Length f = first_word f (\<lambda>w. ucast (drop_bit 52 w) AND 0xf)"

definition EbpfFrame_Data :: "u64 list \<Rightarrow> u64 run" where
  "EbpfFrame_Data f = first_word f (\<lambda>w. w AND 0xfffffffffffff)"

definition EbpfFrame_Variable :: "u64 list \<Rightarrow> nat \<Rightarrow> u64 run" where
  "EbpfFrame_Variable f ndx = (if ndx + 1 < length f then Ret (f ! (ndx + 1)) else Panic)"

definition FrameFlags_Error :: "u8 \<Rightarrow> bool" where "FrameFlags_Error ff \<longleftrightarrow> ff AND 0x1 \<noteq> 0"
definition FrameFlags_ReturnAddress :: "u8 \<Rightarrow> bool" where "FrameFlags_ReturnAddress ff \<longleftrightarrow> ff AND 0x2 \<noteq> 0"
definition FrameFlags_PIDSpecific :: "u8 \<Rightarrow> bool" where "FrameFlags_PIDSpecific ff \<longleftrightarrow> ff AND 0x4 \<noteq> 0"

definition FrameType_Interpreter :: "u8 \<Rightarrow> u8" where "FrameType_Interpreter ty = ty AND NOT 0x80"
definition FrameType_Error :: "u8 \<Rightarrow> u8" where "FrameType_Error ty = ty OR 0x80"
definition FrameType_IsError :: "u8 \<Rightarrow> bool" where "FrameType_IsError ty \<longleftrightarrow> ty AND 0x80 \<noteq> 0"
definition FrameType_IsAbort :: "u8 \<Rightarrow> bool" where "FrameType_IsAbort ty \<longleftrightarrow> ty = 0x80"

section \<open>Process and thread IDs, integer hashes\<close>

definition PIDTID_PID :: "u64 \<Rightarrow> u32" where "PIDTID_PID pt = ucast (drop_bit 32 pt)"
definition PIDTID_TID :: "u64 \<Rightarrow> u32" where "PIDTID_TID pt = ucast (pt AND 0xFFFFFFFF)"

definition hash_Uint32 :: "u32 \<Rightarrow> u32" where
  "hash_Uint32 x =
     (let x = x XOR drop_bit 16 x; x = x * 0x85ebca6b; x = x XOR drop_bit 13 x; x = x * 0xc2b2ae35
      in x XOR drop_bit 16 x)"

definition hash_Uint64 :: "u64 \<Rightarrow> u64" where
  "hash_Uint64 x =
     (let x = x XOR drop_bit 33 x; x = x * 0xff51afd7ed558ccd; x = x XOR drop_bit 33 x; x = x * 0xc4ceb9fe1a85ec53
      in x XOR drop_bit 33 x)"

record OnDiskFileIdentifier =
  DeviceID :: u64
  InodeNum :: u64

definition OnDiskFileIdentifier_Hash32 :: "OnDiskFileIdentifier \<Rightarrow> u32" where
  "OnDiskFileIdentifier_Hash32 odfi = ucast (hash_Uint64 (InodeNum odfi) + DeviceID odfi)"

section \<open>Hexadecimal digits\<close>

lemma hex_value_digit: "d < 16 \<Longrightarrow> hex_value (lowerHex ! d) = Some d \<and> hex_value (upperHex ! d) = Some d"
proof -
  have "\<forall>d \<in> set [0..<16]. hex_value (lowerHex ! d) = Some d \<and> hex_value (upperHex ! d) = Some d" by code_simp
  then show "d < 16 \<Longrightarrow> ?thesis" by simp
qed

text \<open>The \<open>m\<close> lowest hexadecimal digits of a number, most significant first.\<close>

definition nibbles :: "nat \<Rightarrow> nat \<Rightarrow> nat list" where
  "nibbles m n = map (\<lambda>i. n div 16 ^ i mod 16) (rev [0..<m])"

lemma nibbles_0 [simp]: "nibbles 0 n = []"
  by (simp add: nibbles_def)

lemma nibbles_Suc [simp]: "nibbles (Suc m) n = (n div 16 ^ m mod 16) # nibbles m n"
  by (simp add: nibbles_def)

lemma length_nibbles [simp]: "length (nibbles m n) = m"
  by (simp add: nibbles_def)

lemma nibbles_less: "d \<in> set (nibbles m n) \<Longrightarrow> d < 16"
  by (auto simp: nibbles_def)

lemma parse_hex_nibbles:
  assumes "\<And>d. d < 16 \<Longrightarrow> hex_value (digit d) = Some d"
  shows "parse_hex (map digit (nibbles m n)) acc = Some (acc * 16 ^ m + n mod 16 ^ m)"
proof (induction m arbitrary: acc)
  case (Suc m)
  have "n mod 16 ^ Suc m = (n div 16 ^ m mod 16) * 16 ^ m + n mod 16 ^ m"
    using mod_mult2_eq [of n "16 ^ m" 16] by (simp add: mult.commute)
  then show ?case using Suc assms [of "n div 16 ^ m mod 16"] by (simp add: algebra_simps)
qed simp

lemma putUint64AsHex_nibbles: "putUint64AsHex n mapping = map (\<lambda>d. mapping ! d) (nibbles 16 (unat n))"
proof -
  have nib: "unat (drop_bit k n AND 0xF) = unat n div 2 ^ k mod 16" for k
  proof -
    have "(0xF :: u64) = mask 4" by (simp add: mask_eq_exp_minus_1)
    then have "unat (drop_bit k n AND 0xF) = take_bit 4 (unat (drop_bit k n))"
      by (simp only: take_bit_eq_mask [symmetric]) (simp add: unsigned_take_bit_eq)
    then show ?thesis unfolding unat_drop_bit_eq by (simp add: take_bit_eq_mod drop_bit_eq_div)
  qed
  have ks: "[60, 56, 52, 48, 44, 40, 36, 32, 28, 24, 20, 16, 12, 8, 4, 0] = map (\<lambda>i. 4 * i :: nat) (rev [0..<16])" by code_simp
  have "putUint64AsHex n mapping = map (\<lambda>k. mapping ! (unat n div 2 ^ k mod 16)) (map (\<lambda>i. 4 * i) (rev [0..<16]))"
    unfolding putUint64AsHex_def nib ks ..
  also have "\<dots> = map (\<lambda>d. mapping ! d) (nibbles 16 (unat n))"
  proof -
    have "(2 :: nat) ^ (4 * i) = 16 ^ i" for i by (simp add: power_mult)
    then show ?thesis by (simp add: nibbles_def o_def)
  qed
  finally show ?thesis .
qed

lemma ParseUint_hex:
  assumes "mapping = lowerHex \<or> mapping = upperHex"
  shows "ParseUint (putUint64AsHex n mapping) = Inr n"
proof -
  have "parse_hex (map (\<lambda>d. mapping ! d) (nibbles 16 (unat n))) 0 = Some (unat n)"
    using parse_hex_nibbles [of "\<lambda>d. mapping ! d" 16 "unat n" 0] hex_value_digit assms u64_bound [of n] by auto
  moreover have "map (\<lambda>d. mapping ! d) (nibbles 16 (unat n)) \<noteq> []"
    using length_nibbles [of 16 "unat n"] by (metis length_map list.size(3) zero_neq_numeral)
  ultimately show ?thesis using u64_bound [of n] by (simp add: ParseUint_def putUint64AsHex_nibbles)
qed

lemma length_hex [simp]: "length (putUint64AsHex n mapping) = 16"
  by (simp add: putUint64AsHex_nibbles)

text \<open>Neither a dash nor the \<open>x\<close> of a prefix is a digit.\<close>

lemma hex_chars:
  assumes "c \<in> set (putUint64AsHex n mapping)" "mapping = lowerHex \<or> mapping = upperHex"
  shows "c \<noteq> CHR ''-'' \<and> c \<noteq> CHR ''x''"
proof -
  obtain d where "d < 16" "c = mapping ! d" using assms(1) nibbles_less by (auto simp: putUint64AsHex_nibbles)
  then have "hex_value c = Some d" using assms(2) hex_value_digit by auto
  moreover have "hex_value (CHR ''-'') = None" "hex_value (CHR ''x'') = None" by code_simp+
  ultimately show ?thesis by auto
qed

lemma New128FromString_hex:
  assumes "mapping = lowerHex \<or> mapping = upperHex"
  shows "New128FromString (putUint64AsHex hi mapping @ putUint64AsHex lo mapping) = Inr (New128 hi lo)"
    and "New128FromString (''0x'' @ putUint64AsHex hi mapping @ putUint64AsHex lo mapping) = Inr (New128 hi lo)"
proof -
  let ?s = "putUint64AsHex hi mapping @ putUint64AsHex lo mapping"
  have chars: "\<forall>c \<in> set ?s. c \<noteq> CHR ''-'' \<and> c \<noteq> CHR ''x''" using hex_chars assms by auto
  then have dash: "filter (\<lambda>c. c \<noteq> CHR ''-'') ?s = ?s" by (simp add: filter_id_conv)
  have "take 2 ?s \<noteq> ''0x''"
  proof
    assume "take 2 ?s = ''0x''"
    then have "CHR ''x'' \<in> set (take 2 ?s)" by simp
    then show False using chars in_set_takeD by fastforce
  qed
  then have trim: "TrimPrefix ?s ''0x'' = ?s" by (simp add: TrimPrefix_def numeral_2_eq_2)
  have trim2: "TrimPrefix (''0x'' @ ?s) ''0x'' = ?s" by (simp add: TrimPrefix_def)
  show "New128FromString ?s = Inr (New128 hi lo)"
    unfolding New128FromString_def Let_def trim dash by (simp add: ParseUint_hex [OF assms])
  show "New128FromString (''0x'' @ ?s) = Inr (New128 hi lo)"
    unfolding New128FromString_def Let_def trim2 dash by (simp add: ParseUint_hex [OF assms])
qed

section \<open>Bytes\<close>

lemma byte_step: "push_bit 8 (drop_bit (k + 8) n) OR ucast (ucast (drop_bit k n) :: u8) = drop_bit k (n :: u64)"
proof (rule bit_word_eqI)
  fix i
  assume "i < LENGTH(64)"
  show "bit (push_bit 8 (drop_bit (k + 8) n) OR ucast (ucast (drop_bit k n) :: u8)) i = bit (drop_bit k n) i"
  proof (cases "i < 8")
    case False
    then obtain j where "i = j + 8" by (metis le_add_diff_inverse2 not_less)
    then show ?thesis using \<open>i < LENGTH(64)\<close> by (auto simp: bit_simps add.assoc add.commute add.left_commute)
  qed (use \<open>i < LENGTH(64)\<close> in \<open>auto simp: bit_simps\<close>)
qed

lemma BigEndian_roundtrip: "BigEndian_Uint64 (BigEndian_PutUint64 n) = n"
proof -
  have top: "ucast (ucast (drop_bit 56 n) :: u8) = drop_bit 56 n"
    by (rule bit_word_eqI) (auto simp: bit_simps dest: bit_imp_le_length)
  show ?thesis
    using byte_step [of 48 n] byte_step [of 40 n] byte_step [of 32 n] byte_step [of 24 n] byte_step [of 16 n]
      byte_step [of 8 n] byte_step [of 0 n]
    by (simp add: BigEndian_Uint64_def BigEndian_PutUint64_def top)
qed

lemma BigEndian_bytes: "length bs = 8 \<Longrightarrow> BigEndian_PutUint64 (BigEndian_Uint64 bs) = bs"
proof -
  assume "length bs = 8"
  then obtain a b c d e f g h where bs: "bs = [a, b, c, d, e, f, g, h]"
    by (auto simp: length_Suc_conv numeral_eq_Suc)
  have byte: "ucast (drop_bit k (BigEndian_Uint64 bs)) = x"
    if "(k, x) \<in> {(56, a), (48, b), (40, c), (32, d), (24, e), (16, f), (8, g), (0, h)}" for k and x :: u8
    using that by (elim insertE emptyE; simp; intro bit_word_eqI; auto simp: BigEndian_Uint64_def bs bit_simps dest: bit_imp_le_length)
  show ?thesis using byte [of 0 h] by (simp add: BigEndian_PutUint64_def byte) (simp add: bs)
qed

section \<open>Variable-length hexadecimal\<close>

lemma FormatUint_nibbles:
  "n < 16 ^ Suc m \<Longrightarrow> m = 0 \<or> 16 ^ m \<le> n \<Longrightarrow> FormatUint 16 n = map (\<lambda>d. lowerHex ! d) (nibbles (Suc m) n)"
proof (induction m arbitrary: n)
  case 0
  then show ?case by (simp add: FormatUint.simps [of 16 n])
next
  case (Suc m)
  have "(1 :: nat) \<le> 16 ^ m" by simp
  moreover have "16 * 16 ^ m \<le> n" "n < 16 * (16 * 16 ^ m)" using Suc.prems by simp_all
  ultimately have n: "16 \<le> n" "n div 16 < 16 ^ Suc m" "m = 0 \<or> 16 ^ m \<le> n div 16" by (linarith, auto)
  have "nibbles (Suc (Suc m)) n = nibbles (Suc m) (n div 16) @ [n mod 16]"
  proof -
    have "nibbles (Suc k) x = nibbles k (x div 16) @ [x mod 16]" for k x
      by (induction k) (simp_all add: div_mult2_eq)
    then show ?thesis by blast
  qed
  then show ?case using Suc.IH [OF n(2,3)] n(1) by (simp add: FormatUint.simps [of 16 n] del: nibbles_Suc)
qed

lemma FormatUint_16:
  "16 ^ 15 \<le> unat n \<Longrightarrow> FormatUint 16 (unat n) = putUint64AsHex n lowerHex"
proof -
  assume "16 ^ 15 \<le> unat n"
  moreover have "unat n < 16 ^ Suc 15" using u64_bound [of n] by simp
  ultimately have "FormatUint 16 (unat n) = map (\<lambda>d. lowerHex ! d) (nibbles (Suc 15) (unat n))"
    by (intro FormatUint_nibbles) simp_all
  moreover have "Suc 15 = 16" by simp
  ultimately show ?thesis by (simp only: putUint64AsHex_nibbles)
qed

lemma FormatUint_short: "n < 16 ^ 15 \<Longrightarrow> length (FormatUint 16 n) < 16"
proof -
  assume n: "n < 16 ^ 15"
  define m where "m = (LEAST m. n < 16 ^ Suc m)"
  have ex: "n < 16 ^ Suc 14" using n by simp
  have less: "n < 16 ^ Suc m" and le: "m \<le> 14" unfolding m_def using ex by (rule LeastI, rule Least_le)
  have "m = 0 \<or> 16 ^ m \<le> n"
  proof (cases m)
    case (Suc k)
    then have "\<not> n < 16 ^ Suc k" using not_less_Least [of k "\<lambda>m. n < 16 ^ Suc m"] by (simp add: m_def)
    then show ?thesis using Suc by simp
  qed simp
  then show ?thesis using FormatUint_nibbles [OF less] le by simp
qed

lemma BigEndian_length: "length (BigEndian_PutUint64 n) = 8"
  by (simp add: BigEndian_PutUint64_def)

lemma New128_eta [simp]: "New128 (h_hi h) (h_lo h) = h"
  by (simp add: New128_def)

lemma New128FromString_length:
  assumes "\<forall>c \<in> set s. c \<noteq> CHR ''-'' \<and> c \<noteq> CHR ''x''" "length s \<noteq> 32" "p = [] \<or> p = ''0x''"
  shows "New128FromString (p @ s) = Inl (ErrLength (length s))"
proof -
  have "take 2 s \<noteq> ''0x''"
  proof
    assume "take 2 s = ''0x''"
    then have "CHR ''x'' \<in> set (take 2 s)" by simp
    then show False using assms(1) in_set_takeD by fastforce
  qed
  then have "TrimPrefix (p @ s) ''0x'' = s" using assms(3) by (auto simp: TrimPrefix_def numeral_2_eq_2)
  moreover have "filter (\<lambda>c. c \<noteq> CHR ''-'') s = s" using assms(1) by (simp add: filter_id_conv)
  ultimately show ?thesis using assms(2) by (simp add: New128FromString_def)
qed

lemma FormatUint_chars: "c \<in> set (FormatUint 16 n) \<Longrightarrow> c \<noteq> CHR ''-'' \<and> c \<noteq> CHR ''x''"
proof -
  have low: "\<forall>d \<in> set [0..<16]. lowerHex ! d \<noteq> CHR ''-'' \<and> lowerHex ! d \<noteq> CHR ''x''" by code_simp
  show "c \<in> set (FormatUint 16 n) \<Longrightarrow> c \<noteq> CHR ''-'' \<and> c \<noteq> CHR ''x''"
  proof (induction "16 :: nat" n rule: FormatUint.induct)
    case (1 n)
    then show ?case using low by (auto simp: FormatUint.simps [of 16 n] split: if_split_asm)
  qed
qed

text \<open>The verb \<open>%x\<close>, with or without the prefix, is parsed back exactly when the upper half needs all its digits.\<close>

lemma Format_hex:
  "New128FromString (Hash128_Format sharp (CHR ''x'') h) =
     (if 2 ^ 60 \<le> unat (h_hi h) then Inr h else Inl (ErrLength (length (FormatUint 16 (unat (h_hi h))) + 16)))"
proof -
  define p where "p = (if sharp then ''0x'' else [])"
  have f: "Hash128_Format sharp (CHR ''x'') h = p @ FormatUint 16 (unat (h_hi h)) @ putUint64AsHex (h_lo h) lowerHex"
    by (simp add: Hash128_Format_def p_def)
  show ?thesis
  proof (cases "2 ^ 60 \<le> unat (h_hi h)")
    case True
    then have "FormatUint 16 (unat (h_hi h)) = putUint64AsHex (h_hi h) lowerHex" by (intro FormatUint_16) simp
    then show ?thesis using True New128FromString_hex [of lowerHex "h_hi h" "h_lo h"] by (simp add: f p_def)
  next
    case False
    then have "length (FormatUint 16 (unat (h_hi h))) < 16" by (intro FormatUint_short) simp
    then have "New128FromString (p @ FormatUint 16 (unat (h_hi h)) @ putUint64AsHex (h_lo h) lowerHex) =
        Inl (ErrLength (length (FormatUint 16 (unat (h_hi h)) @ putUint64AsHex (h_lo h) lowerHex)))"
      using FormatUint_chars hex_chars [of _ "h_lo h" lowerHex]
      by (intro New128FromString_length) (auto simp: p_def)
    then show ?thesis using False by (simp add: f)
  qed
qed

text \<open>
  C32: A hash is read back from its text, its JSON string, its prefixed text and its bytes, and bytes are
  determined by the hash.  The hexadecimal format verb pads only the lower half: its output is read back
  exactly when the upper half has a non-zero first digit, and is refused otherwise.
\<close>

theorem Hash128_roundtrip:
  "UnmarshalText (MarshalText h) = Inr h \<and> UnmarshalJSON (MarshalJSON h) = Inr h \<and>
   New128FromString (''0x'' @ StringNoQuotes h) = Inr h \<and> (New128FromBytes b = Inr h \<longleftrightarrow> b = copyBytes h) \<and>
   New128FromString (Hash128_Format sharp (CHR ''x'') h) =
     (if 2 ^ 60 \<le> unat (h_hi h) then Inr h else Inl (ErrLength (length (FormatUint 16 (unat (h_hi h))) + 16)))"
proof -
  have tx: "New128FromString (marshalIdentifier (h_hi h) (h_lo h)) = Inr h"
    "New128FromString (''0x'' @ marshalIdentifier (h_hi h) (h_lo h)) = Inr h"
    using New128FromString_hex [of lowerHex "h_hi h" "h_lo h"] by (simp_all add: marshalIdentifier_def)
  have len: "length (marshalIdentifier (h_hi h) (h_lo h)) = 32" by (simp add: marshalIdentifier_def)
  have "New128FromBytes b = Inr h \<longleftrightarrow> b = copyBytes h"
  proof
    assume b: "New128FromBytes b = Inr h"
    then have "length b = 16" by (simp add: New128FromBytes_def split: if_split_asm)
    then have "take 8 b = BigEndian_PutUint64 (h_hi h)" "drop 8 b = BigEndian_PutUint64 (h_lo h)"
      using b BigEndian_bytes [of "take 8 b"] BigEndian_bytes [of "drop 8 b"] by (auto simp: New128FromBytes_def)
    then show "b = copyBytes h" by (metis append_take_drop_id copyBytes_def)
  next
    assume "b = copyBytes h"
    then show "New128FromBytes b = Inr h"
      by (simp add: New128FromBytes_def copyBytes_def BigEndian_roundtrip BigEndian_length)
  qed
  then show ?thesis
    using tx len Format_hex by (simp add: UnmarshalText_def MarshalText_def UnmarshalJSON_def MarshalJSON_def
      marshalQuotedIdentifier_def StringNoQuotes_def)
qed

section \<open>Frame headers\<close>

lemma bit_less_power: "unat (x :: 'a::len word) < 2 ^ k \<Longrightarrow> bit x n \<Longrightarrow> n < k"
proof -
  assume "unat x < 2 ^ k" "bit x n"
  then have "take_bit k (unat x) = unat x" "bit (unat x) n" by (simp_all add: take_bit_nat_eq_self bit_unsigned_iff)
  then show "n < k" by (metis bit_take_bit_iff)
qed

text \<open>The parts of a frame header are read back, each within its field.\<close>

lemma EbpfFrame_header:
  assumes "ty < 16" "ff < 16" "l < 16" "data < 2 ^ 52"
  shows "EbpfFrame_Type (NewEbpfFrameHeader ty ff l data # ws) = Ret ty \<and>
    EbpfFrame_Flags (NewEbpfFrameHeader ty ff l data # ws) = Ret ff \<and>
    EbpfFrame_Length (NewEbpfFrameHeader ty ff l data # ws) = Ret l \<and>
    EbpfFrame_Data (NewEbpfFrameHeader ty ff l data # ws) = Ret data"
proof -
  have t: "bit ty n \<Longrightarrow> n < 4" and f: "bit ff n \<Longrightarrow> n < 4" and l: "bit l n \<Longrightarrow> n < 4" and d: "bit data n \<Longrightarrow> n < 52" for n
    using assms bit_less_power [of ty 4 n] bit_less_power [of ff 4 n] bit_less_power [of l 4 n] bit_less_power [of data 52 n]
    by (simp_all add: word_less_nat_alt)
  have m: "(0xf :: u64) = mask 4" "(0xf :: u8) = mask 4" "(0xfffffffffffff :: u64) = mask 52" by (simp_all add: mask_eq_exp_minus_1)
  let ?h = "NewEbpfFrameHeader ty ff l data"
  have "ucast (drop_bit 60 ?h) = ty"
    by (rule bit_word_eqI) (auto simp: NewEbpfFrameHeader_def bit_simps dest: t f l d)
  moreover have "ucast (drop_bit 56 ?h AND mask 4) = ff"
    by (rule bit_word_eqI) (auto simp: NewEbpfFrameHeader_def bit_simps dest: t f l d)
  moreover have "ucast (drop_bit 52 ?h) AND mask 4 = l"
    by (rule bit_word_eqI) (auto simp: NewEbpfFrameHeader_def bit_simps dest: t f l d)
  moreover have "?h AND mask 52 = data"
    by (rule bit_word_eqI) (auto simp: NewEbpfFrameHeader_def bit_simps dest: d)
  ultimately show ?thesis
    by (simp add: EbpfFrame_Type_def EbpfFrame_Flags_def EbpfFrame_Length_def EbpfFrame_Data_def first_word_def m)
qed

end
