(* ===== verification/PidEvents.thy ===== *)
theory PidEvents
  imports Libpf
begin

text \<open>
  Notifications of user space about processes, \<open>src/support/ebpf/tracemgmt.h\<close>: the rate limit of events
  for a process, the events themselves and the latch that keeps notifications apart, with the
  tracepoint program of process exits (\<open>sched_monitor.ebpf.c\<close>).

  The state is the contents of the maps these programs write.  Whether an update of a map fails is an
  input of each operation, since the kernel decides it.
\<close>

section \<open>State\<close>

datatype ratelimit_action = RATELIMIT_ACTION_RESET | RATELIMIT_ACTION_DEFAULT | RATELIMIT_ACTION_FAST
  | RATELIMIT_ACTION_PRIORITY

record event_maps =
  reported_pids :: "u32 \<rightharpoonup> u64"
  pid_events :: "u64 \<rightharpoonup> bool"
  inhibit_events :: "u32 \<rightharpoonup> bool"
  event_output :: "u32 list"
  event_metrics :: "string list"

definition count_metric :: "string \<Rightarrow> event_maps \<Rightarrow> event_maps" where
  "count_metric metric m = m\<lparr>event_metrics := metric # event_metrics m\<rparr>"

abbreviation (input) EVENT_TYPE_GENERIC_PID :: u32 where "EVENT_TYPE_GENERIC_PID \<equiv> 1"

section \<open>Operations\<close>

definition event_send_trigger :: "bool \<Rightarrow> u32 \<Rightarrow> event_maps \<Rightarrow> event_maps" where
  "event_send_trigger update_fails event_type m =
     (if inhibit_events m event_type \<noteq> None then m
      else if update_fails then m
      else
        let m = m\<lparr>inhibit_events := (inhibit_events m)(event_type \<mapsto> True)\<rparr>;
            m = (if event_type = EVENT_TYPE_GENERIC_PID then count_metric ''NumGenericPID'' m else m)
        in m\<lparr>event_output := event_type # event_output m\<rparr>)"

text \<open>
  The parts of a rate limit token: 58 bits of the time, the flags for a delivered priority event
  (\<open>0x20\<close>) and the fast timer (\<open>0x10\<close>), and the attempts.
\<close>

definition new_token :: "u64 \<Rightarrow> u64 \<Rightarrow> u64 \<Rightarrow> u64 \<Rightarrow> u64" where
  "new_token ts priority_sent fast_timer attempt = (ts AND NOT 0x3f) OR priority_sent OR fast_timer OR attempt"

text \<open>\<open>None\<close> when the event is limited, else the attempts, the fast timer and the priority flag of the new token.\<close>

definition token_decision :: "u64 \<Rightarrow> ratelimit_action \<Rightarrow> u64 option \<Rightarrow> (u64 \<times> u64 \<times> u64) option" where
  "token_decision ts action token_ptr =
     (let fast_timer = (if action = RATELIMIT_ACTION_FAST then 0x10 else 0)
      in case token_ptr of
           None \<Rightarrow> Some (0, fast_timer, 0)
         | Some token \<Rightarrow>
             let diff_ts = ts - (token AND NOT 0x3f);
                 attempt = token AND 0xf;
                 fast_timer = fast_timer OR (token AND 0x10);
                 priority_sent = token AND 0x20;
                 limit_window_ts = push_bit (unat attempt) (100 * 1000000);
                 priority_event = (action = RATELIMIT_ACTION_PRIORITY \<and> priority_sent = 0)
             in if diff_ts < limit_window_ts
                then (if \<not> priority_event then None else Some (attempt, fast_timer, priority_sent))
                else if diff_ts < limit_window_ts + 5000 * 1000000
                then Some (if attempt < (if fast_timer \<noteq> 0 then 4 else 8) then attempt + 1 else attempt, fast_timer, priority_sent)
                else Some (0, fast_timer, 0))"

definition pid_event_ratelimit :: "u64 \<Rightarrow> bool \<Rightarrow> u32 \<Rightarrow> ratelimit_action \<Rightarrow> event_maps \<Rightarrow> bool \<times> event_maps" where
  "pid_event_ratelimit ts update_fails pid action m =
     (if action = RATELIMIT_ACTION_RESET then (False, m)
      else case token_decision ts action (reported_pids m pid) of
        None \<Rightarrow> (True, m)
      | Some (attempt, fast_timer, priority_sent) \<Rightarrow>
          (let priority_sent = (if action = RATELIMIT_ACTION_PRIORITY then 0x20 else priority_sent);
               token = new_token ts priority_sent fast_timer attempt
           in if update_fails then (True, count_metric ''ReportedPIDsErr'' m)
              else (False, m\<lparr>reported_pids := (reported_pids m)(pid \<mapsto> token)\<rparr>)))"

text \<open>The failures of the three map updates, and the time, are the first argument.\<close>

record event_env =
  boot_ns :: u64
  reported_fails :: bool
  pid_events_fails :: bool
  inhibit_fails :: bool

definition report_pid :: "event_env \<Rightarrow> u64 \<Rightarrow> ratelimit_action \<Rightarrow> event_maps \<Rightarrow> bool \<times> event_maps" where
  "report_pid E pid_tgid action m =
     (let pid = PIDTID_PID pid_tgid;
          (inhibited, m) = pid_event_ratelimit (boot_ns E) (reported_fails E) pid action m
      in if inhibited \<and> action \<noteq> RATELIMIT_ACTION_PRIORITY then (False, m)
         else if pid_events_fails E then (False, count_metric ''PIDEventsErr'' m)
         else
           let m = m\<lparr>pid_events := (pid_events m)(pid_tgid \<mapsto> True)\<rparr>;
               m = (if action = RATELIMIT_ACTION_RESET then m\<lparr>reported_pids := (reported_pids m)(pid := None)\<rparr> else m)
           in if inhibited then (False, count_metric ''NumPriorityEventDeferred'' m)
              else (True, event_send_trigger (inhibit_fails E) EVENT_TYPE_GENERIC_PID m))"

text \<open>
  \<open>do_process_free\<close>; \<open>pid_known\<close> is the result of \<open>pid_information_exists\<close>, a lookup of the map of
  process mappings.
\<close>

definition do_process_free :: "event_env \<Rightarrow> bool \<Rightarrow> (u32 \<Rightarrow> bool) \<Rightarrow> u32 \<Rightarrow> event_maps \<Rightarrow> event_maps" where
  "do_process_free E ns_translation pid_known pid m =
     (if ns_translation then m
      else if reported_pids m pid = None \<and> \<not> pid_known pid then m
      else
        let (reported, m) = report_pid E (push_bit 32 (ucast pid) OR ucast pid) RATELIMIT_ACTION_RESET m
        in if reported then count_metric ''NumProcExit'' m else m)"

section \<open>Tokens\<close>

lemma small_attempt: "(a :: u64) \<le> 8 \<Longrightarrow> a \<in> {0, 1, 2, 3, 4, 5, 6, 7, 8}"
proof -
  assume "a \<le> 8"
  then have "unat a \<in> {0..8}" by (simp add: word_le_nat_alt)
  also have "{0..8} = {0, 1, 2, 3, 4, 5, 6, 7, 8 :: nat}" by auto
  finally have "of_nat (unat a) \<in> (of_nat :: nat \<Rightarrow> u64) ` {0, 1, 2, 3, 4, 5, 6, 7, 8}" by (rule imageI)
  then show ?thesis by simp
qed

text \<open>The parts of a token are read back.\<close>

lemma new_token_parts:
  assumes "a \<le> 8" "p \<in> {0, 0x20}" "f \<in> {0, 0x10}"
  shows "new_token ts p f a AND NOT 0x3f = ts AND NOT 0x3f" "new_token ts p f a AND 0xf = a"
    "new_token ts p f a AND 0x20 = p"
proof -
  have low: "(p OR f OR a) AND NOT 0x3f = 0" "(p OR f OR a) AND 0xf = a" "(p OR f OR a) AND 0x20 = p"
    using small_attempt [OF assms(1)] assms(2,3) by auto
  have hi: "(NOT 0x3f AND 0xf :: u64) = 0" "(NOT 0x3f AND 0x20 :: u64) = 0" by simp_all
  define l where "l = p OR f OR a"
  have t: "new_token ts p f a = (ts AND NOT 0x3f) OR l" by (simp add: new_token_def or.assoc l_def)
  show "new_token ts p f a AND NOT 0x3f = ts AND NOT 0x3f" "new_token ts p f a AND 0xf = a"
    "new_token ts p f a AND 0x20 = p"
    using low unfolding l_def [symmetric] t bit.conj_disj_distrib2 and.assoc by simp_all
qed

lemma unat_and_not_63: "unat ((ts :: u64) AND NOT 0x3f) = unat ts - unat ts mod 64"
  using unat_and_not_mask [of ts 6] by (simp add: mask_eq_exp_minus_1)

section \<open>Spacing of events\<close>

text \<open>Every token has at most eight attempts, so that its window is at most 25.6 seconds.\<close>

definition tokens_ok :: "event_maps \<Rightarrow> bool" where
  "tokens_ok m \<longleftrightarrow> (\<forall>pid token. reported_pids m pid = Some token \<longrightarrow> token AND 0xf \<le> 8)"

lemma flag_cases: "(x :: u64) AND 0x20 \<in> {0, 0x20}" "(x :: u64) AND 0x10 \<in> {0, 0x10}"
proof -
  have b: "x AND push_bit n 1 \<in> {0, push_bit n 1}" for n
  proof (cases "bit x n")
    case True
    have "x AND push_bit n 1 = push_bit n 1" by (rule bit_word_eqI) (use True in \<open>auto simp: bit_simps\<close>)
    then show ?thesis by simp
  next
    case False
    have "x AND push_bit n 1 = 0" by (rule bit_word_eqI) (use False in \<open>auto simp: bit_simps\<close>)
    then show ?thesis by simp
  qed
  show "x AND 0x20 \<in> {0, 0x20}" "x AND 0x10 \<in> {0, 0x10}" using b [of 5] b [of 4] by simp_all
qed

lemma token_decision_parts:
  assumes "token_decision ts action tok = Some (a, f, p)" "\<forall>t. tok = Some t \<longrightarrow> t AND 0xf \<le> 8"
  shows "a \<le> 8 \<and> f \<in> {0, 0x10} \<and> p \<in> {0, 0x20}"
proof (cases tok)
  case None
  then show ?thesis using assms(1) by (auto simp: token_decision_def)
next
  case (Some t)
  have le: "t AND 0xf \<le> 8" using assms(2) Some by simp
  have inc: "t AND 0xf < 8 \<Longrightarrow> (t AND 0xf) + 1 \<le> 8" using inc_le [of "t AND 0xf" 8] by simp
  have "t AND 0xf < 4 \<Longrightarrow> t AND 0xf < 8" by (erule less_trans) simp
  then have a: "a \<le> 8"
    using assms(1) le inc unfolding Some token_decision_def Let_def
    by (auto split: if_split_asm)
  have fl: "(if action = RATELIMIT_ACTION_FAST then 0x10 else 0) OR (t AND 0x10) \<in> {0, 0x10}"
    using flag_cases(2) [of t] by auto
  show ?thesis using a assms(1) fl flag_cases(1) [of t] unfolding Some token_decision_def Let_def
    by (auto split: if_split_asm)
qed

lemma ratelimit_delivered:
  assumes "pid_event_ratelimit ts fails pid action m = (False, m')" "action \<noteq> RATELIMIT_ACTION_RESET" "tokens_ok m"
  obtains a f p where "a \<le> 8" "f \<in> {0, 0x10}" "p \<in> {0, 0x20}" "action = RATELIMIT_ACTION_PRIORITY \<Longrightarrow> p = 0x20"
    "m' = m\<lparr>reported_pids := (reported_pids m)(pid \<mapsto> new_token ts p f a)\<rparr>"
proof -
  obtain a f p where d: "token_decision ts action (reported_pids m pid) = Some (a, f, p)"
    and m': "m' = m\<lparr>reported_pids := (reported_pids m)(pid \<mapsto> new_token ts (if action = RATELIMIT_ACTION_PRIORITY then 0x20 else p) f a)\<rparr>"
    using assms(1,2) by (auto simp: pid_event_ratelimit_def Let_def split: option.split_asm if_split_asm)
  have "a \<le> 8 \<and> f \<in> {0, 0x10} \<and> p \<in> {0, 0x20}"
    using token_decision_parts [OF d] assms(3) by (simp add: tokens_ok_def)
  then show thesis using m' by (intro that [of a f "if action = RATELIMIT_ACTION_PRIORITY then 0x20 else p"]) auto
qed

text \<open>The window of a token, and the time since it was made.\<close>

lemma window:
  assumes "(a :: u64) \<le> 8"
  shows "unat (push_bit (unat a) (100 * 1000000) :: u64) = 100000000 * 2 ^ unat a" "unat a \<le> 8"
  using small_attempt [OF assms] by auto

lemma since_token:
  assumes "(t1 :: u64) \<le> t2"
  shows "unat (t2 - (t1 AND NOT 0x3f)) = unat t2 - unat t1 + unat t1 mod 64"
proof -
  have "unat (t1 AND NOT 0x3f) \<le> unat t2" using assms unfolding unat_and_not_63 word_le_nat_alt by linarith
  then have "unat (t2 - (t1 AND NOT 0x3f)) = unat t2 - unat (t1 AND NOT 0x3f)"
    by (intro unat_sub_le) (simp only: word_le_nat_alt)
  also have "\<dots> = unat t2 - (unat t1 - unat t1 mod 64)" by (simp only: unat_and_not_63)
  finally show ?thesis using assms by (simp add: word_le_nat_alt)
qed


definition no_events :: event_maps where
  "no_events = \<lparr>reported_pids = Map.empty, pid_events = Map.empty, inhibit_events = Map.empty, event_output = [], event_metrics = []\<rparr>"


end
