(* ===== verification/NativeUnwind.thy ===== *)
theory NativeUnwind
  imports EbpfMaps PidEvents
begin

text \<open>
  The native unwinder that runs in the kernel, \<open>src/support/ebpf/native_stack_trace.h\<close> and the frame
  pointer helpers of \<open>tracemgmt.h\<close>: the search of the stack delta for a program counter and the unwinding
  of one frame on x86-64 and on arm64.

  It reads the maps the Go handler writes, through the same parameter \<open>'k bpf\<close>.  The memory of the
  unwound process is the parameter \<open>mem\<close>: \<open>mem addr n\<close> are the \<open>n\<close> 64-bit values at \<open>addr\<close>, or
  \<open>None\<close> when \<open>bpf_probe_read_user\<close> fails, which then clears the destination.  C's \<open>s32\<close> is a 32-bit
  word read with sign.
\<close>

section \<open>State\<close>

text \<open>The generic and native errors; \<open>ERR_INTERPRETER\<close> has the codes of the interpreter unwinders.\<close>

datatype ErrorCode = ERR_OK | ERR_UNREACHABLE | ERR_STACK_LENGTH_EXCEEDED | ERR_EMPTY_STACK | ERR_MAX_TAIL_CALLS
  | ERR_NATIVE_LOOKUP_TEXT_SECTION
  | ERR_NATIVE_LOOKUP_STACK_DELTA_OUTER_MAP | ERR_NATIVE_LOOKUP_STACK_DELTA_INNER_MAP
  | ERR_NATIVE_EXCEEDED_DELTA_LOOKUP_ITERATIONS | ERR_NATIVE_LOOKUP_RANGE | ERR_NATIVE_STACK_DELTA_INVALID
  | ERR_NATIVE_PC_READ | ERR_NATIVE_LR_UNWINDING_MID_TRACE | ERR_NATIVE_READ_KERNELMODE_REGS
  | ERR_NATIVE_UNEXPECTED_KERNEL_ADDRESS | ERR_NATIVE_NO_PID_PAGE_MAPPING | ERR_NATIVE_ZERO_PC | ERR_NATIVE_SMALL_PC
  | ERR_NATIVE_BAD_UNWIND_INFO_INDEX | ERR_NATIVE_AARCH64_32BIT_COMPAT_MODE | ERR_NATIVE_X64_32BIT_COMPAT_MODE
  | ERR_NATIVE_UNSUPPORTED_MAPPING | ERR_NATIVE_NO_VMA | ERR_NATIVE_NON_EXECUTABLE_VMA
  | ERR_GO_NO_OFFSETS | ERR_GO_ASMCGOCALL_UNWIND_FAILURE | ERR_GO_RUNTIME_LOAD_FAILURE | ERR_INTERPRETER u64

text \<open>
  \<open>regs\<close> is the array of sixteen registers that the names of the anonymous struct index.  A metric is
  named by its identifier; the empty name stands for \<open>-1\<close>.
\<close>

record UnwindState =
  regs :: "u64 list"
  fp_bound :: u64
  text_section_id :: u64
  text_section_offset :: u64
  text_section_bias :: u64
  error_metric :: string
  unwind_error :: ErrorCode
  return_address :: bool
  lr_invalid :: bool

text \<open>The trace that is built; its variable data is a memory of bytes.\<close>

record Trace =
  tr_pid :: u32
  tr_tid :: u32
  tr_ktime :: u64
  tr_comm :: "u8 list"
  tr_span_id :: u64
  tr_trace_id :: "u64 \<times> u64"
  tr_cpu_id :: u32
  context_value_end :: u16
  kernel_frame_end :: u16
  frame_data_end :: u16
  thread_label_end :: u16
  golang_label_end :: u16
  variable_data_end :: u16
  num_frames :: u16
  origin :: u16
  variable_data :: "nat \<Rightarrow> u8"

record GoRuntimeOffsets =
  m_offset :: u32
  m_gsignal :: u32
  go_curg :: u32
  go_labels :: u32
  hmap_count :: u32
  hmap_log2_bucket_count :: u32
  hmap_buckets :: u32
  tls_offset :: u32
  sched_sp_off :: u32
  sched_pc_off :: u32
  sched_lr_off :: u32
  sched_bp_off :: u32

text \<open>
  The record of a CPU without the states of the interpreter unwinders and scratch space, and the
  metrics that were incremented, latest first.
\<close>

record PerCPURecord =
  rec_trace :: Trace
  rec_state :: UnwindState
  unwindersDone :: u32
  tailCalls :: u8
  ratelimitAction :: ratelimit_action
  goOffsets :: GoRuntimeOffsets
  usesAnonymousMappings :: bool
  metrics :: "string list"

abbreviation (input) R_cfa :: nat where "R_cfa \<equiv> 1"
abbreviation (input) R_pc :: nat where "R_pc \<equiv> 2"
abbreviation (input) R_sp :: nat where "R_sp \<equiv> 3"
abbreviation (input) R_fp :: nat where "R_fp \<equiv> 4"
abbreviation (input) R_lr :: nat where "R_lr \<equiv> 5"

definition set_reg :: "nat \<Rightarrow> u64 \<Rightarrow> UnwindState \<Rightarrow> UnwindState" where
  "set_reg r v s = s\<lparr>regs := (regs s)[r := v]\<rparr>"

definition increment_metric :: "string \<Rightarrow> PerCPURecord \<Rightarrow> PerCPURecord" where
  "increment_metric m record = record\<lparr>metrics := m # metrics record\<rparr>"

abbreviation (input) STACK_DELTA_COMMAND_FLAG :: u32 where "STACK_DELTA_COMMAND_FLAG \<equiv> 0x8000"
abbreviation (input) STACK_DELTA_NATIVE_COMMAND_BIT :: u32 where "STACK_DELTA_NATIVE_COMMAND_BIT \<equiv> 0x4000"
abbreviation (input) MERGEOPCODE_NEGATIVE :: u8 where "MERGEOPCODE_NEGATIVE \<equiv> 0x80"

section \<open>Looking up a stack delta\<close>

text \<open>The result is whether the search goes on, and the new \<open>lo\<close> and \<open>hi\<close>.\<close>

definition bsearch_step :: "'k bpf \<Rightarrow> 'k \<Rightarrow> bpfmap \<Rightarrow> u16 \<Rightarrow> u32 \<Rightarrow> u32 \<Rightarrow> bool \<times> u32 \<times> u32" where
  "bsearch_step K k inner_map page_offset lo hi =
     (let pivot = drop_bit 1 (lo + hi)
      in case bpf_Lookup K inner_map (K32 pivot) k of
           Some (VDelta delta) \<Rightarrow>
             (let (lo, hi) = (if page_offset \<ge> AddressLow delta then (pivot + 1, hi) else (lo, pivot))
              in (lo < hi, lo, hi))
         | _ \<Rightarrow> (False, lo, 0))"

text \<open>The loop with its remaining iterations: \<open>None\<close> when they are used up, else the final \<open>hi\<close>.\<close>

fun bsearch_loop :: "'k bpf \<Rightarrow> 'k \<Rightarrow> bpfmap \<Rightarrow> u16 \<Rightarrow> nat \<Rightarrow> u32 \<Rightarrow> u32 \<Rightarrow> u32 option" where
  "bsearch_loop K k inner_map page_offset 0 lo hi = None"
| "bsearch_loop K k inner_map page_offset (Suc n) lo hi =
     (let (continue, lo, hi) = bsearch_step K k inner_map page_offset lo hi
      in if continue then bsearch_loop K k inner_map page_offset n lo hi else Some hi)"

definition get_stack_delta_map :: "u16 \<Rightarrow> bpfmap option" where
  "get_stack_delta_map mapID = (if 8 \<le> mapID \<and> mapID \<le> 23 then Some (ExeIDToStackDeltas mapID) else None)"

text \<open>The part of \<open>get_stack_delta\<close> behind the search: the entry before \<open>idx\<close>.\<close>

definition delta_before ::
  "'k bpf \<Rightarrow> 'k \<Rightarrow> bpfmap \<Rightarrow> StackDeltaPageInfo \<Rightarrow> u16 \<Rightarrow> u32 \<Rightarrow> PerCPURecord \<Rightarrow> (ErrorCode \<times> int \<times> u32) \<times> PerCPURecord" where
  "delta_before K k inner_map info page_offset idx record =
     (let idx = idx - 1
      in case bpf_Lookup K inner_map (K32 idx) k of
           Some (VDelta delta) \<Rightarrow>
             (let deltaOffset = uint page_offset - uint (AddressLow delta);
                  deltaOffset = (if idx < FirstDelta info then deltaOffset + 65536 else deltaOffset);
                  unwindInfo = ucast (UnwindInfo_idx delta) :: u32
              in if unwindInfo = STACK_DELTA_COMMAND_FLAG OR UnwindCommandInvalid
                 then ((ERR_NATIVE_STACK_DELTA_INVALID, deltaOffset, unwindInfo),
                   record\<lparr>rec_state := (rec_state record)\<lparr>error_metric := ''UnwindNativeErrStackDeltaInvalid''\<rparr>\<rparr>)
                 else ((ERR_OK, deltaOffset, unwindInfo),
                   if unwindInfo = STACK_DELTA_COMMAND_FLAG OR UnwindCommandStop
                   then increment_metric ''UnwindNativeStackDeltaStop'' record else record))
         | _ \<Rightarrow> ((ERR_NATIVE_LOOKUP_RANGE, 0, 0),
             record\<lparr>rec_state := (rec_state record)\<lparr>error_metric := ''UnwindNativeErrLookupRange''\<rparr>\<rparr>))"

definition get_stack_delta :: "'k bpf \<Rightarrow> 'k \<Rightarrow> PerCPURecord \<Rightarrow> (ErrorCode \<times> int \<times> u32) \<times> PerCPURecord" where
  "get_stack_delta K k record =
     (let s = rec_state record;
          exe_id = text_section_id s;
          offset = text_section_offset s - (if return_address s then 1 else 0);
          fails = (\<lambda>metric err. ((err, 0, 0), record\<lparr>rec_state := s\<lparr>error_metric := metric\<rparr>\<rparr>))
      in case bpf_Lookup K StackDeltaPageToInfo (KPage \<lparr>FileID = exe_id, Page = offset AND NOT 0xffff\<rparr>) k of
           Some (VPageInfo info) \<Rightarrow>
             (case get_stack_delta_map (MapID info) of
                None \<Rightarrow> fails ''UnwindNativeErrLookupStackDeltaOuterMap'' ERR_NATIVE_LOOKUP_STACK_DELTA_OUTER_MAP
              | Some outer_map \<Rightarrow>
                  (case bpf_Lookup K outer_map (K64 exe_id) k of
                     Some (VMap inner_map) \<Rightarrow>
                       (let page_offset = ucast (offset AND 0xffff) :: u16;
                            first = FirstDelta info
                        in if pi_NumDeltas info \<noteq> 0
                           then (case bsearch_loop K k inner_map page_offset 16 first (first + ucast (pi_NumDeltas info)) of
                                   None \<Rightarrow> fails ''UnwindNativeErrLookupIterations'' ERR_NATIVE_EXCEEDED_DELTA_LOOKUP_ITERATIONS
                                 | Some hi \<Rightarrow>
                                     (if hi = 0
                                      then fails ''UnwindNativeErrLookupIterations'' ERR_NATIVE_EXCEEDED_DELTA_LOOKUP_ITERATIONS
                                      else delta_before K k inner_map info page_offset hi record))
                           else delta_before K k inner_map info page_offset first record)
                   | _ \<Rightarrow> fails ''UnwindNativeErrLookupStackDeltaInnerMap'' ERR_NATIVE_LOOKUP_STACK_DELTA_INNER_MAP))
         | _ \<Rightarrow> fails ''UnwindNativeErrLookupTextSection'' ERR_NATIVE_LOOKUP_TEXT_SECTION)"

section \<open>Register expressions\<close>

definition unwind_calc_register :: "UnwindState \<Rightarrow> u8 \<Rightarrow> u32 \<Rightarrow> u64" where
  "unwind_calc_register s baseReg param = regs s ! (unat baseReg mod 16) + scast param"

definition unwind_calc_register_with_deref ::
  "(u64 \<Rightarrow> nat \<Rightarrow> u64 list option) \<Rightarrow> UnwindState \<Rightarrow> u8 \<Rightarrow> u32 \<Rightarrow> bool \<Rightarrow> u64" where
  "unwind_calc_register_with_deref mem s baseReg param deref =
     (if \<not> deref then unwind_calc_register s baseReg param
      else
        let preDeref = param AND NOT UnwindDerefMask;
            postDeref = ucast ((param AND UnwindDerefMask) * UnwindDerefMultiplier) :: u64;
            addr = unwind_calc_register s baseReg preDeref
        in case mem addr 1 of Some [val] \<Rightarrow> val + postDeref | _ \<Rightarrow> 0)"

text \<open>The parameter of a merged delta for a program counter \<open>addrDiff\<close> bytes behind the delta.\<close>

definition merged_param :: "UnwindInfo \<Rightarrow> int \<Rightarrow> u32" where
  "merged_param info addrDiff =
     (if MergeOpcode info \<noteq> 0 \<and> addrDiff \<ge> uint (MergeOpcode info AND NOT MERGEOPCODE_NEGATIVE)
      then Param info + (if MergeOpcode info AND MERGEOPCODE_NEGATIVE \<noteq> 0 then - 8 else 8)
      else Param info)"

section \<open>Frame pointers\<close>

datatype arch = X86_64 | Aarch64

definition normalize_pac_ptr :: "arch \<Rightarrow> u64 \<Rightarrow> u64 \<Rightarrow> u64" where
  "normalize_pac_ptr a inverse_pac_mask ptr = (case a of Aarch64 \<Rightarrow> ptr AND inverse_pac_mask | X86_64 \<Rightarrow> ptr)"

text \<open>On x86-64 the field \<open>lr_invalid\<close> does not exist and keeps its value.\<close>

definition unwinder_mark_nonleaf_frame :: "arch \<Rightarrow> UnwindState \<Rightarrow> UnwindState" where
  "unwinder_mark_nonleaf_frame a s =
     s\<lparr>return_address := True, lr_invalid := (case a of Aarch64 \<Rightarrow> True | X86_64 \<Rightarrow> lr_invalid s)\<rparr>"

definition unwinder_unwind_frame_pointer_regs :: "arch \<Rightarrow> u64 \<Rightarrow> UnwindState \<Rightarrow> u64 \<Rightarrow> u64 \<Rightarrow> UnwindState" where
  "unwinder_unwind_frame_pointer_regs a pac s reg0 reg1 =
     (let fp = regs s ! R_fp;
          s = set_reg R_sp (case a of X86_64 \<Rightarrow> fp + 16 | Aarch64 \<Rightarrow> 0) s;
          s = set_reg R_fp reg0 (s\<lparr>fp_bound := fp + 16\<rparr>);
          s = set_reg R_pc (normalize_pac_ptr a pac reg1) s
      in unwinder_mark_nonleaf_frame a s)"

definition unwinder_unwind_frame_pointer ::
  "arch \<Rightarrow> u64 \<Rightarrow> (u64 \<Rightarrow> nat \<Rightarrow> u64 list option) \<Rightarrow> UnwindState \<Rightarrow> UnwindState option" where
  "unwinder_unwind_frame_pointer a pac mem s =
     (case mem (regs s ! R_fp) 2 of
        Some [reg0, reg1] \<Rightarrow> Some (unwinder_unwind_frame_pointer_regs a pac s reg0 reg1)
      | _ \<Rightarrow> None)"

section \<open>Unwinding one frame\<close>

text \<open>What \<open>unwind_one_frame\<close> returns: the error, and the flags \<open>stop\<close> and \<open>delegate_command\<close>.\<close>

record frame_result =
  fr_error :: ErrorCode
  fr_stop :: bool
  fr_delegate :: bool

abbreviation (input) frame_ret :: "ErrorCode \<Rightarrow> frame_result" where
  "frame_ret e \<equiv> \<lparr>fr_error = e, fr_stop = False, fr_delegate = False\<rparr>"

text \<open>The labels \<open>err_native_pc_read\<close>, \<open>frame_ok\<close> and, on x86-64, \<open>nonleaf_frame_ok\<close>.\<close>

definition err_native_pc_read :: "PerCPURecord \<Rightarrow> frame_result \<times> PerCPURecord" where
  "err_native_pc_read record = (frame_ret ERR_NATIVE_PC_READ, increment_metric ''UnwindNativeErrPCRead'' record)"

definition frame_ok :: "PerCPURecord \<Rightarrow> frame_result \<times> PerCPURecord" where
  "frame_ok record = (frame_ret ERR_OK, increment_metric ''UnwindNativeFrames'' record)"

definition nonleaf_frame_ok :: "u64 \<Rightarrow> PerCPURecord \<Rightarrow> frame_result \<times> PerCPURecord" where
  "nonleaf_frame_ok cfa record =
     frame_ok (record\<lparr>rec_state := unwinder_mark_nonleaf_frame X86_64 (set_reg R_sp cfa (rec_state record))\<rparr>)"

text \<open>The read of the return address below the frame, x86-64.\<close>

definition read_pc_x86 :: "(u64 \<Rightarrow> nat \<Rightarrow> u64 list option) \<Rightarrow> u64 \<Rightarrow> PerCPURecord \<Rightarrow> frame_result \<times> PerCPURecord" where
  "read_pc_x86 mem cfa record =
     (if cfa = 0 then err_native_pc_read record
      else case mem (cfa - 8) 1 of
        Some [pc] \<Rightarrow> nonleaf_frame_ok cfa (record\<lparr>rec_state := set_reg R_pc pc (rec_state record)\<rparr>)
      | _ \<Rightarrow> err_native_pc_read (record\<lparr>rec_state := set_reg R_pc 0 (rec_state record)\<rparr>))"

text \<open>
  The commands of x86-64.  The native-only command for Go's \<open>morestack\<close> is the parameter \<open>go\<close>: the
  unwinding through the Go runtime's structures of \<open>go_runtime.h\<close>.
\<close>

definition unwind_command_x86 ::
  "(u64 \<Rightarrow> nat \<Rightarrow> u64 list option) \<Rightarrow> (PerCPURecord \<Rightarrow> ErrorCode \<times> PerCPURecord) \<Rightarrow> bool \<Rightarrow> u32 \<Rightarrow> PerCPURecord \<Rightarrow>
     frame_result \<times> PerCPURecord" where
  "unwind_command_x86 mem go delegate_command command record =
     (let s = rec_state record in
      if command AND STACK_DELTA_NATIVE_COMMAND_BIT \<noteq> 0
      then (if delegate_command then (\<lparr>fr_error = ERR_OK, fr_stop = False, fr_delegate = True\<rparr>, record)
            else if command = UnwindCommandGoMorestack
            then (let (err, record) = go record
              in if err \<noteq> ERR_OK then err_native_pc_read record else frame_ok record)
            else (frame_ret ERR_UNREACHABLE, record))
      else if command = UnwindCommandPLT
      then read_pc_x86 mem (regs s ! R_sp + 8 + push_bit 3 (if regs s ! R_pc AND 15 \<ge> 11 then 1 else 0)) record
      else if command = UnwindCommandSignal
      then (case mem (regs s ! R_sp + 40) 18 of
              Some rt \<Rightarrow>
                frame_ok (record\<lparr>rec_state := (fold (\<lambda>(r, i). set_reg r (rt ! i))
                  [(7, 8), (8, 0), (6, 13), (9, 1), (10, 3), (11, 5), (12, 7), (R_fp, 10), (R_sp, 15), (R_pc, 16)] s)
                    \<lparr>return_address := False\<rparr>\<rparr>)
            | None \<Rightarrow> err_native_pc_read record)
      else if command = UnwindCommandStop then (\<lparr>fr_error = ERR_OK, fr_stop = True, fr_delegate = False\<rparr>, record)
      else if command = UnwindCommandFramePointer
      then (case unwinder_unwind_frame_pointer X86_64 0 mem s of
              Some s' \<Rightarrow> frame_ok (record\<lparr>rec_state := s'\<rparr>)
            | None \<Rightarrow> err_native_pc_read record)
      else (frame_ret ERR_UNREACHABLE, record))"

text \<open>The register rule of x86-64.\<close>

definition unwind_info_x86 ::
  "(u64 \<Rightarrow> nat \<Rightarrow> u64 list option) \<Rightarrow> UnwindInfo \<Rightarrow> int \<Rightarrow> PerCPURecord \<Rightarrow> frame_result \<times> PerCPURecord" where
  "unwind_info_x86 mem info addrDiff record =
     (let s = rec_state record;
          param = merged_param info addrDiff;
          deref = Flags info AND UnwindFlagDerefCfa \<noteq> 0;
          baseReg = BaseReg info AND 0xf;
          raReg = drop_bit 4 (BaseReg info);
          cfa = unwind_calc_register_with_deref mem s baseReg param deref;
          s = set_reg R_cfa cfa s;
          aux = unwind_calc_register s (AuxBaseReg info) (AuxParam info);
          s = (if aux \<noteq> 0
               then set_reg R_fp (case mem aux 1 of Some [v] \<Rightarrow> v | _ \<Rightarrow> 0) s
               else if baseReg = UnwindRegFp \<or> raReg = UnwindRegFp then set_reg R_fp 0 s
               else s);
          record = record\<lparr>rec_state := s\<rparr>
      in if raReg \<noteq> UnwindRegInvalid
         then nonleaf_frame_ok cfa (record\<lparr>rec_state := set_reg R_pc (unwind_calc_register s raReg 0) s\<rparr>)
         else read_pc_x86 mem cfa record)"

definition unwind_one_frame_x86 ::
  "'k bpf \<Rightarrow> 'k \<Rightarrow> (u64 \<Rightarrow> nat \<Rightarrow> u64 list option) \<Rightarrow> (PerCPURecord \<Rightarrow> ErrorCode \<times> PerCPURecord) \<Rightarrow> bool \<Rightarrow> PerCPURecord \<Rightarrow>
     frame_result \<times> PerCPURecord" where
  "unwind_one_frame_x86 K k mem go delegate_command record =
     (let ((err, addrDiff, unwindInfo), record) = get_stack_delta K k record
      in if err \<noteq> ERR_OK then (frame_ret err, record)
         else if unwindInfo AND STACK_DELTA_COMMAND_FLAG \<noteq> 0
         then unwind_command_x86 mem go delegate_command (unwindInfo AND NOT STACK_DELTA_COMMAND_FLAG) record
         else case bpf_Lookup K UnwindInfoArray (K32 unwindInfo) k of
           Some (VUnwind info) \<Rightarrow> unwind_info_x86 mem info addrDiff record
         | _ \<Rightarrow> (frame_ret ERR_NATIVE_BAD_UNWIND_INFO_INDEX,
             increment_metric ''UnwindNativeErrBadUnwindInfoIndex'' record))"

text \<open>The same on arm64, with both Go commands as parameters.\<close>

definition unwind_command_arm ::
  "u64 \<Rightarrow> (u64 \<Rightarrow> nat \<Rightarrow> u64 list option) \<Rightarrow> (PerCPURecord \<Rightarrow> ErrorCode \<times> PerCPURecord) \<Rightarrow>
     (PerCPURecord \<Rightarrow> ErrorCode \<times> PerCPURecord) \<Rightarrow> bool \<Rightarrow> u32 \<Rightarrow> PerCPURecord \<Rightarrow> frame_result \<times> PerCPURecord" where
  "unwind_command_arm pac mem asmcgocall morestack delegate_command command record =
     (let s = rec_state record in
      if command AND STACK_DELTA_NATIVE_COMMAND_BIT \<noteq> 0
      then (if delegate_command then (\<lparr>fr_error = ERR_OK, fr_stop = False, fr_delegate = True\<rparr>, record)
            else if command = UnwindCommandGoAsmcgocall
            then (let (err, record) = asmcgocall record
              in if err = ERR_OK then frame_ok record
                 else (\<lparr>fr_error = ERR_OK, fr_stop = True, fr_delegate = False\<rparr>, record))
            else if command = UnwindCommandGoMorestack
            then (let (err, record) = morestack record
              in if err \<noteq> ERR_OK then err_native_pc_read record else frame_ok record)
            else (frame_ret ERR_UNREACHABLE, record))
      else if command = UnwindCommandSignal
      then (case mem (regs s ! R_sp + 312) 34 of
              Some rt \<Rightarrow>
                frame_ok (record\<lparr>rec_state := (fold (\<lambda>(r, v). set_reg r v)
                  [(R_pc, normalize_pac_ptr Aarch64 pac (rt ! 32)), (R_sp, rt ! 31), (R_fp, rt ! 29),
                   (R_lr, normalize_pac_ptr Aarch64 pac (rt ! 30)), (6, rt ! 20), (7, rt ! 22), (8, rt ! 28)] s)
                    \<lparr>return_address := False, lr_invalid := False\<rparr>\<rparr>)
            | None \<Rightarrow> err_native_pc_read record)
      else if command = UnwindCommandStop then (\<lparr>fr_error = ERR_OK, fr_stop = True, fr_delegate = False\<rparr>, record)
      else if command = UnwindCommandFramePointer
      then (case unwinder_unwind_frame_pointer Aarch64 pac mem s of
              Some s' \<Rightarrow> frame_ok (record\<lparr>rec_state := s'\<rparr>)
            | None \<Rightarrow> err_native_pc_read record)
      else (frame_ret ERR_UNREACHABLE, record))"

text \<open>The return address and the frame pointer, given where the rule finds them.\<close>

definition read_ra_arm ::
  "(u64 \<Rightarrow> nat \<Rightarrow> u64 list option) \<Rightarrow> UnwindInfo \<Rightarrow> u64 \<Rightarrow> UnwindState \<Rightarrow> (u64 \<times> u64) option" where
  "read_ra_arm mem info ra s =
     (if Flags info AND UnwindFlagFrame \<noteq> 0
      then (case mem (ra - 8) 2 of Some [fp, pc] \<Rightarrow> Some (fp, pc) | _ \<Rightarrow> None)
      else (case mem ra 1 of Some [pc] \<Rightarrow> Some (regs s ! R_fp, pc) | _ \<Rightarrow> None))"

definition unwind_info_arm ::
  "u64 \<Rightarrow> (u64 \<Rightarrow> nat \<Rightarrow> u64 list option) \<Rightarrow> UnwindInfo \<Rightarrow> int \<Rightarrow> PerCPURecord \<Rightarrow> frame_result \<times> PerCPURecord" where
  "unwind_info_arm pac mem info addrDiff record =
     (let s = rec_state record;
          cfa = unwind_calc_register s (BaseReg info) (merged_param info addrDiff);
          s = set_reg R_cfa cfa s;
          record = record\<lparr>rec_state := s\<rparr>;
          ra = unwind_calc_register s (AuxBaseReg info) (AuxParam info);
          finish = (\<lambda>ra s. frame_ok (record\<lparr>rec_state := unwinder_mark_nonleaf_frame Aarch64
            (set_reg R_sp cfa (set_reg R_pc (normalize_pac_ptr Aarch64 pac ra) s))\<rparr>))
      in if ra = 0
         then (frame_ret ERR_NATIVE_PC_READ,
           increment_metric (if AuxBaseReg info = UnwindRegLr then ''UnwindNativeLr0'' else ''UnwindNativeErrPCRead'') record)
         else if AuxBaseReg info = UnwindRegLr
         then (if lr_invalid s
               then (frame_ret ERR_NATIVE_LR_UNWINDING_MID_TRACE,
                 increment_metric ''UnwindNativeErrLrUnwindingMidTrace'' record)
               else finish ra s)
         else case read_ra_arm mem info ra s of
           None \<Rightarrow> err_native_pc_read record
         | Some (fp, pc) \<Rightarrow> finish pc (set_reg R_fp fp s))"

definition unwind_one_frame_arm ::
  "'k bpf \<Rightarrow> 'k \<Rightarrow> u64 \<Rightarrow> (u64 \<Rightarrow> nat \<Rightarrow> u64 list option) \<Rightarrow> (PerCPURecord \<Rightarrow> ErrorCode \<times> PerCPURecord) \<Rightarrow>
     (PerCPURecord \<Rightarrow> ErrorCode \<times> PerCPURecord) \<Rightarrow> bool \<Rightarrow> PerCPURecord \<Rightarrow> frame_result \<times> PerCPURecord" where
  "unwind_one_frame_arm K k pac mem asmcgocall morestack delegate_command record =
     (let ((err, addrDiff, unwindInfo), record) = get_stack_delta K k record
      in if err \<noteq> ERR_OK then (frame_ret err, record)
         else if unwindInfo AND STACK_DELTA_COMMAND_FLAG \<noteq> 0
         then unwind_command_arm pac mem asmcgocall morestack delegate_command
                (unwindInfo AND NOT STACK_DELTA_COMMAND_FLAG) record
         else case bpf_Lookup K UnwindInfoArray (K32 unwindInfo) k of
           Some (VUnwind info) \<Rightarrow> unwind_info_arm pac mem info addrDiff record
         | _ \<Rightarrow> (frame_ret ERR_NATIVE_BAD_UNWIND_INFO_INDEX,
             increment_metric ''UnwindNativeErrBadUnwindInfoIndex'' record))"

end
