(* ===== verification/ExecInfo.thy ===== *)
theory ExecInfo
  imports EbpfMaps
begin

text \<open>
  The executable information manager of \<open>src/processmanager/execinfomanager/manager.go\<close>: the
  conversion of interval data to the tables of the eBPF unwinder (\<open>loadDeltas\<close>), the index of unwind
  information, and the reference counting of executables.

  Interfaces the manager holds are parameters: the interpreter loaders are the functions of the list
  \<open>interpreterLoaders\<close>, the LRU cache of deferred file IDs is a record of third-party operations, and
  the stack delta provider and the ELF reader are the record \<open>env\<close>.  Go's lock makes each critical
  section one step; \<open>AddOrIncRef\<close> releases it while it extracts the deltas, so it has three parts.
\<close>

section \<open>State\<close>

record mapRef =
  StartPage :: u64
  NumPages :: u32
  ref_MapID :: u16

datatype 'd interpData = Data 'd | MultiData "'d list"

record ('d, 'l) ExecutableInfo =
  ei_Data :: "'d interpData option"
  LibcInfo :: "'l option"

record ('d, 'l) "entry" =
  ExecutableInfo :: "('d, 'l) ExecutableInfo"
  mapRef :: mapRef
  rc :: u64

record ('k, 'e, 'd, 'l) executableInfoManagerState =
  interpreterLoaders :: "('k ebpfMapsImpl \<Rightarrow> u64 \<times> 'e \<times> IntervalData \<Rightarrow> (unit + 'd option) \<times> 'k ebpfMapsImpl) list"
  ebpf :: "'k ebpfMapsImpl"
  executables :: "u64 \<rightharpoonup> ('d, 'l) entry"
  unusedExecutables :: "u64 \<rightharpoonup> int"
  unwindInfoIndex :: "(UnwindInfo \<times> u16) list"
  numStackDeltaMapPages :: u64

text \<open>The third-party cache of deferred file IDs.\<close>

record 'c fileID_lru =
  fl_Get :: "'c \<Rightarrow> u64 \<Rightarrow> bool \<times> 'c"
  fl_Add :: "'c \<Rightarrow> u64 \<Rightarrow> 'c"

record ('c, 'k, 'e, 'd, 'l) ExecutableInfoManager =
  state :: "('k, 'e, 'd, 'l) executableInfoManagerState"
  deferredFileIDs :: 'c

datatype sdp_error = ErrNotExist | ExtractionError

datatype mgr_error = ErrDeferredFileID | ExtractFailed sdp_error | ElfFailed sdp_error
  | LoadDeltasFailed handler_error | NotKnown u64 | ZeroRC | UnusedNotKnown u64 | UnusedReferenced u64 u64
  | RemoveFailed u64 handler_error

text \<open>What \<open>AddOrIncRef\<close> asks of the stack delta provider, the ELF reference and the libc analysis.\<close>

record ('e, 'f, 'l) env =
  GetIntervalDataForFile :: "'e \<Rightarrow> sdp_error + IntervalData"
  GetELF :: "'e \<Rightarrow> sdp_error + 'f"
  synthesizeIntervalData :: "'f \<Rightarrow> IntervalData"
  IsPotentialLibcDSO :: "'e \<Rightarrow> bool"
  ExtractLibcInfo :: "'f \<Rightarrow> 'l option"

definition NewExecutableInfoManager ::
  "('k ebpfMapsImpl \<Rightarrow> u64 \<times> 'e \<times> IntervalData \<Rightarrow> (unit + 'd option) \<times> 'k ebpfMapsImpl) list \<Rightarrow> 'k ebpfMapsImpl \<Rightarrow> 'c
     \<Rightarrow> ('c, 'k, 'e, 'd, 'l) ExecutableInfoManager" where
  "NewExecutableInfoManager loaders eb cache =
     \<lparr>state = \<lparr>interpreterLoaders = loaders, ebpf = eb, executables = Map.empty, unusedExecutables = Map.empty,
        unwindInfoIndex = [], numStackDeltaMapPages = 0\<rparr>,
      deferredFileIDs = cache\<rparr>"

section \<open>Loading stack deltas\<close>

definition calculateMergeOpcode :: "StackDelta \<Rightarrow> StackDelta \<Rightarrow> u8" where
  "calculateMergeOpcode delta nextDelta =
     (if Flags (Info delta) AND UnwindFlagCommand \<noteq> 0 then 0
      else
        let addrDiff = Offset nextDelta - Offset delta
        in if addrDiff < 1 \<or> addrDiff > 2 then 0
           else if BaseReg (Info nextDelta) \<noteq> BaseReg (Info delta)
             \<or> AuxBaseReg (Info nextDelta) \<noteq> AuxBaseReg (Info delta)
             \<or> AuxParam (Info nextDelta) \<noteq> AuxParam (Info delta) then 0
           else
             let paramDiff = Param (Info nextDelta) - Param (Info delta)
             in if paramDiff = 8 then ucast addrDiff
                else if paramDiff = - 8 then ucast addrDiff OR 0x80
                else 0)"

abbreviation (input) DeltaCommandFlag :: u16 where "DeltaCommandFlag \<equiv> 0x8000"

definition getUnwindInfoIndex ::
  "'k bpf \<Rightarrow> UnwindInfo \<Rightarrow> ('k, 'e, 'd, 'l) executableInfoManagerState \<Rightarrow>
     ((handler_error + u16) \<times> ('k, 'e, 'd, 'l) executableInfoManagerState) run" where
  "getUnwindInfoIndex K info st =
     (if Flags info AND UnwindFlagCommand \<noteq> 0 then Ret (Inr (ucast (Param info) OR DeltaCommandFlag), st)
      else case map_of (unwindInfoIndex st) info of
        Some index \<Rightarrow> Ret (Inr index, st)
      | None \<Rightarrow>
          (let index = of_nat (length (unwindInfoIndex st))
           in run_bind (UpdateUnwindInfo K index info (ebpf st))
             (\<lambda>(err, eb). case err of
                Some e \<Rightarrow> Ret (Inl e, st\<lparr>ebpf := eb\<rparr>)
              | None \<Rightarrow> Ret (Inr index, st\<lparr>ebpf := eb, unwindInfoIndex := (info, index) # unwindInfoIndex st\<rparr>))))"

text \<open>The variables \<open>loadDeltas\<close> builds up: the state, \<open>ebpfDeltas\<close> and \<open>numDeltasPerPage\<close>.\<close>

record ('k, 'e, 'd, 'l) loading =
  ld_state :: "('k, 'e, 'd, 'l) executableInfoManagerState"
  ebpfDeltas :: "StackDeltaEBPF list"
  numDeltasPerPage :: "u16 list"

definition addDelta ::
  "'k bpf \<Rightarrow> u64 \<Rightarrow> u64 \<Rightarrow> UnwindInfo \<Rightarrow> ('k, 'e, 'd, 'l) loading \<Rightarrow>
     (handler_error option \<times> ('k, 'e, 'd, 'l) loading) run" where
  "addDelta K firstPage addr info ld =
     run_bind (getUnwindInfoIndex K info (ld_state ld)) (\<lambda>(res, st).
       case res of
         Inl err \<Rightarrow> Ret (Some err, ld\<lparr>ld_state := st\<rparr>)
       | Inr index \<Rightarrow>
           (if ebpfDeltas ld = [] \<or> UnwindInfo_idx (last (ebpfDeltas ld)) \<noteq> index
            then (let p = unat (drop_bit 16 addr - firstPage)
              in if p < length (numDeltasPerPage ld)
                 then Ret (None, ld\<lparr>ld_state := st,
                   ebpfDeltas := ebpfDeltas ld @ [\<lparr>AddressLow = ucast addr, UnwindInfo_idx = index\<rparr>],
                   numDeltasPerPage := (numDeltasPerPage ld)[p := numDeltasPerPage ld ! p + 1]\<rparr>)
                 else Panic)
            else Ret (None, ld\<lparr>ld_state := st\<rparr>)))"

text \<open>The unwind information and the address a delta is loaded with.\<close>

definition delta_info :: "StackDelta \<Rightarrow> StackDelta list \<Rightarrow> UnwindInfo" where
  "delta_info delta rest =
     (case rest of [] \<Rightarrow> Info delta
      | nextDelta # _ \<Rightarrow> (Info delta)\<lparr>MergeOpcode := calculateMergeOpcode delta nextDelta\<rparr>)"

definition delta_addr :: "u64 \<Rightarrow> StackDelta \<Rightarrow> u64" where
  "delta_addr start delta =
     (if Flags (Info delta) AND UnwindFlagCommand \<noteq> 0 \<and> Param (Info delta) = UnwindCommandSignal
      then start + ucast (Offset delta) - 1
      else start + ucast (Offset delta))"

text \<open>The inner loop; its first argument is the variable \<open>unwindInfo\<close>.\<close>

fun load_block ::
  "'k bpf \<Rightarrow> u64 \<Rightarrow> u64 \<Rightarrow> UnwindInfo \<Rightarrow> StackDelta list \<Rightarrow> ('k, 'e, 'd, 'l) loading \<Rightarrow>
     (handler_error option \<times> UnwindInfo \<times> ('k, 'e, 'd, 'l) loading) run" where
  "load_block K firstPage start unwindInfo [] ld = Ret (None, unwindInfo, ld)"
| "load_block K firstPage start unwindInfo (delta # rest) ld =
     (if MergeOpcode unwindInfo \<noteq> 0
      then load_block K firstPage start (unwindInfo\<lparr>MergeOpcode := 0\<rparr>) rest ld
      else run_bind (addDelta K firstPage (delta_addr start delta) (delta_info delta rest) ld)
        (\<lambda>(err, ld). case err of
           Some e \<Rightarrow> Ret (Some e, delta_info delta rest, ld)
         | None \<Rightarrow> load_block K firstPage start (delta_info delta rest) rest ld))"

fun load_blocks ::
  "'k bpf \<Rightarrow> u64 \<Rightarrow> UnwindInfo \<Rightarrow> BasicBlock list \<Rightarrow> ('k, 'e, 'd, 'l) loading \<Rightarrow>
     (handler_error option \<times> ('k, 'e, 'd, 'l) loading) run" where
  "load_blocks K firstPage unwindInfo [] ld = Ret (None, ld)"
| "load_blocks K firstPage unwindInfo (block # blocks) ld =
     run_bind (load_block K firstPage (Start block) unwindInfo (Deltas block) ld)
       (\<lambda>(err, unwindInfo, ld). case err of
          Some e \<Rightarrow> Ret (Some e, ld)
        | None \<Rightarrow>
            (if blocks = [] \<or> End block + MinimumGap < Start (hd blocks)
             then run_bind (addDelta K firstPage (End block) UnwindInfoInvalid ld)
               (\<lambda>(err, ld). case err of
                  Some e \<Rightarrow> Ret (Some e, ld)
                | None \<Rightarrow> load_blocks K firstPage unwindInfo blocks ld)
             else load_blocks K firstPage unwindInfo blocks ld))"

text \<open>The part of \<open>loadDeltas\<close> that updates the eBPF maps.\<close>

definition load_maps ::
  "'k bpf \<Rightarrow> u64 \<Rightarrow> u64 \<Rightarrow> u64 \<Rightarrow> ('k, 'e, 'd, 'l) loading \<Rightarrow>
     ((handler_error + mapRef) \<times> ('k, 'e, 'd, 'l) executableInfoManagerState) run" where
  "load_maps K fileID firstPageAddr numPages ld =
     (let st = ld_state ld in
      run_bind (UpdateExeIDToStackDeltas K fileID (ebpfDeltas ld) (ebpf st)) (\<lambda>(res, eb).
        case res of
          Inl e \<Rightarrow> Ret (Inl e, st\<lparr>ebpf := eb\<rparr>)
        | Inr mapID \<Rightarrow>
            run_bind (UpdateStackDeltaPages K fileID (numDeltasPerPage ld) mapID firstPageAddr eb) (\<lambda>(err, eb).
              case err of
                Some e \<Rightarrow> run_bind (DeleteExeIDToStackDeltas fileID mapID eb)
                  (\<lambda>(_, eb). Ret (Inl e, st\<lparr>ebpf := eb\<rparr>))
              | None \<Rightarrow> Ret (Inr \<lparr>StartPage = firstPageAddr, NumPages = ucast numPages, ref_MapID = mapID\<rparr>,
                  st\<lparr>ebpf := eb, numStackDeltaMapPages := numStackDeltaMapPages st + numPages\<rparr>))))"

text \<open>
  \<open>loadDeltas\<close>.  Go's \<open>make\<close> panics when the slice of 16-bit counters is larger than the address space
  the runtime can allocate (\<open>2 ^ 48\<close> bytes).
\<close>

definition loadDeltas ::
  "'k bpf \<Rightarrow> u64 \<Rightarrow> IntervalData \<Rightarrow> ('k, 'e, 'd, 'l) executableInfoManagerState \<Rightarrow>
     ((handler_error + mapRef) \<times> ('k, 'e, 'd, 'l) executableInfoManagerState) run" where
  "loadDeltas K fileID intervals st =
     (if NumDeltas intervals = 0 then Ret (Inr \<lparr>StartPage = 0, NumPages = 0, ref_MapID = 0\<rparr>, st)
      else if Blocks intervals = [] then Panic
      else
        let firstBlock = hd (Blocks intervals); lastBlock = last (Blocks intervals);
            firstPage = drop_bit 16 (Start firstBlock);
            firstPageAddr = Start firstBlock AND NOT 0xffff;
            lastPage = drop_bit 16 (End lastBlock);
            numPages = lastPage - firstPage + 1
        in if unat numPages > 2 ^ 47 then Panic
           else run_bind (load_blocks K firstPage zero_UnwindInfo (Blocks intervals)
                  \<lparr>ld_state = st, ebpfDeltas = [], numDeltasPerPage = replicate (unat numPages) 0\<rparr>)
             (\<lambda>(err, ld). case err of
                Some e \<Rightarrow> Ret (Inl e, ld_state ld)
              | None \<Rightarrow> load_maps K fileID firstPageAddr numPages ld))"

section \<open>Unloading stack deltas\<close>

text \<open>The loop over the pages, from page \<open>i\<close> of \<open>n\<close> more.\<close>

fun delete_pages ::
  "'k bpf \<Rightarrow> u64 \<Rightarrow> u64 \<Rightarrow> nat \<Rightarrow> handler_error option \<Rightarrow> 'k ebpfMapsImpl \<Rightarrow>
     (handler_error option \<times> 'k ebpfMapsImpl) run" where
  "delete_pages K fileID pageAddr 0 err eb = Ret (err, eb)"
| "delete_pages K fileID pageAddr (Suc n) err eb =
     run_bind (DeleteStackDeltaPage K fileID pageAddr eb)
       (\<lambda>(e, eb). delete_pages K fileID (pageAddr + 0x10000) n (errors_Join err e) eb)"

definition unloadDeltas ::
  "'k bpf \<Rightarrow> u64 \<Rightarrow> mapRef \<Rightarrow> ('k, 'e, 'd, 'l) executableInfoManagerState \<Rightarrow>
     (handler_error option \<times> ('k, 'e, 'd, 'l) executableInfoManagerState) run" where
  "unloadDeltas K fileID ref st =
     (if ref_MapID ref = 0 then Ret (None, st)
      else run_bind (delete_pages K fileID (StartPage ref) (unat (NumPages ref)) None (ebpf st)) (\<lambda>(err, eb).
        run_bind (DeleteExeIDToStackDeltas fileID (ref_MapID ref) eb) (\<lambda>(e, eb).
          Ret (errors_Join err e, st\<lparr>ebpf := eb,
            numStackDeltaMapPages := numStackDeltaMapPages st - ucast (NumPages ref)\<rparr>))))"

section \<open>Interpreter detection\<close>

text \<open>A loader that fails is logged and skipped.\<close>

fun load_matches ::
  "('k ebpfMapsImpl \<Rightarrow> u64 \<times> 'e \<times> IntervalData \<Rightarrow> (unit + 'd option) \<times> 'k ebpfMapsImpl) list \<Rightarrow>
     u64 \<times> 'e \<times> IntervalData \<Rightarrow> 'k ebpfMapsImpl \<Rightarrow> 'd list \<times> 'k ebpfMapsImpl" where
  "load_matches [] loaderInfo eb = ([], eb)"
| "load_matches (loader # loaders) loaderInfo eb =
     (let (res, eb) = loader eb loaderInfo
      in case res of
           Inr (Some data) \<Rightarrow> (let (ds, eb) = load_matches loaders loaderInfo eb in (data # ds, eb))
         | _ \<Rightarrow> load_matches loaders loaderInfo eb)"

definition detectAndLoadInterpData ::
  "u64 \<times> 'e \<times> IntervalData \<Rightarrow> ('k, 'e, 'd, 'l) executableInfoManagerState \<Rightarrow>
     'd interpData option \<times> ('k, 'e, 'd, 'l) executableInfoManagerState" where
  "detectAndLoadInterpData loaderInfo st =
     (let (matches, eb) = load_matches (interpreterLoaders st) loaderInfo (ebpf st)
      in (case matches of [] \<Rightarrow> None | [m] \<Rightarrow> Some (Data m) | _ \<Rightarrow> Some (MultiData matches), st\<lparr>ebpf := eb\<rparr>))"

text \<open>\<open>Data.Unload\<close>, given the operation of a single interpreter's data; \<open>MultiData\<close> unloads each.\<close>

fun Unload :: "('d \<Rightarrow> 'k ebpfMapsImpl \<Rightarrow> 'k ebpfMapsImpl) \<Rightarrow> 'd interpData \<Rightarrow> 'k ebpfMapsImpl \<Rightarrow> 'k ebpfMapsImpl" where
  "Unload unload (Data d) eb = unload d eb"
| "Unload unload (MultiData ds) eb = fold unload ds eb"

section \<open>Reference counting\<close>

text \<open>\<open>info.rc++\<close> of a known executable.\<close>

definition inc_ref ::
  "u64 \<Rightarrow> ('d, 'l) entry \<Rightarrow> ('k, 'e, 'd, 'l) executableInfoManagerState \<Rightarrow> ('k, 'e, 'd, 'l) executableInfoManagerState" where
  "inc_ref fileID info st =
     (let info = info\<lparr>rc := rc info + 1\<rparr>;
          st = st\<lparr>executables := (executables st)(fileID \<mapsto> info)\<rparr>
      in if rc info = 1 then st\<lparr>unusedExecutables := (unusedExecutables st)(fileID := None)\<rparr> else st)"

text \<open>The first part: \<open>None\<close> when the executable is not known and its deltas have to be extracted.\<close>

definition AddOrIncRef_fast ::
  "'c fileID_lru \<Rightarrow> u64 \<Rightarrow> ('c, 'k, 'e, 'd, 'l) ExecutableInfoManager \<Rightarrow>
     (mgr_error + ('d, 'l) ExecutableInfo) option \<times> ('c, 'k, 'e, 'd, 'l) ExecutableInfoManager" where
  "AddOrIncRef_fast L fileID mgr =
     (let (exists, cache) = fl_Get L (deferredFileIDs mgr) fileID; mgr = mgr\<lparr>deferredFileIDs := cache\<rparr>
      in if exists then (Some (Inl ErrDeferredFileID), mgr)
         else case executables (state mgr) fileID of
           Some info \<Rightarrow> (Some (Inr (ExecutableInfo info)), mgr\<lparr>state := inc_ref fileID info (state mgr)\<rparr>)
         | None \<Rightarrow> (None, mgr))"

text \<open>The second part, without the lock: an error tells whether the file ID is deferred.\<close>

definition AddOrIncRef_gather ::
  "('e, 'f, 'l) env \<Rightarrow> 'e \<Rightarrow> (mgr_error \<times> bool) + IntervalData \<times> 'l option" where
  "AddOrIncRef_gather E elfRef =
     (case GetIntervalDataForFile E elfRef of
        Inl err \<Rightarrow> Inl (ExtractFailed err, err \<noteq> ErrNotExist)
      | Inr intervalData \<Rightarrow>
          (let libc = (if IsPotentialLibcDSO E elfRef
                       then case GetELF E elfRef of Inl _ \<Rightarrow> None | Inr ef \<Rightarrow> ExtractLibcInfo E ef
                       else None)
           in if Blocks intervalData = []
              then (case GetELF E elfRef of
                      Inl err \<Rightarrow> Inl (ElfFailed err, False)
                    | Inr ef \<Rightarrow> Inr (synthesizeIntervalData E ef, libc))
              else Inr (intervalData, libc)))"

text \<open>The third part, with the lock again.\<close>

definition AddOrIncRef_insert ::
  "'k bpf \<Rightarrow> 'c fileID_lru \<Rightarrow> u64 \<Rightarrow> 'e \<Rightarrow> IntervalData \<Rightarrow> 'l option \<Rightarrow> ('c, 'k, 'e, 'd, 'l) ExecutableInfoManager \<Rightarrow>
     ((mgr_error + ('d, 'l) ExecutableInfo) \<times> ('c, 'k, 'e, 'd, 'l) ExecutableInfoManager) run" where
  "AddOrIncRef_insert K L fileID elfRef intervalData libcInfo mgr =
     (case executables (state mgr) fileID of
        Some info \<Rightarrow> Ret (Inr (ExecutableInfo info), mgr\<lparr>state := inc_ref fileID info (state mgr)\<rparr>)
      | None \<Rightarrow>
          run_bind (loadDeltas K fileID intervalData (state mgr)) (\<lambda>(res, st).
            case res of
              Inl e \<Rightarrow> Ret (Inl (LoadDeltasFailed e),
                mgr\<lparr>state := st, deferredFileIDs := fl_Add L (deferredFileIDs mgr) fileID\<rparr>)
            | Inr ref \<Rightarrow>
                (let (interpData, st) = detectAndLoadInterpData (fileID, elfRef, intervalData) st;
                     info = \<lparr>ExecutableInfo = \<lparr>ei_Data = interpData, LibcInfo = libcInfo\<rparr>, mapRef = ref, rc = 1\<rparr>
                 in Ret (Inr (ExecutableInfo info),
                      mgr\<lparr>state := st\<lparr>executables := (executables st)(fileID \<mapsto> info)\<rparr>\<rparr>))))"

definition AddOrIncRef ::
  "'k bpf \<Rightarrow> 'c fileID_lru \<Rightarrow> ('e, 'f, 'l) env \<Rightarrow> u64 \<Rightarrow> 'e \<Rightarrow> ('c, 'k, 'e, 'd, 'l) ExecutableInfoManager \<Rightarrow>
     ((mgr_error + ('d, 'l) ExecutableInfo) \<times> ('c, 'k, 'e, 'd, 'l) ExecutableInfoManager) run" where
  "AddOrIncRef K L E fileID elfRef mgr =
     (let (res, mgr) = AddOrIncRef_fast L fileID mgr
      in case res of
           Some r \<Rightarrow> Ret (r, mgr)
         | None \<Rightarrow>
             (case AddOrIncRef_gather E elfRef of
                Inl (err, deferred) \<Rightarrow>
                  Ret (Inl err, if deferred then mgr\<lparr>deferredFileIDs := fl_Add L (deferredFileIDs mgr) fileID\<rparr> else mgr)
              | Inr (intervalData, libcInfo) \<Rightarrow> AddOrIncRef_insert K L fileID elfRef intervalData libcInfo mgr))"

definition DecRef ::
  "int \<Rightarrow> u64 \<Rightarrow> ('c, 'k, 'e, 'd, 'l) ExecutableInfoManager \<Rightarrow>
     mgr_error option \<times> ('c, 'k, 'e, 'd, 'l) ExecutableInfoManager" where
  "DecRef now fileID mgr =
     (case executables (state mgr) fileID of
        None \<Rightarrow> (Some (NotKnown fileID), mgr)
      | Some info \<Rightarrow>
          (if rc info = 0 then (Some ZeroRC, mgr)
           else let info = info\<lparr>rc := rc info - 1\<rparr>;
                    st = (state mgr)\<lparr>executables := (executables (state mgr))(fileID \<mapsto> info)\<rparr>
                in (None, mgr\<lparr>state := (if rc info = 0
                      then st\<lparr>unusedExecutables := (unusedExecutables st)(fileID \<mapsto> now)\<rparr> else st)\<rparr>)))"

text \<open>The loop of \<open>CleanupUnused\<close> over the keys of \<open>unusedExecutables\<close>, in the order Go visits them.\<close>

fun cleanup_loop ::
  "'k bpf \<Rightarrow> ('d \<Rightarrow> 'k ebpfMapsImpl \<Rightarrow> 'k ebpfMapsImpl) \<Rightarrow> int \<Rightarrow> u64 list \<Rightarrow> ('k, 'e, 'd, 'l) executableInfoManagerState \<Rightarrow>
     (mgr_error option \<times> ('k, 'e, 'd, 'l) executableInfoManagerState) run" where
  "cleanup_loop K unload cutoff [] st = Ret (None, st)"
| "cleanup_loop K unload cutoff (fileID # order) st =
     (case unusedExecutables st fileID of
        None \<Rightarrow> cleanup_loop K unload cutoff order st
      | Some unusedSince \<Rightarrow>
          if unusedSince > cutoff then cleanup_loop K unload cutoff order st
          else case executables st fileID of
            None \<Rightarrow> Ret (Some (UnusedNotKnown fileID), st)
          | Some info \<Rightarrow>
              if rc info \<noteq> 0 then Ret (Some (UnusedReferenced fileID (rc info)), st)
              else run_bind (unloadDeltas K fileID (mapRef info) st) (\<lambda>(err, st).
                case err of
                  Some e \<Rightarrow> Ret (Some (RemoveFailed fileID e), st)
                | None \<Rightarrow>
                    (let eb = (case ei_Data (ExecutableInfo info) of None \<Rightarrow> ebpf st | Some d \<Rightarrow> Unload unload d (ebpf st))
                     in cleanup_loop K unload cutoff order (st\<lparr>ebpf := eb,
                          executables := (executables st)(fileID := None),
                          unusedExecutables := (unusedExecutables st)(fileID := None)\<rparr>))))"

definition CleanupUnused ::
  "'k bpf \<Rightarrow> ('d \<Rightarrow> 'k ebpfMapsImpl \<Rightarrow> 'k ebpfMapsImpl) \<Rightarrow> int \<Rightarrow> int \<Rightarrow> u64 list \<Rightarrow> ('c, 'k, 'e, 'd, 'l) ExecutableInfoManager \<Rightarrow>
     (mgr_error option \<times> ('c, 'k, 'e, 'd, 'l) ExecutableInfoManager) run" where
  "CleanupUnused K unload now age order mgr =
     run_bind (cleanup_loop K unload (now - age) order (state mgr)) (\<lambda>(err, st). Ret (err, mgr\<lparr>state := st\<rparr>))"

definition NumInterpreterLoaders :: "('c, 'k, 'e, 'd, 'l) ExecutableInfoManager \<Rightarrow> nat" where
  "NumInterpreterLoaders mgr = length (interpreterLoaders (state mgr))"

end
