(* ===== verification/BpfKernel.thy ===== *)
theory BpfKernel
  imports EbpfMaps
begin

text \<open>
  What the development assumes of the kernel's maps, as laws on the parameter \<open>'k bpf\<close>.  All maps but
  one are hash tables or arrays, whose contents are what a lookup shows.  \<open>pid_page_to_mapping_info\<close> is a
  trie: a lookup returns the entry with the longest prefix of the key, so its contents are described by
  a table of bit prefixes of their own.  \<open>ram_bpf\<close> is a concrete kernel that satisfies the laws.
\<close>

section \<open>The kernel's maps\<close>

text \<open>
  A single operation changes at most the key it names, and nothing when it reports an error.  The effect
  of a change of the trie on its own lookups is stated by \<open>trie_laws\<close> below.
\<close>

abbreviation (input) apart :: "bpfmap \<Rightarrow> bpfmap \<Rightarrow> bool" where
  "apart m m' \<equiv> m \<noteq> PidPageToMappingInfo \<or> m' \<noteq> PidPageToMappingInfo"

definition update_law :: "'k bpf \<Rightarrow> bool" where
  "update_law K \<longleftrightarrow> (\<forall>m key v fl k m' key'. apart m m' \<longrightarrow>
     bpf_Lookup K m' key' (snd (bpf_Update K m key v fl k)) =
       (if fst (bpf_Update K m key v fl k) = None \<and> m' = m \<and> key' = key then Some v else bpf_Lookup K m' key' k))"

definition delete_law :: "'k bpf \<Rightarrow> bool" where
  "delete_law K \<longleftrightarrow> (\<forall>m key k m' key'. apart m m' \<longrightarrow>
     bpf_Lookup K m' key' (snd (bpf_Delete K m key k)) =
       (if fst (bpf_Delete K m key k) = None \<and> m' = m \<and> key' = key then None else bpf_Lookup K m' key' k))"

text \<open>Deleting an absent key is an error of its own, deleting a present one succeeds.\<close>

definition delete_result_law :: "'k bpf \<Rightarrow> bpfmap \<Rightarrow> bool" where
  "delete_result_law K m \<longleftrightarrow> (\<forall>key k.
     fst (bpf_Delete K m key k) = (if bpf_Lookup K m key k = None then Some ErrKeyNotExist else None))"

text \<open>
  A batch stops at the first element that fails and keeps what it did before; only the error \<open>E2BIG\<close>
  comes with an exact count.
\<close>

definition batch_update_law :: "'k bpf \<Rightarrow> bool" where
  "batch_update_law K \<longleftrightarrow> (\<forall>m keys vals k n e k'.
     bpf_BatchUpdate K m keys vals k = ((n, e), k') \<and> length keys = length vals \<longrightarrow>
       (\<exists>j \<le> length keys. (e = None \<longrightarrow> j = length keys) \<and> (e = Some E2BIG \<longrightarrow> n = int j) \<and>
         (\<forall>m' key'. apart m m' \<longrightarrow> bpf_Lookup K m' key' k' =
            (if m' = m \<and> key' \<in> set (take j keys) then map_of (rev (take j (zip keys vals))) key' else bpf_Lookup K m' key' k))))"

definition batch_delete_law :: "'k bpf \<Rightarrow> bool" where
  "batch_delete_law K \<longleftrightarrow> (\<forall>m keys k n e k'.
     bpf_BatchDelete K m keys k = ((n, e), k') \<longrightarrow>
       (\<exists>j \<le> length keys. (e = None \<longrightarrow> j = length keys) \<and>
         (\<forall>m' key'. apart m m' \<longrightarrow> bpf_Lookup K m' key' k' =
            (if m' = m \<and> key' \<in> set (take j keys) then None else bpf_Lookup K m' key' k))))"

text \<open>The other calls do not change the contents of a map that exists.\<close>

definition quiet_law :: "'k bpf \<Rightarrow> bool" where
  "quiet_law K \<longleftrightarrow>
     (\<forall>m key i k. bpf_Lookup K m key (snd (bpf_Clone K i k)) = bpf_Lookup K m key k) \<and>
     (\<forall>m key i k. bpf_Lookup K m key (snd (bpf_Close K i k)) = bpf_Lookup K m key k) \<and>
     (\<forall>m key k. bpf_Lookup K m key (snd (bpf_MaximizeMemlock K k)) = bpf_Lookup K m key k) \<and>
     (\<forall>m key k. bpf_Lookup K m key (bpf_restoreRlimit K k) = bpf_Lookup K m key k) \<and>
     (\<forall>m key s k. (\<forall>i. fst (bpf_NewMap K s k) = Inr i \<longrightarrow> m \<noteq> InnerMap i) \<longrightarrow>
        bpf_Lookup K m key (snd (bpf_NewMap K s k)) = bpf_Lookup K m key k)"

text \<open>An outer map with room takes a new key, and refuses one it already has.\<close>

definition noexist_law :: "'k bpf \<Rightarrow> bool" where
  "noexist_law K \<longleftrightarrow> (\<forall>b key v k.
     fst (bpf_Update K (ExeIDToStackDeltas b) key v UpdateNoExist k) =
       (if bpf_Lookup K (ExeIDToStackDeltas b) key k = None then None else Some ErrKeyExist))"

definition bpf_laws :: "'k bpf \<Rightarrow> bool" where
  "bpf_laws K \<longleftrightarrow> update_law K \<and> delete_law K \<and> delete_result_law K StackDeltaPageToInfo \<and>
     (\<forall>b. delete_result_law K (ExeIDToStackDeltas b)) \<and> batch_update_law K \<and> batch_delete_law K \<and> quiet_law K \<and>
     noexist_law K"

lemma Lookup_Update:
  "bpf_laws K \<Longrightarrow> apart m m' \<Longrightarrow> bpf_Lookup K m' key' (snd (bpf_Update K m key v fl k)) =
    (if fst (bpf_Update K m key v fl k) = None \<and> m' = m \<and> key' = key then Some v else bpf_Lookup K m' key' k)"
  by (simp add: bpf_laws_def update_law_def)

lemma Lookup_Delete:
  "bpf_laws K \<Longrightarrow> apart m m' \<Longrightarrow> bpf_Lookup K m' key' (snd (bpf_Delete K m key k)) =
    (if fst (bpf_Delete K m key k) = None \<and> m' = m \<and> key' = key then None else bpf_Lookup K m' key' k)"
  by (simp add: bpf_laws_def delete_law_def)

lemma Delete_result:
  "bpf_laws K \<Longrightarrow> m = StackDeltaPageToInfo \<or> m = ExeIDToStackDeltas b \<Longrightarrow>
    fst (bpf_Delete K m key k) = (if bpf_Lookup K m key k = None then Some ErrKeyNotExist else None)"
  by (auto simp: bpf_laws_def delete_result_law_def)

lemma Update_NoExist:
  "bpf_laws K \<Longrightarrow> fst (bpf_Update K (ExeIDToStackDeltas b) key v UpdateNoExist k) =
    (if bpf_Lookup K (ExeIDToStackDeltas b) key k = None then None else Some ErrKeyExist)"
  by (simp add: bpf_laws_def noexist_law_def)

lemma Lookup_quiet:
  assumes "bpf_laws K"
  shows "bpf_Lookup K m key (snd (bpf_Clone K i k)) = bpf_Lookup K m key k"
    "bpf_Lookup K m key (snd (bpf_Close K i k)) = bpf_Lookup K m key k"
    "bpf_Lookup K m key (snd (bpf_MaximizeMemlock K k)) = bpf_Lookup K m key k"
    "bpf_Lookup K m key (bpf_restoreRlimit K k) = bpf_Lookup K m key k"
  using assms by (simp_all add: bpf_laws_def quiet_law_def)

lemma Lookup_NewMap:
  "bpf_laws K \<Longrightarrow> (\<And>i. fst (bpf_NewMap K s k) = Inr i \<Longrightarrow> m \<noteq> InnerMap i) \<Longrightarrow>
    bpf_Lookup K m key (snd (bpf_NewMap K s k)) = bpf_Lookup K m key k"
  by (simp add: bpf_laws_def quiet_law_def)

lemma Lookup_BatchUpdate:
  assumes "bpf_laws K" "bpf_BatchUpdate K m keys vals k = ((n, e), k')" "length keys = length vals"
    "m \<noteq> PidPageToMappingInfo"
  obtains j where "j \<le> length keys" "e = None \<Longrightarrow> j = length keys" "e = Some E2BIG \<Longrightarrow> n = int j"
    "\<And>m' key'. bpf_Lookup K m' key' k' =
      (if m' = m \<and> key' \<in> set (take j keys) then map_of (rev (take j (zip keys vals))) key' else bpf_Lookup K m' key' k)"
proof -
  have "batch_update_law K" using assms(1) by (simp add: bpf_laws_def)
  from this [unfolded batch_update_law_def, rule_format, OF conjI [OF assms(2,3)]]
  obtain j where "j \<le> length keys" "e = None \<longrightarrow> j = length keys" "e = Some E2BIG \<longrightarrow> n = int j"
    "\<forall>m' key'. apart m m' \<longrightarrow> bpf_Lookup K m' key' k' =
      (if m' = m \<and> key' \<in> set (take j keys) then map_of (rev (take j (zip keys vals))) key' else bpf_Lookup K m' key' k)"
    by (elim exE conjE)
  with assms(4) show thesis by (intro that [of j]) blast+
qed

lemma Lookup_BatchDelete:
  assumes "bpf_laws K" "bpf_BatchDelete K m keys k = ((n, e), k')" "m \<noteq> PidPageToMappingInfo"
  obtains j where "j \<le> length keys" "e = None \<Longrightarrow> j = length keys"
    "\<And>m' key'. bpf_Lookup K m' key' k' =
      (if m' = m \<and> key' \<in> set (take j keys) then None else bpf_Lookup K m' key' k)"
proof -
  have "batch_delete_law K" using assms(1) by (simp add: bpf_laws_def)
  from this [unfolded batch_delete_law_def, rule_format, OF assms(2)]
  obtain j where "j \<le> length keys" "e = None \<longrightarrow> j = length keys"
    "\<forall>m' key'. apart m m' \<longrightarrow> bpf_Lookup K m' key' k' =
      (if m' = m \<and> key' \<in> set (take j keys) then None else bpf_Lookup K m' key' k)"
    by (elim exE conjE)
  with assms(3) show thesis by (intro that [of j]) blast+
qed

section \<open>The trie\<close>

text \<open>
  The key of the trie as the kernel reads it: the bits of the two big-endian fields, most significant
  first, as many as the prefix length says.
\<close>

definition bits_msb :: "'a::len word \<Rightarrow> bool list" where
  "bits_msb w = map (bit w) (rev [0..<LENGTH('a)])"

definition trie_bits :: "PIDPage \<Rightarrow> bool list" where
  "trie_bits p = take (unat (PrefixLen p)) (bits_msb (ReverseBytes32 (Pid p)) @ bits_msb (ReverseBytes64 (pp_Page p)))"

definition lpm_lookup :: "(bool list \<Rightarrow> bval option) \<Rightarrow> bool list \<Rightarrow> bval option" where
  "lpm_lookup t bs = fold (\<lambda>n found. case t (take n bs) of None \<Rightarrow> found | Some v \<Rightarrow> Some v) [0..<Suc (length bs)] None"

text \<open>
  The laws of the trie, for a table \<open>trie k\<close> of its entries: an update stores an entry, a deletion needs
  the exact prefix, and a lookup finds the longest prefix.
\<close>

definition trie_update_law :: "'k bpf \<Rightarrow> ('k \<Rightarrow> bool list \<Rightarrow> bval option) \<Rightarrow> bool" where
  "trie_update_law K trie \<longleftrightarrow>
     (\<forall>p v fl k. trie (snd (bpf_Update K PidPageToMappingInfo (KPid p) v fl k)) =
        (if fst (bpf_Update K PidPageToMappingInfo (KPid p) v fl k) = None then (trie k)(trie_bits p \<mapsto> v) else trie k)) \<and>
     (\<forall>m key v fl k. m \<noteq> PidPageToMappingInfo \<longrightarrow> trie (snd (bpf_Update K m key v fl k)) = trie k) \<and>
     (\<forall>m keys vals k. m \<noteq> PidPageToMappingInfo \<longrightarrow> trie (snd (bpf_BatchUpdate K m keys vals k)) = trie k)"

definition trie_delete_law :: "'k bpf \<Rightarrow> ('k \<Rightarrow> bool list \<Rightarrow> bval option) \<Rightarrow> bool" where
  "trie_delete_law K trie \<longleftrightarrow>
     (\<forall>p k. bpf_Delete K PidPageToMappingInfo (KPid p) k =
        (if trie k (trie_bits p) = None then Some ErrKeyNotExist else None, snd (bpf_Delete K PidPageToMappingInfo (KPid p) k))) \<and>
     (\<forall>p k. trie (snd (bpf_Delete K PidPageToMappingInfo (KPid p) k)) = (trie k)(trie_bits p := None)) \<and>
     (\<forall>m key k. m \<noteq> PidPageToMappingInfo \<longrightarrow> trie (snd (bpf_Delete K m key k)) = trie k) \<and>
     (\<forall>m keys k. m \<noteq> PidPageToMappingInfo \<longrightarrow> trie (snd (bpf_BatchDelete K m keys k)) = trie k) \<and>
     (\<forall>ps k. \<exists>j \<le> length ps.
        (snd (fst (bpf_BatchDelete K PidPageToMappingInfo (map KPid ps) k)) = None \<longrightarrow> j = length ps) \<and>
        trie (snd (bpf_BatchDelete K PidPageToMappingInfo (map KPid ps) k)) =
          (\<lambda>bs. if bs \<in> trie_bits ` set (take j ps) then None else trie k bs))"

definition trie_lookup_law :: "'k bpf \<Rightarrow> ('k \<Rightarrow> bool list \<Rightarrow> bval option) \<Rightarrow> bool" where
  "trie_lookup_law K trie \<longleftrightarrow>
     (\<forall>p k. bpf_Lookup K PidPageToMappingInfo (KPid p) k = lpm_lookup (trie k) (trie_bits p)) \<and>
     (\<forall>i k. trie (snd (bpf_Clone K i k)) = trie k) \<and> (\<forall>i k. trie (snd (bpf_Close K i k)) = trie k) \<and>
     (\<forall>k. trie (snd (bpf_MaximizeMemlock K k)) = trie k) \<and> (\<forall>k. trie (bpf_restoreRlimit K k) = trie k) \<and>
     (\<forall>s k. trie (snd (bpf_NewMap K s k)) = trie k)"

definition trie_laws :: "'k bpf \<Rightarrow> ('k \<Rightarrow> bool list \<Rightarrow> bval option) \<Rightarrow> bool" where
  "trie_laws K trie \<longleftrightarrow> trie_update_law K trie \<and> trie_delete_law K trie \<and> trie_lookup_law K trie"

section \<open>A concrete kernel\<close>

text \<open>Its maps have no size limit and its calls fail only by the presence of keys.\<close>

record ram =
  ram_next :: nat
  ram_tab :: "bpfmap \<Rightarrow> bkey \<Rightarrow> bval option"
  ram_trie :: "bool list \<Rightarrow> bval option"

fun in_trie :: "bpfmap \<Rightarrow> bkey \<Rightarrow> bool list option" where
  "in_trie PidPageToMappingInfo (KPid p) = Some (trie_bits p)"
| "in_trie m key = None"

definition ram_get :: "bpfmap \<Rightarrow> bkey \<Rightarrow> ram \<Rightarrow> bval option" where
  "ram_get m key k = (case in_trie m key of None \<Rightarrow> ram_tab k m key | Some bs \<Rightarrow> ram_trie k bs)"

definition ram_look :: "bpfmap \<Rightarrow> bkey \<Rightarrow> ram \<Rightarrow> bval option" where
  "ram_look m key k = (case in_trie m key of None \<Rightarrow> ram_tab k m key | Some bs \<Rightarrow> lpm_lookup (ram_trie k) bs)"

definition ram_put :: "bpfmap \<Rightarrow> bkey \<Rightarrow> bval option \<Rightarrow> ram \<Rightarrow> ram" where
  "ram_put m key v k =
     (case in_trie m key of
        None \<Rightarrow> k\<lparr>ram_tab := (ram_tab k)(m := (ram_tab k m)(key := v))\<rparr>
      | Some bs \<Rightarrow> k\<lparr>ram_trie := (ram_trie k)(bs := v)\<rparr>)"

fun ram_batch_delete :: "bpfmap \<Rightarrow> bkey list \<Rightarrow> int \<Rightarrow> ram \<Rightarrow> (int \<times> bpf_error option) \<times> ram" where
  "ram_batch_delete m [] n k = ((n, None), k)"
| "ram_batch_delete m (key # keys) n k =
     (if ram_get m key k = None then ((n, Some ErrKeyNotExist), k)
      else ram_batch_delete m keys (n + 1) (ram_put m key None k))"

definition ram_bpf :: "ram bpf" where
  "ram_bpf = \<lparr>
     bpf_Lookup = ram_look,
     bpf_Update = \<lambda>m key v fl k.
       if fl = UpdateNoExist \<and> ram_get m key k \<noteq> None then (Some ErrKeyExist, k) else (None, ram_put m key (Some v) k),
     bpf_Delete = \<lambda>m key k. if ram_get m key k = None then (Some ErrKeyNotExist, k) else (None, ram_put m key None k),
     bpf_BatchUpdate = \<lambda>m keys vals k.
       ((int (length keys), None), fold (\<lambda>(key, v). ram_put m key (Some v)) (zip keys vals) k),
     bpf_BatchDelete = \<lambda>m keys k. ram_batch_delete m keys 0 k,
     bpf_NewMap = \<lambda>s k. (Inr (ram_next k), k\<lparr>ram_next := ram_next k + 1\<rparr>),
     bpf_Clone = \<lambda>i k. (None, k),
     bpf_Close = \<lambda>i k. (None, k),
     bpf_MaximizeMemlock = \<lambda>k. (None, k),
     bpf_restoreRlimit = \<lambda>k. k,
     bpf_MaxEntries = \<lambda>m. 0x4000\<rparr>"

abbreviation ram_empty :: ram where
  "ram_empty \<equiv> \<lparr>ram_next = 0, ram_tab = \<lambda>m key. None, ram_trie = \<lambda>bs. None\<rparr>"

lemma in_trie_hashed [simp]: "m \<noteq> PidPageToMappingInfo \<Longrightarrow> in_trie m key = None"
  by (cases m) simp_all

lemma in_trie_map: "in_trie m key = Some bs \<Longrightarrow> m = PidPageToMappingInfo"
  by (cases m) simp_all

lemma ram_look_put [simp]:
  "apart m m' \<Longrightarrow> ram_look m' key' (ram_put m key v k) = (if m' = m \<and> key' = key then v else ram_look m' key' k)"
  by (auto simp: ram_put_def ram_look_def split: option.split dest: in_trie_map)

lemma ram_look_empty [simp]:
  "m \<noteq> PidPageToMappingInfo \<Longrightarrow> ram_look m key \<lparr>ram_next = n, ram_tab = \<lambda>m key. None, ram_trie = t\<rparr> = None"
  by (simp add: ram_look_def)

lemma ram_look_next [simp]: "ram_look m key (k\<lparr>ram_next := n\<rparr>) = ram_look m key k"
  by (simp add: ram_look_def split: option.split)

lemma ram_get_hashed [simp]: "m \<noteq> PidPageToMappingInfo \<Longrightarrow> ram_get m key k = ram_look m key k"
  by (simp add: ram_get_def ram_look_def)

lemma ram_trie_put [simp]:
  "ram_trie (ram_put m key v k) = (case in_trie m key of None \<Rightarrow> ram_trie k | Some bs \<Rightarrow> (ram_trie k)(bs := v))"
  by (simp add: ram_put_def split: option.split)

lemma fst_set_zip: "length ks = length vs \<Longrightarrow> fst ` set (zip ks vs) = set ks"
  by (metis list.set_map map_fst_zip)

lemma ram_batch_update_look:
  "length keys = length vals \<Longrightarrow> apart m m' \<Longrightarrow>
   ram_look m' key' (fold (\<lambda>(key, v). ram_put m key (Some v)) (zip keys vals) k) =
     (if m' = m \<and> key' \<in> set keys then map_of (rev (zip keys vals)) key' else ram_look m' key' k)"
proof (induction keys vals arbitrary: k rule: list_induct2)
  case (Cons key keys v vals)
  have "map_of (rev (zip keys vals)) key' = None" if "key' \<notin> set keys"
    using that Cons.hyps by (simp add: map_of_eq_None_iff fst_set_zip)
  moreover have "\<exists>w. map_of (rev (zip keys vals)) key' = Some w" if "key' \<in> set keys"
    using that Cons.hyps fst_set_zip [of keys vals] by (metis map_of_eq_None_iff not_None_eq set_rev)
  ultimately show ?case using Cons.prems by (auto simp: Cons.IH map_add_def)
qed simp

lemma ram_batch_update_trie:
  "m \<noteq> PidPageToMappingInfo \<Longrightarrow> ram_trie (fold (\<lambda>(key, v). ram_put m key (Some v)) kvs k) = ram_trie k"
  by (induction kvs arbitrary: k) auto

lemma ram_batch_delete_hashed:
  "m \<noteq> PidPageToMappingInfo \<Longrightarrow> ram_trie (snd (ram_batch_delete m keys n k)) = ram_trie k"
  by (induction m keys n k rule: ram_batch_delete.induct) auto

lemma ram_batch_delete_look:
  "\<exists>j \<le> length keys. (snd (fst (ram_batch_delete m keys n k)) = None \<longrightarrow> j = length keys) \<and>
    (\<forall>m' key'. apart m m' \<longrightarrow> ram_look m' key' (snd (ram_batch_delete m keys n k)) =
         (if m' = m \<and> key' \<in> set (take j keys) then None else ram_look m' key' k))"
proof (induction keys arbitrary: n k)
  case (Cons key keys)
  show ?case
  proof (cases "ram_get m key k = None")
    case True
    then show ?thesis by (auto intro!: exI [of _ 0])
  next
    case False
    obtain j where j: "j \<le> length keys"
      "snd (fst (ram_batch_delete m keys (n + 1) (ram_put m key None k))) = None \<longrightarrow> j = length keys"
      "\<forall>m' key'. apart m m' \<longrightarrow> ram_look m' key' (snd (ram_batch_delete m keys (n + 1) (ram_put m key None k))) =
           (if m' = m \<and> key' \<in> set (take j keys) then None else ram_look m' key' (ram_put m key None k))"
      using Cons.IH [of "n + 1" "ram_put m key None k"] by (elim exE conjE) (rule that)
    then show ?thesis using False by (auto intro!: exI [of _ "Suc j"])
  qed
qed simp

lemma ram_batch_delete_trie:
  "\<exists>j \<le> length ps. (snd (fst (ram_batch_delete PidPageToMappingInfo (map KPid ps) n k)) = None \<longrightarrow> j = length ps) \<and>
    ram_trie (snd (ram_batch_delete PidPageToMappingInfo (map KPid ps) n k)) =
      (\<lambda>bs. if bs \<in> trie_bits ` set (take j ps) then None else ram_trie k bs)"
proof (induction ps arbitrary: n k)
  case (Cons p ps)
  show ?case
  proof (cases "ram_get PidPageToMappingInfo (KPid p) k = None")
    case True
    then show ?thesis by (auto intro!: exI [of _ 0])
  next
    case False
    obtain j where j: "j \<le> length ps"
      "snd (fst (ram_batch_delete PidPageToMappingInfo (map KPid ps) (n + 1) (ram_put PidPageToMappingInfo (KPid p) None k))) = None \<longrightarrow> j = length ps"
      "ram_trie (snd (ram_batch_delete PidPageToMappingInfo (map KPid ps) (n + 1) (ram_put PidPageToMappingInfo (KPid p) None k))) =
        (\<lambda>bs. if bs \<in> trie_bits ` set (take j ps) then None else ram_trie (ram_put PidPageToMappingInfo (KPid p) None k) bs)"
      using Cons.IH [of "n + 1" "ram_put PidPageToMappingInfo (KPid p) None k"] by (elim exE conjE) (rule that)
    then show ?thesis using False by (auto simp: fun_eq_iff intro!: exI [of _ "Suc j"])
  qed
qed simp

lemma ram_bpf_laws: "bpf_laws ram_bpf"
proof -
  have "batch_delete_law ram_bpf"
    unfolding batch_delete_law_def
  proof (intro allI impI)
    fix m keys k n e k'
    assume "bpf_BatchDelete ram_bpf m keys k = ((n, e), k')"
    then show "\<exists>j \<le> length keys. (e = None \<longrightarrow> j = length keys) \<and> (\<forall>m' key'. apart m m' \<longrightarrow>
        bpf_Lookup ram_bpf m' key' k' = (if m' = m \<and> key' \<in> set (take j keys) then None else bpf_Lookup ram_bpf m' key' k))"
      using ram_batch_delete_look [of keys m 0 k] by (simp add: ram_bpf_def cong: if_cong split del: if_split)
  qed
  moreover have "batch_update_law ram_bpf"
    by (auto simp: batch_update_law_def ram_bpf_def ram_batch_update_look intro!: exI [of _ "length _"])
  ultimately show ?thesis
    by (simp add: bpf_laws_def update_law_def delete_law_def delete_result_law_def quiet_law_def noexist_law_def ram_bpf_def)
qed

lemma ram_trie_laws: "trie_laws ram_bpf ram_trie"
proof -
  have "trie_delete_law ram_bpf ram_trie"
    using ram_batch_delete_trie [of _ 0]
    by (auto simp: trie_delete_law_def ram_bpf_def ram_get_def ram_batch_delete_hashed fun_eq_iff)
  then show ?thesis
    by (auto simp: trie_laws_def trie_update_law_def trie_lookup_law_def ram_bpf_def ram_batch_update_trie ram_look_def)
qed

end
