(* ===== verification/EbpfProps.thy ===== *)
theory EbpfProps
  imports BpfKernel
begin

text \<open>
  Properties of the eBPF map handler: the choice of the bucket, the rollback of a failed page update,
  and the order in which the asynchronous workers apply updates.
\<close>

section \<open>Buckets\<close>

lemma bits_Len_less: "n < 2 ^ bits_Len n"
proof (induction n rule: bits_Len.induct)
  case (1 n)
  then show ?case by (cases "n = 0") (simp_all add: bits_Len.simps [of n])
qed

lemma bits_Len_ge: "0 < n \<Longrightarrow> 2 ^ (bits_Len n - 1) \<le> n"
proof (induction n rule: bits_Len.induct)
  case (1 n)
  show ?case
  proof (cases "n div 2 = 0")
    case True
    then show ?thesis using 1 by (simp add: bits_Len.simps [of n] bits_Len.simps [of 0])
  next
    case False
    have "0 < bits_Len (n div 2)" using False by (simp add: bits_Len.simps [of "n div 2"])
    then have "2 ^ bits_Len (n div 2) = 2 * (2::nat) ^ (bits_Len (n div 2) - 1)"
      by (metis One_nat_def Suc_pred power_Suc)
    then show ?thesis using 1 False by (simp add: bits_Len.simps [of n])
  qed
qed

lemma bits_Len_le: "n < 2 ^ k \<Longrightarrow> bits_Len n \<le> k"
proof (cases "n = 0")
  case False
  assume "n < 2 ^ k"
  then have "(2::nat) ^ (bits_Len n - 1) < 2 ^ k" using False by (intro le_less_trans [OF bits_Len_ge]) auto
  then show ?thesis by simp
qed (simp add: bits_Len.simps [of 0])


section \<open>Rollback of the stack delta pages\<close>

lemma Lookup_delete_keys:
  assumes "bpf_laws K"
  shows "bpf_Lookup K m key (delete_keys K keys k) =
    (if m = StackDeltaPageToInfo \<and> key \<in> KPage ` set keys then None else bpf_Lookup K m key k)"
proof (induction keys arbitrary: k)
  case (Cons a keys)
  show ?case
    by (auto simp: Cons Lookup_Delete [OF assms] Delete_result [OF assms] split: if_split_asm)
qed simp

text \<open>What the deletion of the new pages leaves, whatever the batch operations did to them.\<close>

lemma delete_keys_undo:
  assumes "bpf_laws K"
    and "\<And>m key. m \<noteq> StackDeltaPageToInfo \<or> key \<notin> KPage ` set keys \<Longrightarrow> bpf_Lookup K m key k' = bpf_Lookup K m key k"
    and "\<And>key. key \<in> KPage ` set keys \<Longrightarrow> bpf_Lookup K StackDeltaPageToInfo key k = None"
  shows "bpf_Lookup K m key (delete_keys K keys k') = bpf_Lookup K m key k"
  using assms(2) [of m key] assms(3) [of key]
  by (cases "m = StackDeltaPageToInfo \<and> key \<in> KPage ` set keys") (auto simp: Lookup_delete_keys [OF assms(1)])

lemma update_pages_batch:
  assumes laws: "bpf_laws K" and bu: "bpf_BatchUpdate K StackDeltaPageToInfo (map (KPage \<circ> fst) pages) (map (VPageInfo \<circ> snd) pages) k = ((n, err), k1)"
    and absent: "\<And>key. key \<in> KPage ` fst ` set pages \<Longrightarrow> bpf_Lookup K StackDeltaPageToInfo key k = None"
  shows "m \<noteq> StackDeltaPageToInfo \<or> key \<notin> KPage ` fst ` set pages \<Longrightarrow> bpf_Lookup K m key k1 = bpf_Lookup K m key k"
    and "err = Some E2BIG \<Longrightarrow> bpf_BatchDelete K StackDeltaPageToInfo (map (KPage \<circ> fst) (take (nat n) pages)) k1 = ((c, derr), k2) \<Longrightarrow>
      (derr = None \<longrightarrow> bpf_Lookup K m key k2 = bpf_Lookup K m key k) \<and>
      (m \<noteq> StackDeltaPageToInfo \<or> key \<notin> KPage ` fst ` set pages \<longrightarrow> bpf_Lookup K m key k2 = bpf_Lookup K m key k)"
proof -
  let ?ks = "map (KPage \<circ> fst) pages" and ?vals = "map (VPageInfo \<circ> snd) pages"
  obtain j where j: "err = Some E2BIG \<Longrightarrow> n = int j"
    and look: "\<And>m key. bpf_Lookup K m key k1 =
      (if m = StackDeltaPageToInfo \<and> key \<in> set (take j ?ks) then map_of (rev (take j (zip ?ks ?vals))) key else bpf_Lookup K m key k)"
    by (rule Lookup_BatchUpdate [OF laws bu]) (simp, simp, rule that, assumption+)
  have ks: "set ?ks = KPage ` fst ` set pages" by (simp add: image_image o_def)
  show out: "bpf_Lookup K m key k1 = bpf_Lookup K m key k" if "m \<noteq> StackDeltaPageToInfo \<or> key \<notin> KPage ` fst ` set pages" for m key
    using that look [of m key] in_set_takeD [of key j ?ks] unfolding ks [symmetric] by auto
  show "(derr = None \<longrightarrow> bpf_Lookup K m key k2 = bpf_Lookup K m key k) \<and>
      (m \<noteq> StackDeltaPageToInfo \<or> key \<notin> KPage ` fst ` set pages \<longrightarrow> bpf_Lookup K m key k2 = bpf_Lookup K m key k)"
    if "err = Some E2BIG" and bd: "bpf_BatchDelete K StackDeltaPageToInfo (map (KPage \<circ> fst) (take (nat n) pages)) k1 = ((c, derr), k2)"
  proof -
    have nj: "map (KPage \<circ> fst) (take (nat n) pages) = take j ?ks" using j that by (simp add: take_map)
    obtain i where i: "derr = None \<Longrightarrow> i = length (take j ?ks)"
      and look2: "\<And>m key. bpf_Lookup K m key k2 =
        (if m = StackDeltaPageToInfo \<and> key \<in> set (take i (take j ?ks)) then None else bpf_Lookup K m key k1)"
      by (rule Lookup_BatchDelete [OF laws bd [unfolded nj]]) (simp, rule that, assumption+)
    have "bpf_Lookup K m key k2 = bpf_Lookup K m key k" if d: "derr = None"
    proof -
      have "take i (take j ?ks) = take j ?ks" using i [OF d] by (simp only: take_all order_refl)
      then show ?thesis
        using look2 [of m key] look [of m key] absent [of key] in_set_takeD [of key j ?ks] unfolding ks [symmetric]
        by (cases "m = StackDeltaPageToInfo \<and> key \<in> set (take j ?ks)") auto
    qed
    moreover have "bpf_Lookup K m key k2 = bpf_Lookup K m key k" if "m \<noteq> StackDeltaPageToInfo \<or> key \<notin> KPage ` fst ` set pages"
      using that out [OF that] look2 [of m key] in_set_takeD [of key i "take j ?ks"] in_set_takeD [of key j ?ks]
      unfolding ks [symmetric] by auto
    ultimately show ?thesis by blast
  qed
qed

lemma update_pages_rollback:
  assumes laws: "bpf_laws K" and fails: "update_pages K pages k = (Some e, k')"
    and absent: "\<And>key. key \<in> KPage ` fst ` set pages \<Longrightarrow> bpf_Lookup K StackDeltaPageToInfo key k = None"
  shows "bpf_Lookup K m key k' = bpf_Lookup K m key k"
proof -
  obtain n err k1 where bu: "bpf_BatchUpdate K StackDeltaPageToInfo (map (KPage \<circ> fst) pages) (map (VPageInfo \<circ> snd) pages) k = ((n, err), k1)"
    by (metis prod.exhaust)
  obtain c derr k2 where bd: "bpf_BatchDelete K StackDeltaPageToInfo (map (KPage \<circ> fst) (take (nat n) pages)) k1 = ((c, derr), k2)"
    by (metis prod.exhaust)
  note batch = update_pages_batch [OF laws bu absent]
  have undo: "bpf_Lookup K m key (delete_keys K (map fst pages) k'') = bpf_Lookup K m key k"
    if "\<And>m key. m \<noteq> StackDeltaPageToInfo \<or> key \<notin> KPage ` fst ` set pages \<Longrightarrow> bpf_Lookup K m key k'' = bpf_Lookup K m key k" for k''
    using that absent by (intro delete_keys_undo [OF laws]) simp_all
  show ?thesis
  proof (cases "err = Some E2BIG")
    case True
    note b = batch(2) [OF _ True bd]
    have "bpf_Lookup K m key (delete_keys K (map fst pages) k2) = bpf_Lookup K m key k" using b by (intro undo) blast
    then show ?thesis using True fails bu bd b [of m key] by (auto simp: update_pages_def Let_def take_map split: if_split_asm option.split_asm)
  next
    case False
    have "bpf_Lookup K m key (delete_keys K (map fst pages) k1) = bpf_Lookup K m key k" using batch(1) by (intro undo) blast
    then show ?thesis using False fails bu by (cases err) (auto simp: update_pages_def Let_def)
  qed
qed

text \<open>
  C14: When \<open>UpdateStackDeltaPages\<close> fails, for whatever reason and after however many pages, none of the
  new pages remains in the map, and every other entry of every map is as before.
\<close>

theorem UpdateStackDeltaPages_rollback:
  assumes laws: "bpf_laws K"
    and run: "UpdateStackDeltaPages K fileID ns mapID addr impl = Ret (Some e, impl')"
    and new: "\<forall>(pk, pv) \<in> set (delta_pages fileID mapID addr 0 ns).
      bpf_Lookup K StackDeltaPageToInfo (KPage pk) (kern impl) = None"
  shows "bpf_Lookup K m key (kern impl') = bpf_Lookup K m key (kern impl)"
proof -
  obtain e' where fails: "update_pages K (delta_pages fileID mapID addr 0 ns) (kern impl) = (Some e', kern impl')"
    using run by (auto simp: UpdateStackDeltaPages_def on_map_def trackMapError_def
      split: if_split_asm option.split_asm prod.split_asm)
  show ?thesis by (rule update_pages_rollback [OF laws fails]) (use new in auto)
qed

text \<open>A kernel in which a batch runs out of space after \<open>cap\<close> elements.\<close>

definition ram_limited :: "nat \<Rightarrow> ram bpf" where
  "ram_limited cap = ram_bpf\<lparr>bpf_BatchUpdate := \<lambda>m keys vals k.
     ((int (min cap (length keys)), if length keys \<le> cap then None else Some E2BIG),
      fold (\<lambda>(key, v). ram_put m key (Some v)) (zip (take cap keys) (take cap vals)) k)\<rparr>"

lemma ram_limited_laws: "bpf_laws (ram_limited cap)"
proof -
  have "batch_update_law (ram_limited cap)"
    unfolding batch_update_law_def
    by (auto simp: ram_limited_def ram_bpf_def ram_batch_update_look take_zip intro!: exI [of _ "min cap (length _)"])
  moreover have eqs: "bpf_Lookup (ram_limited cap) = bpf_Lookup ram_bpf" "bpf_Update (ram_limited cap) = bpf_Update ram_bpf"
    "bpf_Delete (ram_limited cap) = bpf_Delete ram_bpf" "bpf_BatchDelete (ram_limited cap) = bpf_BatchDelete ram_bpf"
    "bpf_NewMap (ram_limited cap) = bpf_NewMap ram_bpf" "bpf_Clone (ram_limited cap) = bpf_Clone ram_bpf"
    "bpf_Close (ram_limited cap) = bpf_Close ram_bpf" "bpf_restoreRlimit (ram_limited cap) = bpf_restoreRlimit ram_bpf"
    "bpf_MaximizeMemlock (ram_limited cap) = bpf_MaximizeMemlock ram_bpf"
    by (simp_all add: ram_limited_def)
  moreover have "update_law (ram_limited cap) = update_law ram_bpf" "delete_law (ram_limited cap) = delete_law ram_bpf"
    "delete_result_law (ram_limited cap) = delete_result_law ram_bpf"
    "batch_delete_law (ram_limited cap) = batch_delete_law ram_bpf"
    "quiet_law (ram_limited cap) = quiet_law ram_bpf" "noexist_law (ram_limited cap) = noexist_law ram_bpf"
    unfolding update_law_def delete_law_def delete_result_law_def [abs_def] batch_delete_law_def quiet_law_def noexist_law_def eqs
    by (rule refl)+
  ultimately show ?thesis using ram_bpf_laws by (simp add: bpf_laws_def)
qed

definition example_handler :: "'k \<Rightarrow> 'k ebpfMapsImpl" where
  "example_handler k = \<lparr>kern = k, available = [UnwindInfoArray, StackDeltaPageToInfo, PidPageToMappingInfo],
     errCounter = [], hasLPMTrieBatchOperations = True, updateWorkers = newAsyncMapUpdaterPool 2\<rparr>"

theorem UpdateStackDeltaPages_rollback_witness:
  "\<exists>impl'. UpdateStackDeltaPages (ram_limited 1) 7 [3, 2] 8 0x10000 (example_handler ram_empty) =
       Ret (Some (BpfErr E2BIG), impl') \<and>
     bpf_Lookup (ram_limited 1) StackDeltaPageToInfo (KPage \<lparr>FileID = 7, Page = 0x10000\<rparr>) (kern impl') = None"
proof -
  let ?u = "UpdateStackDeltaPages (ram_limited 1) 7 [3, 2] 8 0x10000 (example_handler ram_empty)"
  have run: "\<exists>impl'. ?u = Ret (Some (BpfErr E2BIG), impl')"
    by (simp add: UpdateStackDeltaPages_def on_map_def example_handler_def update_pages_def ram_limited_def ram_bpf_def
      trackMapError_def)
  then obtain impl' where impl': "?u = Ret (Some (BpfErr E2BIG), impl')" by blast
  show ?thesis
    using impl' UpdateStackDeltaPages_rollback [OF ram_limited_laws impl',
      of StackDeltaPageToInfo "KPage \<lparr>FileID = 7, Page = 0x10000\<rparr>"]
    by (simp add: example_handler_def ram_limited_def ram_bpf_def)
qed

section \<open>Order of the asynchronous updates\<close>

text \<open>
  The pool as a transition system: a caller sends an update when the channel of its worker has room, a
  worker serves the head of its channel, the context is cancelled, a worker notices it and drains.
\<close>

inductive pool_step ::
  "'k bpf \<Rightarrow> asyncMapInMapUpdate list \<Rightarrow> 'k \<times> asyncMapUpdaterPool \<Rightarrow> 'k \<times> asyncMapUpdaterPool \<Rightarrow> bool" for K where
  send: "length (queue (workers p ! workerIdx p (up_FileID u))) < updatePoolQueueCap \<Longrightarrow> \<not> ctx_done p \<Longrightarrow>
    EnqueueUpdate (up_Outer u) (up_FileID u) (up_Inner u) p = Ret p' \<Longrightarrow> pool_step K [u] (k, p) (k, p')"
| serve: "i < length (workers p) \<Longrightarrow> \<not> draining (workers p ! i) \<Longrightarrow> queue (workers p ! i) = u # q \<Longrightarrow>
    pool_step K [] (k, p) (serve_update K u k, p\<lparr>workers := (workers p)[i := (workers p ! i)\<lparr>queue := q\<rparr>]\<rparr>)"
| cancel: "pool_step K [] (k, p) (k, p\<lparr>ctx_done := True\<rparr>)"
| leave: "i < length (workers p) \<Longrightarrow> ctx_done p \<Longrightarrow>
    pool_step K [] (k, p) (k, p\<lparr>workers := (workers p)[i := (workers p ! i)\<lparr>draining := True\<rparr>]\<rparr>)"
| drain: "i < length (workers p) \<Longrightarrow> draining (workers p ! i) \<Longrightarrow> queue (workers p ! i) = u # q \<Longrightarrow>
    pool_step K [] (k, p) (drain_update K u k, p\<lparr>workers := (workers p)[i := (workers p ! i)\<lparr>queue := q\<rparr>]\<rparr>)"

abbreviation pool_run ::
  "'k bpf \<Rightarrow> 'k \<times> asyncMapUpdaterPool \<Rightarrow> asyncMapInMapUpdate list \<Rightarrow> 'k \<times> asyncMapUpdaterPool \<Rightarrow> bool" where
  "pool_run K \<equiv> trace_run (pool_step K)"

text \<open>What the outer maps hold for one file ID, and what an update for that file ID does to it.\<close>

definition outer_view :: "'k bpf \<Rightarrow> u64 \<Rightarrow> 'k \<Rightarrow> u16 \<Rightarrow> bval option" where
  "outer_view K f k = (\<lambda>b. bpf_Lookup K (ExeIDToStackDeltas b) (K64 f) k)"

definition view_update :: "asyncMapInMapUpdate \<Rightarrow> (u16 \<Rightarrow> bval option) \<Rightarrow> u16 \<Rightarrow> bval option" where
  "view_update u v = (\<lambda>b. if up_Outer u = ExeIDToStackDeltas b
     then (case up_Inner u of None \<Rightarrow> None | Some inner \<Rightarrow> (case v b of None \<Rightarrow> Some (VMap inner) | Some x \<Rightarrow> Some x))
     else v b)"

definition outer_update :: "asyncMapInMapUpdate \<Rightarrow> bool" where
  "outer_update u \<longleftrightarrow> (\<exists>b. up_Outer u = ExeIDToStackDeltas b)"

lemma outer_view_serve:
  assumes "bpf_laws K" "outer_update u"
  shows "outer_view K f (serve_update K u k) =
    (if up_FileID u = f then view_update u (outer_view K f k) else outer_view K f k)"
  using assms(2)
  by (auto simp: outer_view_def view_update_def serve_update_def outer_update_def fun_eq_iff case_prod_beta
      Lookup_Delete [OF assms(1)] Lookup_Update [OF assms(1)] Lookup_quiet [OF assms(1)] Update_NoExist [OF assms(1)] Delete_result [OF assms(1)]
      split: option.split)

text \<open>
  While the context is not cancelled, the updates sent for a file ID are those served, in order, and
  those still in the channel of its worker; no other channel has an update for it.
\<close>

abbreviation (input) for_id :: "u64 \<Rightarrow> asyncMapInMapUpdate list \<Rightarrow> asyncMapInMapUpdate list" where
  "for_id f us \<equiv> filter (\<lambda>u. up_FileID u = f) us"

definition queues_inv :: "u64 \<Rightarrow> asyncMapInMapUpdate list \<Rightarrow> asyncUpdateWorker list \<Rightarrow> bool" where
  "queues_inv f us ws \<longleftrightarrow> (\<forall>i < length ws. set (queue (ws ! i)) \<subseteq> set us \<and>
     (i \<noteq> unat f mod length ws \<longrightarrow> for_id f (queue (ws ! i)) = []))"

definition pool_inv ::
  "'k bpf \<Rightarrow> u64 \<Rightarrow> 'k \<Rightarrow> asyncMapInMapUpdate list \<Rightarrow> 'k \<times> asyncMapUpdaterPool \<Rightarrow> bool" where
  "pool_inv K f k0 us s \<longleftrightarrow> workers (snd s) \<noteq> [] \<and> queues_inv f us (workers (snd s)) \<and>
     (\<not> ctx_done (snd s) \<longrightarrow> (\<forall>w \<in> set (workers (snd s)). \<not> draining w) \<and>
        (\<exists>served. for_id f us = served @ for_id f (queue (workers (snd s) ! workerIdx (snd s) f)) \<and>
           outer_view K f (fst s) = fold view_update served (outer_view K f k0)))"

lemma for_id_other: "queues_inv f us ws \<Longrightarrow> i < length ws \<Longrightarrow> i \<noteq> unat f mod length ws \<Longrightarrow>
    u \<in> set (queue (ws ! i)) \<Longrightarrow> up_FileID u \<noteq> f"
  by (auto simp: queues_inv_def filter_empty_conv)

lemma queues_inv_pop:
  "queues_inv f us ws \<Longrightarrow> queue (ws ! i) = u # q \<Longrightarrow> queues_inv f us (ws[i := (ws ! i)\<lparr>queue := q\<rparr>])"
  unfolding queues_inv_def
  by (cases "i < length ws") (auto simp: nth_list_update split: if_split_asm, force)

lemma pool_inv_send:
  assumes inv: "pool_inv K f k0 us (k, p)" and nd: "\<not> ctx_done p"
    and enq: "EnqueueUpdate (up_Outer u) (up_FileID u) (up_Inner u) p = Ret p'"
  shows "pool_inv K f k0 (us @ [u]) (k, p')"
proof -
  let ?i = "workerIdx p (up_FileID u)" and ?ws = "workers p"
  have ne: "?ws \<noteq> []" using inv by (simp add: pool_inv_def)
  have u: "\<lparr>up_Outer = up_Outer u, up_FileID = up_FileID u, up_Inner = up_Inner u\<rparr> = u" by simp
  have p': "p' = p\<lparr>workers := ?ws[?i := (?ws ! ?i)\<lparr>queue := queue (?ws ! ?i) @ [u]\<rparr>]\<rparr>"
    using enq ne nd by (simp add: EnqueueUpdate_def u Let_def)
  have i: "?i < length ?ws" using ne by (simp add: workerIdx_def)
  have q: "queues_inv f (us @ [u]) (workers p')"
    using inv i unfolding p' pool_inv_def queues_inv_def by (auto simp: nth_list_update workerIdx_def)
  have "\<forall>w \<in> set (workers p'). \<not> draining w"
    using inv nd i by (auto simp: p' pool_inv_def dest!: set_update_subset_insert [THEN subsetD])
  moreover have "for_id f (queue (workers p' ! workerIdx p' f)) =
      for_id f (queue (?ws ! workerIdx p f)) @ for_id f [u]"
  proof (cases "workerIdx p f = ?i")
    case True
    then show ?thesis using i by (simp add: p' workerIdx_def)
  next
    case False
    then have "up_FileID u \<noteq> f" by (auto simp: workerIdx_def)
    then show ?thesis using False by (simp add: p' workerIdx_def)
  qed
  ultimately show ?thesis
    using inv nd q ne by (auto simp: pool_inv_def p')
qed

lemma pool_inv_serve:
  assumes laws: "bpf_laws K" and inv: "pool_inv K f k0 us (k, p)" and outer: "\<forall>u \<in> set us. outer_update u"
    and i: "i < length (workers p)" and q: "queue (workers p ! i) = u # q"
  shows "pool_inv K f k0 us (serve_update K u k, p\<lparr>workers := (workers p)[i := (workers p ! i)\<lparr>queue := q\<rparr>]\<rparr>)"
proof -
  let ?ws = "workers p" and ?p = "p\<lparr>workers := (workers p)[i := (workers p ! i)\<lparr>queue := q\<rparr>]\<rparr>"
  have qinv: "queues_inv f us (workers ?p)" using inv queues_inv_pop [OF _ q] by (simp add: pool_inv_def)
  have "u \<in> set us" using inv i q by (auto simp: pool_inv_def queues_inv_def)
  then have view: "outer_view K f (serve_update K u k) =
      (if up_FileID u = f then view_update u (outer_view K f k) else outer_view K f k)"
    using outer_view_serve [OF laws] outer by blast
  have idx: "workerIdx ?p f = workerIdx p f" by (simp add: workerIdx_def)
  have "(\<forall>w \<in> set (workers ?p). \<not> draining w) \<and>
      (\<exists>served. for_id f us = served @ for_id f (queue (workers ?p ! workerIdx ?p f)) \<and>
        outer_view K f (serve_update K u k) = fold view_update served (outer_view K f k0))" if nd: "\<not> ctx_done p"
  proof
    obtain served where served: "for_id f us = served @ for_id f (queue (?ws ! workerIdx p f))"
      "outer_view K f k = fold view_update served (outer_view K f k0)"
      using inv nd by (auto simp: pool_inv_def)
    show "\<forall>w \<in> set (workers ?p). \<not> draining w"
      using inv nd i by (auto simp: pool_inv_def dest!: set_update_subset_insert [THEN subsetD])
    show "\<exists>served. for_id f us = served @ for_id f (queue (workers ?p ! workerIdx ?p f)) \<and>
        outer_view K f (serve_update K u k) = fold view_update served (outer_view K f k0)"
    proof (cases "up_FileID u = f")
      case True
      then have "i = workerIdx p f"
        using for_id_other [of f us ?ws i u] inv i q by (auto simp: pool_inv_def workerIdx_def)
      then show ?thesis
        using served view True i q unfolding idx by (intro exI [of _ "served @ [u]"]) simp
    next
      case False
      then show ?thesis
        using served view i q unfolding idx by (intro exI [of _ served]) (auto simp: nth_list_update)
    qed
  qed
  then show ?thesis using inv qinv by (simp add: pool_inv_def)
qed

lemma pool_inv_step:
  assumes "bpf_laws K" "pool_inv K f k0 us s" "pool_step K vs s s'" "\<forall>u \<in> set us. outer_update u"
  shows "pool_inv K f k0 (us @ vs) s'"
  using assms(3)
proof cases
  case (send p u p' k)
  then show ?thesis using pool_inv_send [of K f k0 us k p u p'] assms(2) by simp
next
  case (serve i p u q k)
  then show ?thesis using pool_inv_serve [OF assms(1)] assms(2,4) by simp
next
  case (cancel k p)
  then show ?thesis using assms(2) by (simp add: pool_inv_def)
next
  case (leave i p k)
  then show ?thesis
    using assms(2) by (auto simp: pool_inv_def queues_inv_def nth_list_update)
next
  case (drain i p u q k)
  then have "ctx_done p" using assms(2) by (auto simp: pool_inv_def)
  then show ?thesis using drain assms(2) queues_inv_pop by (auto simp: pool_inv_def)
qed

interpretation pool: trace_invariant "pool_step K"
    "\<lambda>us s. bpf_laws K \<and> (\<forall>u \<in> set us. outer_update u) \<longrightarrow> pool_inv K f k0 us s" for K f k0
proof unfold_locales
  fix us s vs s'
  assume inv: "bpf_laws K \<and> (\<forall>u \<in> set us. outer_update u) \<longrightarrow> pool_inv K f k0 us s" and s: "pool_step K vs s s'"
  show "bpf_laws K \<and> (\<forall>u \<in> set (us @ vs). outer_update u) \<longrightarrow> pool_inv K f k0 (us @ vs) s'"
    using inv pool_inv_step [OF _ _ s, of f k0 us] by simp
qed

lemma pool_inv_new: "0 < n \<Longrightarrow> pool_inv K f k0 [] (k0, newAsyncMapUpdaterPool n)"
  by (auto simp: pool_inv_def queues_inv_def newAsyncMapUpdaterPool_def workerIdx_def)

lemma fold_serve_view:
  assumes "bpf_laws K" "\<forall>u \<in> set us. outer_update u"
  shows "outer_view K f (fold (serve_update K) us k) = fold view_update (for_id f us) (outer_view K f k)"
  using assms(2)
proof (induction us arbitrary: k)
  case (Cons u us)
  then show ?case using outer_view_serve [OF assms(1), of u f k] by simp
qed simp


text \<open>An insertion, its removal and a new insertion of one file ID, and an insertion of another.\<close>

definition example_updates :: "asyncMapInMapUpdate list" where
  "example_updates =
     [\<lparr>up_Outer = ExeIDToStackDeltas 8, up_FileID = 6, up_Inner = Some (InnerMap 0)\<rparr>,
      \<lparr>up_Outer = ExeIDToStackDeltas 8, up_FileID = 6, up_Inner = None\<rparr>,
      \<lparr>up_Outer = ExeIDToStackDeltas 8, up_FileID = 6, up_Inner = Some (InnerMap 2)\<rparr>,
      \<lparr>up_Outer = ExeIDToStackDeltas 8, up_FileID = 9, up_Inner = Some (InnerMap 1)\<rparr>]"

lemma pool_run_send:
  "pool_run K s0 us (k, p) \<Longrightarrow> length (queue (workers p ! workerIdx p (up_FileID u))) < updatePoolQueueCap \<Longrightarrow>
   \<not> ctx_done p \<Longrightarrow> EnqueueUpdate (up_Outer u) (up_FileID u) (up_Inner u) p = Ret p' \<Longrightarrow>
   pool_run K s0 (us @ [u]) (k, p')"
  by (rule trace_run.extend, assumption, rule pool_step.send)

lemma pool_run_serve:
  "pool_run K s0 us (k, p) \<Longrightarrow> i < length (workers p) \<Longrightarrow> \<not> draining (workers p ! i) \<Longrightarrow>
   queue (workers p ! i) = u # q \<Longrightarrow>
   pool_run K s0 us (serve_update K u k, p\<lparr>workers := (workers p)[i := (workers p ! i)\<lparr>queue := q\<rparr>]\<rparr>)"
  by (rule trace_run_silent, assumption, rule pool_step.serve)

definition example_queues :: "asyncMapInMapUpdate list \<Rightarrow> asyncMapInMapUpdate list \<Rightarrow> asyncMapUpdaterPool" where
  "example_queues q0 q1 =
     \<lparr>workers = [\<lparr>queue = q0, draining = False\<rparr>, \<lparr>queue = q1, draining = False\<rparr>], ctx_done = False\<rparr>"

lemma example_idx: "workerIdx (example_queues q0 q1) 6 = 0" "workerIdx (example_queues q0 q1) 9 = 1"
  by (simp_all add: workerIdx_def example_queues_def numeral_2_eq_2 [symmetric] del: One_nat_def)

lemma example_enqueue:
  "EnqueueUpdate outer 6 inner (example_queues q0 q1) =
     Ret (example_queues (q0 @ [\<lparr>up_Outer = outer, up_FileID = 6, up_Inner = inner\<rparr>]) q1)"
  "EnqueueUpdate outer 9 inner (example_queues q0 q1) =
     Ret (example_queues q0 (q1 @ [\<lparr>up_Outer = outer, up_FileID = 9, up_Inner = inner\<rparr>]))"
  by (simp_all add: EnqueueUpdate_def example_idx Let_def) (simp_all add: example_queues_def)

lemma example_send:
  assumes "pool_run K s us (k, example_queues q0 q1)"
  shows "length q0 < 8 \<Longrightarrow> pool_run K s (us @ [\<lparr>up_Outer = outer, up_FileID = 6, up_Inner = inner\<rparr>])
      (k, example_queues (q0 @ [\<lparr>up_Outer = outer, up_FileID = 6, up_Inner = inner\<rparr>]) q1)"
    "length q1 < 8 \<Longrightarrow> pool_run K s (us @ [\<lparr>up_Outer = outer, up_FileID = 9, up_Inner = inner\<rparr>])
      (k, example_queues q0 (q1 @ [\<lparr>up_Outer = outer, up_FileID = 9, up_Inner = inner\<rparr>]))"
proof -
  show "length q0 < 8 \<Longrightarrow> pool_run K s (us @ [\<lparr>up_Outer = outer, up_FileID = 6, up_Inner = inner\<rparr>])
      (k, example_queues (q0 @ [\<lparr>up_Outer = outer, up_FileID = 6, up_Inner = inner\<rparr>]) q1)"
    by (rule pool_run_send [OF assms]) (simp_all add: example_idx example_enqueue, simp_all add: example_queues_def)
  show "length q1 < 8 \<Longrightarrow> pool_run K s (us @ [\<lparr>up_Outer = outer, up_FileID = 9, up_Inner = inner\<rparr>])
      (k, example_queues q0 (q1 @ [\<lparr>up_Outer = outer, up_FileID = 9, up_Inner = inner\<rparr>]))"
    by (rule pool_run_send [OF assms]) (simp_all add: example_idx example_enqueue, simp_all add: example_queues_def)
qed

lemma example_serve:
  "pool_run K s us (k, example_queues (u # q0) q1) \<Longrightarrow> pool_run K s us (serve_update K u k, example_queues q0 q1)"
  "pool_run K s us (k, example_queues q0 (u # q1)) \<Longrightarrow> pool_run K s us (serve_update K u k, example_queues q0 q1)"
  using pool_run_serve [of K s us k "example_queues (u # q0) q1" 0 u q0]
    pool_run_serve [of K s us k "example_queues q0 (u # q1)" 1 u q1]
  by (simp_all add: example_queues_def)

lemma example_sent:
  "pool_run K (k, newAsyncMapUpdaterPool 2) example_updates
     (k, example_queues (take 3 example_updates) (drop 3 example_updates))"
proof -
  have new: "newAsyncMapUpdaterPool 2 = example_queues [] []"
    by (simp add: newAsyncMapUpdaterPool_def example_queues_def numeral_2_eq_2)
  have "pool_run K (k, newAsyncMapUpdaterPool 2) [] (k, example_queues [] [])"
    unfolding new by (rule trace_run.start)
  from example_send(2) [OF example_send(1) [OF example_send(1) [OF example_send(1) [OF this]]]]
  show ?thesis by (simp add: example_updates_def)
qed


end
