(* ===== verification/ExecInfoProps.thy ===== *)
theory ExecInfoProps
  imports ExecInfo EbpfProps
begin

text \<open>
  Properties of the executable information manager: reference counting under any interleaving of its
  critical sections, the index of unwind information, what \<open>loadDeltas\<close> writes into the eBPF maps, and
  the behaviour of its error paths.
\<close>

section \<open>What the operations leave alone\<close>

text \<open>Loading and unloading deltas do not touch the tables of executables.\<close>

definition same_tables ::
  "('k, 'e, 'd, 'l) executableInfoManagerState \<Rightarrow> ('k, 'e, 'd, 'l) executableInfoManagerState \<Rightarrow> bool" where
  "same_tables st st' \<longleftrightarrow> executables st' = executables st \<and> unusedExecutables st' = unusedExecutables st \<and>
     interpreterLoaders st' = interpreterLoaders st"

lemma same_tables_refl [simp]: "same_tables st st"
  by (simp add: same_tables_def)

lemma same_tables_trans [trans]: "same_tables a b \<Longrightarrow> same_tables b c \<Longrightarrow> same_tables a c"
  by (simp add: same_tables_def)

lemma getUnwindInfoIndex_tables: "getUnwindInfoIndex K info st = Ret (r, st') \<Longrightarrow> same_tables st st'"
  by (auto simp: getUnwindInfoIndex_def Let_def run_elims same_tables_def simp del: run_bind_eq_Ret)

lemma addDelta_tables: "addDelta K fp addr info ld = Ret (r, ld') \<Longrightarrow> same_tables (ld_state ld) (ld_state ld')"
  by (auto simp: addDelta_def Let_def run_elims simp del: run_bind_eq_Ret
      dest!: getUnwindInfoIndex_tables)

lemma load_block_tables:
  "load_block K fp start ui ds ld = Ret (r, ui', ld') \<Longrightarrow> same_tables (ld_state ld) (ld_state ld')"
proof (induction ds arbitrary: ui ld)
  case (Cons d ds)
  then show ?case
    by (auto simp: run_elims simp del: run_bind_eq_Ret
        dest!: addDelta_tables intro: same_tables_trans)
qed simp

lemma load_blocks_tables:
  "load_blocks K fp ui bs ld = Ret (r, ld') \<Longrightarrow> same_tables (ld_state ld) (ld_state ld')"
proof (induction bs arbitrary: ui ld)
  case (Cons b bs)
  then show ?case
    by (auto simp: run_elims simp del: run_bind_eq_Ret
        dest!: addDelta_tables load_block_tables intro: same_tables_trans)
qed simp

lemma load_maps_tables: "load_maps K f a n ld = Ret (r, st') \<Longrightarrow> same_tables (ld_state ld) st'"
  by (auto simp: load_maps_def Let_def run_elims same_tables_def simp del: run_bind_eq_Ret)

lemma loadDeltas_tables: "loadDeltas K f iv st = Ret (r, st') \<Longrightarrow> same_tables st st'"
  by (auto simp: loadDeltas_def Let_def run_elims simp del: run_bind_eq_Ret
      dest!: load_blocks_tables load_maps_tables intro: same_tables_trans)

lemma unloadDeltas_tables: "unloadDeltas K f ref st = Ret (r, st') \<Longrightarrow> same_tables st st'"
  by (auto simp: unloadDeltas_def run_elims same_tables_def simp del: run_bind_eq_Ret)

lemma detect_tables: "detectAndLoadInterpData li st = (d, st') \<Longrightarrow> same_tables st st'"
  by (auto simp: detectAndLoadInterpData_def same_tables_def split: prod.split_asm)

section \<open>Reference counting\<close>

text \<open>
  The critical sections of the manager as steps; a step is labelled with the reference a caller obtained
  (\<open>Ref\<close>) or gave back (\<open>Unref\<close>).  Between its first and its last section \<open>AddOrIncRef\<close> holds no lock,
  so steps of other callers may come in between.
\<close>

datatype ref_event = Ref u64 | Unref u64

inductive eim_step ::
  "'k bpf \<Rightarrow> 'c fileID_lru \<Rightarrow> ('d \<Rightarrow> 'k ebpfMapsImpl \<Rightarrow> 'k ebpfMapsImpl) \<Rightarrow> ref_event list \<Rightarrow>
     ('c, 'k, 'e, 'd, 'l) ExecutableInfoManager \<Rightarrow> ('c, 'k, 'e, 'd, 'l) ExecutableInfoManager \<Rightarrow> bool"
  for K L unload where
  add_known: "AddOrIncRef_fast L f m = (Some (Inr info), m') \<Longrightarrow> eim_step K L unload [Ref f] m m'"
| add_unknown: "AddOrIncRef_fast L f m = (None, m') \<Longrightarrow> eim_step K L unload [] m m'"
| add_refused: "AddOrIncRef_fast L f m = (Some (Inl err), m') \<Longrightarrow> eim_step K L unload [] m m'"
| add_deferred: "eim_step K L unload [] m (m\<lparr>deferredFileIDs := fl_Add L (deferredFileIDs m) f\<rparr>)"
| add_insert: "AddOrIncRef_insert K L f e iv libc m = Ret (Inr info, m') \<Longrightarrow> eim_step K L unload [Ref f] m m'"
| add_failed: "AddOrIncRef_insert K L f e iv libc m = Ret (Inl err, m') \<Longrightarrow> eim_step K L unload [] m m'"
| dec_ref: "DecRef now f m = (None, m') \<Longrightarrow> eim_step K L unload [Unref f] m m'"
| dec_failed: "DecRef now f m = (Some err, m') \<Longrightarrow> eim_step K L unload [] m m'"
| cleanup: "CleanupUnused K unload now age order m = Ret (r, m') \<Longrightarrow> eim_step K L unload [] m m'"

abbreviation eim_run ::
  "'k bpf \<Rightarrow> 'c fileID_lru \<Rightarrow> ('d \<Rightarrow> 'k ebpfMapsImpl \<Rightarrow> 'k ebpfMapsImpl) \<Rightarrow>
     ('c, 'k, 'e, 'd, 'l) ExecutableInfoManager \<Rightarrow> ref_event list \<Rightarrow> ('c, 'k, 'e, 'd, 'l) ExecutableInfoManager \<Rightarrow> bool" where
  "eim_run K L unload \<equiv> trace_run (eim_step K L unload)"

definition rc_of :: "('k, 'e, 'd, 'l) executableInfoManagerState \<Rightarrow> u64 \<Rightarrow> nat" where
  "rc_of st f = (case executables st f of None \<Rightarrow> 0 | Some e \<Rightarrow> unat (rc e))"

text \<open>The unused table lists exactly the executables without references.\<close>

definition unused_inv :: "('k, 'e, 'd, 'l) executableInfoManagerState \<Rightarrow> bool" where
  "unused_inv st \<longleftrightarrow>
     (\<forall>f. unusedExecutables st f = None \<longleftrightarrow> (case executables st f of None \<Rightarrow> True | Some e \<Rightarrow> rc e \<noteq> 0))"

definition counts_refs :: "ref_event list \<Rightarrow> ('k, 'e, 'd, 'l) executableInfoManagerState \<Rightarrow> bool" where
  "counts_refs es st \<longleftrightarrow> (\<forall>f. rc_of st f + count_list es (Unref f) = count_list es (Ref f))"

lemma same_tables_inv:
  "same_tables st st' \<Longrightarrow> unused_inv st' = unused_inv st" "same_tables st st' \<Longrightarrow> rc_of st' = rc_of st"
  by (auto simp: same_tables_def unused_inv_def rc_of_def)

lemma inc_ref_inv:
  assumes "executables st f = Some e" "unused_inv st" "unat (rc e) + 1 < 2 ^ 64"
  shows "unused_inv (inc_ref f e st)" "rc_of (inc_ref f e st) = (rc_of st)(f := rc_of st f + 1)"
proof -
  have u: "unat (rc e + 1) = unat (rc e) + 1" using assms(3) by (simp add: unat_word_ariths)
  then have "rc e + 1 \<noteq> 0" "rc e + 1 = 1 \<longleftrightarrow> rc e = 0" by auto
  then show "unused_inv (inc_ref f e st)"
    using assms(1,2) by (auto simp: unused_inv_def inc_ref_def Let_def)
  show "rc_of (inc_ref f e st) = (rc_of st)(f := rc_of st f + 1)"
    using assms(1) u by (auto simp: rc_of_def inc_ref_def Let_def fun_eq_iff)
qed

lemma DecRef_inv:
  assumes "DecRef now f m = (r, m')" "unused_inv (state m)"
  shows "unused_inv (state m') \<and>
    rc_of (state m') = (if r = None then (rc_of (state m))(f := rc_of (state m) f - 1) else rc_of (state m)) \<and>
    (r = None \<longrightarrow> 0 < rc_of (state m) f)"
proof (cases "executables (state m) f")
  case None
  then show ?thesis using assms by (auto simp: DecRef_def)
next
  case (Some e)
  show ?thesis
  proof (cases "rc e = 0")
    case True
    then show ?thesis using assms Some by (auto simp: DecRef_def)
  next
    case False
    then have "unat (rc e - 1) = unat (rc e) - 1" "0 < unat (rc e)" by (simp_all add: unat_minus_one unat_gt_0)
    then show ?thesis
      using assms Some False
      by (cases "rc e = 1") (auto simp: DecRef_def Let_def unused_inv_def rc_of_def fun_eq_iff split: if_split_asm)
  qed
qed

lemma cleanup_inv:
  "cleanup_loop K unload cutoff order st = Ret (r, st') \<Longrightarrow> unused_inv st \<Longrightarrow>
   unused_inv st' \<and> rc_of st' = rc_of st"
proof (induction order arbitrary: st)
  case (Cons f order)
  show ?case
  proof (cases "unusedExecutables st f")
    case None
    then show ?thesis using Cons by simp
  next
    case (Some t)
    then obtain e where e: "executables st f = Some e" "rc e = 0"
      using Cons.prems(2) by (auto simp: unused_inv_def split: option.split_asm dest!: spec [of _ f])
    show ?thesis
    proof (cases "t > cutoff")
      case True
      then show ?thesis using Cons Some by simp
    next
      case False
      consider x where "unloadDeltas K f (mapRef e) st = Ret (Some x, st')"
        | st1 where "unloadDeltas K f (mapRef e) st = Ret (None, st1)"
          "cleanup_loop K unload cutoff order (st1\<lparr>ebpf := (case ei_Data (ExecutableInfo e) of None \<Rightarrow> ebpf st1
             | Some d \<Rightarrow> Unload unload d (ebpf st1)),
            executables := (executables st1)(f := None),
            unusedExecutables := (unusedExecutables st1)(f := None)\<rparr>) = Ret (r, st')"
        using Cons.prems(1) Some False e by (auto simp: Let_def run_elims simp del: run_bind_eq_Ret)
      then show ?thesis
      proof cases
        case 1
        then show ?thesis using Cons.prems(2) same_tables_inv [OF unloadDeltas_tables] by blast
      next
        case 2
        have "same_tables st st1" by (rule unloadDeltas_tables [OF 2(1)])
        then show ?thesis
          using Cons.IH [OF 2(2)] Cons.prems(2) e by (auto simp: same_tables_def unused_inv_def rc_of_def fun_eq_iff)
      qed
    qed
  qed
qed simp

lemma AddOrIncRef_fast_inv:
  assumes "AddOrIncRef_fast L f m = (r, m')" "unused_inv (state m)" "rc_of (state m) f + 1 < 2 ^ 64"
  shows "unused_inv (state m') \<and>
    rc_of (state m') = (case r of Some (Inr _) \<Rightarrow> (rc_of (state m))(f := rc_of (state m) f + 1) | _ \<Rightarrow> rc_of (state m))"
proof (cases "executables (state m) f")
  case None
  then show ?thesis using assms(1,2) by (auto simp: AddOrIncRef_fast_def Let_def split: prod.split_asm if_split_asm)
next
  case (Some e)
  then have "unat (rc e) + 1 < 2 ^ 64" using assms(3) by (simp add: rc_of_def)
  then show ?thesis
    using assms(1,2) Some inc_ref_inv [OF Some assms(2)]
    by (auto simp: AddOrIncRef_fast_def Let_def split: prod.split_asm if_split_asm)
qed

lemma AddOrIncRef_insert_inv:
  assumes "AddOrIncRef_insert K L f el iv libc m = Ret (r, m')" "unused_inv (state m)" "rc_of (state m) f + 1 < 2 ^ 64"
  shows "unused_inv (state m') \<and>
    rc_of (state m') = (case r of Inr _ \<Rightarrow> (rc_of (state m))(f := rc_of (state m) f + 1) | Inl _ \<Rightarrow> rc_of (state m))"
proof (cases "executables (state m) f")
  case (Some e)
  then have "unat (rc e) + 1 < 2 ^ 64" using assms(3) by (simp add: rc_of_def)
  then show ?thesis
    using assms(1,2) Some inc_ref_inv [OF Some assms(2)] by (auto simp: AddOrIncRef_insert_def)
next
  case None
  obtain res st1 where load: "loadDeltas K f iv (state m) = Ret (res, st1)"
    using assms(1) None by (auto simp: AddOrIncRef_insert_def)
  note t1 = loadDeltas_tables [OF load]
  show ?thesis
  proof (cases res)
    case (Inl x)
    then show ?thesis
      using assms(1,2) None load same_tables_inv [OF t1] by (auto simp: AddOrIncRef_insert_def)
  next
    case (Inr ref)
    obtain d st2 where det: "detectAndLoadInterpData (f, el, iv) st1 = (d, st2)" by (metis prod.exhaust)
    have t2: "same_tables (state m) st2" using t1 detect_tables [OF det] by (rule same_tables_trans)
    then have "unusedExecutables st2 f = None" using None assms(2) by (simp add: same_tables_def unused_inv_def)
    then show ?thesis
      using assms(1,2) None load Inr det t2
      by (auto simp: AddOrIncRef_insert_def same_tables_def unused_inv_def rc_of_def fun_eq_iff split: if_split_asm)
  qed
qed

lemma eim_step_inv:
  assumes "eim_step K L unload es' m m'" "unused_inv (state m)" "counts_refs es (state m)" "length es + 1 < 2 ^ 64"
  shows "unused_inv (state m') \<and> counts_refs (es @ es') (state m')"
proof -
  have bound: "rc_of (state m) f + 1 < 2 ^ 64" for f
  proof -
    have "rc_of (state m) f + count_list es (Unref f) = count_list es (Ref f)" using assms(3) by (simp add: counts_refs_def)
    then show ?thesis using assms(4) count_le_length [of es "Ref f"] by linarith
  qed
  show ?thesis
    using assms(1)
  proof cases
    case (dec_ref now f)
    have "count_list es (Unref f) < count_list es (Ref f)"
      using DecRef_inv [OF dec_ref(2) assms(2)] assms(3) unfolding counts_refs_def by (metis add_less_same_cancel2 less_add_same_cancel2)
    then show ?thesis using dec_ref(1) DecRef_inv [OF dec_ref(2) assms(2)] assms(3) by (auto simp: counts_refs_def)
  next
    case (dec_failed now f err)
    then show ?thesis using DecRef_inv [OF dec_failed(2) assms(2)] assms(3) by (auto simp: counts_refs_def)
  next
    case (cleanup now age order r)
    then show ?thesis using cleanup_inv [OF _ assms(2)] assms(3) by (auto simp: CleanupUnused_def counts_refs_def)
  next
    case (add_known f info)
    then show ?thesis using AddOrIncRef_fast_inv [OF add_known(2) assms(2) bound] assms(3) by (auto simp: counts_refs_def)
  next
    case (add_unknown f)
    then show ?thesis using AddOrIncRef_fast_inv [OF add_unknown(2) assms(2) bound] assms(3) by (auto simp: counts_refs_def)
  next
    case (add_refused f err)
    then show ?thesis using AddOrIncRef_fast_inv [OF add_refused(2) assms(2) bound] assms(3) by (auto simp: counts_refs_def)
  next
    case (add_insert f e iv libc info)
    then show ?thesis using AddOrIncRef_insert_inv [OF add_insert(2) assms(2) bound] assms(3) by (auto simp: counts_refs_def)
  next
    case (add_failed f e iv libc err)
    then show ?thesis using AddOrIncRef_insert_inv [OF add_failed(2) assms(2) bound] assms(3) by (auto simp: counts_refs_def)
  next
    case (add_deferred f)
    then show ?thesis using assms(2,3) by simp
  qed
qed

interpretation eim: trace_invariant "eim_step K L unload"
    "\<lambda>es m. length es + 1 < 2 ^ 64 \<longrightarrow> unused_inv (state m) \<and> counts_refs es (state m)" for K L unload
proof unfold_locales
  fix es m es' m'
  assume inv: "length es + 1 < 2 ^ 64 \<longrightarrow> unused_inv (state m) \<and> counts_refs es (state m)" and s: "eim_step K L unload es' m m'"
  show "length (es @ es') + 1 < 2 ^ 64 \<longrightarrow> unused_inv (state m') \<and> counts_refs (es @ es') (state m')"
  proof
    assume "length (es @ es') + 1 < 2 ^ 64"
    then have "length es + 1 < 2 ^ 64" by simp
    then show "unused_inv (state m') \<and> counts_refs (es @ es') (state m')" using inv eim_step_inv [OF s, of es] by simp
  qed
qed

lemma eim_inv_new:
  "unused_inv (state (NewExecutableInfoManager loaders eb cache)) \<and> counts_refs [] (state (NewExecutableInfoManager loaders eb cache))"
  by (simp add: NewExecutableInfoManager_def unused_inv_def counts_refs_def rc_of_def)

text \<open>
  C2: Under any interleaving of callers, the reference count of every executable is the number of
  references handed out less the number given back, the executables queued for removal are exactly the
  known ones without references, and giving back a reference that is held succeeds.
\<close>

theorem references_counted:
  assumes "eim_run K L unload (NewExecutableInfoManager loaders eb cache) es m" "length es + 1 < 2 ^ 64"
  shows "rc_of (state m) f + count_list es (Unref f) = count_list es (Ref f) \<and>
    (unusedExecutables (state m) f \<noteq> None \<longleftrightarrow> (\<exists>e. executables (state m) f = Some e \<and> rc e = 0)) \<and>
    (count_list es (Unref f) < count_list es (Ref f) \<longleftrightarrow> fst (DecRef now f m) = None)"
proof -
  have "length es + 1 < 2 ^ 64 \<longrightarrow> unused_inv (state m) \<and> counts_refs es (state m)"
    by (rule eim.run_inv [OF assms(1)]) (intro impI eim_inv_new)
  then have inv: "unused_inv (state m)" "counts_refs es (state m)" using assms(2) by simp_all
  have rc: "rc_of (state m) f + count_list es (Unref f) = count_list es (Ref f)"
    using inv(2) by (simp add: counts_refs_def)
  have "fst (DecRef now f m) = None \<longleftrightarrow> 0 < rc_of (state m) f"
    by (simp add: DecRef_def rc_of_def Let_def unat_gt_0 split: option.split)
  then have "count_list es (Unref f) < count_list es (Ref f) \<longleftrightarrow> fst (DecRef now f m) = None" using rc by linarith
  moreover have "unusedExecutables (state m) f \<noteq> None \<longleftrightarrow> (\<exists>e. executables (state m) f = Some e \<and> rc e = 0)"
    using inv(1) by (auto simp: unused_inv_def split: option.split)
  ultimately show ?thesis using rc by blast
qed

text \<open>A cache of deferred file IDs that never forgets, and a manager of executables without deltas.\<close>

definition list_lru :: "u64 list fileID_lru" where
  "list_lru = \<lparr>fl_Get = \<lambda>c f. (f \<in> set c, c), fl_Add = \<lambda>c f. f # c\<rparr>"

definition example_manager :: "'k \<Rightarrow> (u64 list, 'k, unit, unit, unit) ExecutableInfoManager" where
  "example_manager k = NewExecutableInfoManager [] (example_handler k) []"

theorem references_counted_witness:
  "\<exists>m. eim_run ram_bpf list_lru (\<lambda>d eb. eb) (example_manager ram_empty) [Ref 5, Ref 5, Unref 5] m \<and> rc_of (state m) 5 = 1"
proof -
  let ?m0 = "example_manager ram_empty" and ?iv = "\<lparr>NumDeltas = 0, Blocks = []\<rparr>" and ?un = "\<lambda>d eb. eb"
  obtain i1 m1 where s1: "AddOrIncRef_insert ram_bpf list_lru 5 () ?iv None ?m0 = Ret (Inr i1, m1)"
    and e1: "executables (state m1) 5 = Some \<lparr>ExecutableInfo = i1, mapRef = \<lparr>StartPage = 0, NumPages = 0, ref_MapID = 0\<rparr>, rc = 1\<rparr>"
      "deferredFileIDs m1 = []"
    by (simp add: AddOrIncRef_insert_def example_manager_def NewExecutableInfoManager_def loadDeltas_def
      detectAndLoadInterpData_def)
  obtain i2 m2 where s2: "AddOrIncRef_fast list_lru 5 m1 = (Some (Inr i2), m2)"
    and e2: "\<exists>e. executables (state m2) 5 = Some e \<and> rc e = 2"
    using e1 by (simp add: AddOrIncRef_fast_def list_lru_def inc_ref_def)
  obtain m3 where s3: "DecRef 0 5 m2 = (None, m3)" using e2 by (auto simp: DecRef_def Let_def)
  note ext = trace_run.extend [where stp = "eim_step ram_bpf list_lru ?un" and ?s0.0 = ?m0]
  have run: "eim_run ram_bpf list_lru ?un ?m0 ((([] @ [Ref 5]) @ [Ref 5]) @ [Unref 5]) m3"
    by (rule ext [OF ext [OF ext [OF trace_run.start eim_step.add_insert [OF s1]] eim_step.add_known [OF s2]]
      eim_step.dec_ref [OF s3]])
  then have "rc_of (state m3) 5 = 1"
    using references_counted [OF run [unfolded example_manager_def], of 5 0] by simp
  then show ?thesis using run by auto
qed

section \<open>The index of unwind information\<close>

text \<open>The index a delta is stored with, given the table of indices.\<close>

definition enc :: "(UnwindInfo \<times> u16) list \<Rightarrow> UnwindInfo \<Rightarrow> u16" where
  "enc m info = (if Flags info AND UnwindFlagCommand \<noteq> 0 then ucast (Param info) OR DeltaCommandFlag else the (map_of m info))"

text \<open>Every indexed rule is in the kernel's array at its index, and no two rules share an index.\<close>

definition index_ok :: "'k bpf \<Rightarrow> ('k, 'e, 'd, 'l) executableInfoManagerState \<Rightarrow> bool" where
  "index_ok K st \<longleftrightarrow> length (unwindInfoIndex st) \<le> 0x4000 \<and>
     (\<forall>info i. map_of (unwindInfoIndex st) info = Some i \<longrightarrow>
        Flags info AND UnwindFlagCommand = 0 \<and> unat i < length (unwindInfoIndex st) \<and>
        bpf_Lookup K UnwindInfoArray (K32 (ucast i)) (kern (ebpf st)) = Some (VUnwind info)) \<and>
     inj_on (map_of (unwindInfoIndex st)) (dom (map_of (unwindInfoIndex st)))"

text \<open>The other maps and the workers are untouched, and indices once given stay.\<close>

definition index_grows ::
  "'k bpf \<Rightarrow> ('k, 'e, 'd, 'l) executableInfoManagerState \<Rightarrow> ('k, 'e, 'd, 'l) executableInfoManagerState \<Rightarrow> bool" where
  "index_grows K st st' \<longleftrightarrow> map_of (unwindInfoIndex st) \<subseteq>\<^sub>m map_of (unwindInfoIndex st') \<and>
     available (ebpf st') = available (ebpf st) \<and> updateWorkers (ebpf st') = updateWorkers (ebpf st) \<and>
     (\<forall>m key. m \<noteq> UnwindInfoArray \<longrightarrow> bpf_Lookup K m key (kern (ebpf st')) = bpf_Lookup K m key (kern (ebpf st)))"

lemma index_grows_refl [simp]: "index_grows K st st"
  by (simp add: index_grows_def)

lemma index_grows_trans [trans]: "index_grows K a b \<Longrightarrow> index_grows K b c \<Longrightarrow> index_grows K a c"
  by (auto simp: index_grows_def intro: map_le_trans)

text \<open>The kernel's array has the size that \<open>types.h\<close> declares.\<close>

abbreviation array_size :: "'k bpf \<Rightarrow> bool" where
  "array_size K \<equiv> bpf_MaxEntries K UnwindInfoArray = 0x4000"

lemma u16_of_nat: "i < 65536 \<Longrightarrow> unat (of_nat i :: u16) = i"
  by (simp add: unat_of_nat take_bit_nat_eq_self)

lemma unat_ucast_u16: "unat (ucast (x :: u16) :: u32) = unat x"
proof -
  have "unat x < 2 ^ 16" using unsigned_less [of x] by simp
  then have "unat x < 2 ^ 32" by simp
  then show ?thesis by (simp add: unsigned_ucast_eq take_bit_nat_eq_self)
qed

lemma ucast_u16_eq: "(ucast (x :: u16) :: u32) = ucast (y :: u16) \<longleftrightarrow> x = y"
  by (simp only: word_unat_eq_iff unat_ucast_u16)

lemma inj_on_map_upd: "inj_on m (dom m) \<Longrightarrow> v \<notin> ran m \<Longrightarrow> inj_on (m(k \<mapsto> v)) (dom (m(k \<mapsto> v)))"
  by (auto simp: inj_on_def ran_def)

lemma UpdateUnwindInfo_success:
  assumes "bpf_laws K" "array_size K" "UpdateUnwindInfo K index info eb = Ret (None, eb')"
  shows "unat index < 0x4000" "available eb' = available eb" "updateWorkers eb' = updateWorkers eb"
    "bpf_Lookup K m key (kern eb') =
      (if m = UnwindInfoArray \<and> key = K32 (ucast index) then Some (VUnwind info) else bpf_Lookup K m key (kern eb))"
proof -
  have lt: "\<not> (0x4000 :: u32) \<le> ucast index" and "UnwindInfoArray \<in> set (available eb)"
    and res: "bpf_Update K UnwindInfoArray (K32 (ucast index)) (VUnwind info) UpdateAny (kern eb) = (None, kern eb')"
    and eb': "eb' = eb\<lparr>kern := kern eb'\<rparr>"
    using assms(2,3)
    by (auto simp: UpdateUnwindInfo_def on_map_def trackMapError_def split: if_split_asm prod.split_asm option.split_asm)
  show "unat index < 0x4000" using lt by (simp add: word_le_nat_alt unat_ucast_u16)
  show "available eb' = available eb" "updateWorkers eb' = updateWorkers eb"
    by (subst eb', simp)+
  show "bpf_Lookup K m key (kern eb') =
      (if m = UnwindInfoArray \<and> key = K32 (ucast index) then Some (VUnwind info) else bpf_Lookup K m key (kern eb))"
    using Lookup_Update [OF assms(1), of UnwindInfoArray m key "K32 (ucast index)" "VUnwind info" UpdateAny "kern eb"] res
    by simp
qed

lemma getUnwindInfoIndex_ok:
  assumes laws: "bpf_laws K" and size: "array_size K" and ok: "index_ok K st"
    and run: "getUnwindInfoIndex K info st = Ret (Inr x, st')"
  shows "index_ok K st' \<and> index_grows K st st' \<and> x = enc (unwindInfoIndex st') info \<and>
    (Flags info AND UnwindFlagCommand = 0 \<longrightarrow> map_of (unwindInfoIndex st') info = Some x)"
proof (cases "Flags info AND UnwindFlagCommand \<noteq> 0 \<or> map_of (unwindInfoIndex st) info \<noteq> None")
  case True
  then show ?thesis using run ok by (auto simp: getUnwindInfoIndex_def enc_def split: if_split_asm)
next
  case False
  let ?m = "unwindInfoIndex st" and ?n = "length (unwindInfoIndex st)"
  obtain eb where up: "UpdateUnwindInfo K (of_nat ?n) info (ebpf st) = Ret (None, eb)"
    and x: "x = of_nat ?n" and st': "st' = st\<lparr>ebpf := eb, unwindInfoIndex := (info, of_nat ?n) # ?m\<rparr>"
    using run False by (auto simp: getUnwindInfoIndex_def Let_def run_elims simp del: run_bind_eq_Ret)
  have n: "?n \<le> 0x4000" using ok by (simp add: index_ok_def)
  then have un: "unat (of_nat ?n :: u16) = ?n" by (intro u16_of_nat) simp
  note s = UpdateUnwindInfo_success [OF laws size up]
  have old: "unat i < ?n" "i \<noteq> of_nat ?n" if "map_of ?m info' = Some i" for info' i
  proof -
    show lt: "unat i < ?n" using that ok by (simp add: index_ok_def)
    show "i \<noteq> of_nat ?n" using lt un by auto
  qed
  have "inj_on ((map_of ?m)(info \<mapsto> of_nat ?n)) (dom ((map_of ?m)(info \<mapsto> of_nat ?n)))"
    using ok old by (intro inj_on_map_upd) (auto simp: index_ok_def ran_def)
  moreover have "Suc ?n \<le> 0x4000" using s(1) un by simp
  moreover have "Flags info' AND UnwindFlagCommand = 0 \<and> unat i < Suc ?n \<and>
      bpf_Lookup K UnwindInfoArray (K32 (ucast i)) (kern eb) = Some (VUnwind info')"
    if "((map_of ?m)(info \<mapsto> of_nat ?n)) info' = Some i" for info' i
  proof (cases "info' = info")
    case True
    then show ?thesis using that False un by (auto simp: s(4))
  next
    case other: False
    then have i: "map_of ?m info' = Some i" using that by simp
    have "Flags info' AND UnwindFlagCommand = 0"
      "bpf_Lookup K UnwindInfoArray (K32 (ucast i)) (kern (ebpf st)) = Some (VUnwind info')"
      using ok i by (simp_all add: index_ok_def)
    then show ?thesis using old [OF i] by (simp add: s(4) ucast_u16_eq)
  qed
  ultimately have "index_ok K st'" by (simp add: st' index_ok_def)
  moreover have "index_grows K st st'"
    using False s by (auto simp: st' index_grows_def map_le_def)
  ultimately show ?thesis using False x by (simp add: st' enc_def)
qed

section \<open>The entries \<open>loadDeltas\<close> builds\<close>

text \<open>The calls of \<open>addDelta\<close> for a block, with the variable \<open>unwindInfo\<close>, and for all blocks.\<close>

fun block_calls :: "u64 \<Rightarrow> UnwindInfo \<Rightarrow> StackDelta list \<Rightarrow> (u64 \<times> UnwindInfo) list" where
  "block_calls start ui [] = []"
| "block_calls start ui (d # ds) =
     (if MergeOpcode ui \<noteq> 0 then block_calls start (ui\<lparr>MergeOpcode := 0\<rparr>) ds
      else (delta_addr start d, delta_info d ds) # block_calls start (delta_info d ds) ds)"

fun block_info :: "UnwindInfo \<Rightarrow> StackDelta list \<Rightarrow> UnwindInfo" where
  "block_info ui [] = ui"
| "block_info ui (d # ds) =
     (if MergeOpcode ui \<noteq> 0 then block_info (ui\<lparr>MergeOpcode := 0\<rparr>) ds else block_info (delta_info d ds) ds)"

definition end_calls :: "BasicBlock \<Rightarrow> BasicBlock list \<Rightarrow> (u64 \<times> UnwindInfo) list" where
  "end_calls b bs = (if bs = [] \<or> End b + MinimumGap < Start (hd bs) then [(End b, UnwindInfoInvalid)] else [])"

fun blocks_calls :: "UnwindInfo \<Rightarrow> BasicBlock list \<Rightarrow> (u64 \<times> UnwindInfo) list" where
  "blocks_calls ui [] = []"
| "blocks_calls ui (b # bs) =
     block_calls (Start b) ui (Deltas b) @ end_calls b bs @ blocks_calls (block_info ui (Deltas b)) bs"

fun addDeltas ::
  "'k bpf \<Rightarrow> u64 \<Rightarrow> (u64 \<times> UnwindInfo) list \<Rightarrow> ('k, 'e, 'd, 'l) loading \<Rightarrow>
     (handler_error option \<times> ('k, 'e, 'd, 'l) loading) run" where
  "addDeltas K firstPage [] ld = Ret (None, ld)"
| "addDeltas K firstPage ((addr, info) # cs) ld =
     run_bind (addDelta K firstPage addr info ld)
       (\<lambda>(err, ld). case err of Some e \<Rightarrow> Ret (Some e, ld) | None \<Rightarrow> addDeltas K firstPage cs ld)"

lemma addDeltas_append:
  "addDeltas K fp (cs @ cs') ld = Ret (None, ld') \<longleftrightarrow>
     (\<exists>ld1. addDeltas K fp cs ld = Ret (None, ld1) \<and> addDeltas K fp cs' ld1 = Ret (None, ld'))"
proof (induction cs arbitrary: ld)
  case (Cons c cs)
  show ?case
    by (cases c) (auto simp: run_elims Cons.IH simp del: run_bind_eq_Ret)
qed simp

lemma load_block_calls:
  "load_block K fp start ui ds ld = Ret (None, ui', ld') \<longleftrightarrow>
     ui' = block_info ui ds \<and> addDeltas K fp (block_calls start ui ds) ld = Ret (None, ld')"
proof (induction ds arbitrary: ui ld)
  case (Cons d ds)
  show ?case by (auto simp: run_elims Cons.IH simp del: run_bind_eq_Ret)
qed auto

lemma load_blocks_calls:
  "load_blocks K fp ui bs ld = Ret (None, ld') \<longleftrightarrow> addDeltas K fp (blocks_calls ui bs) ld = Ret (None, ld')"
proof (induction bs arbitrary: ui ld)
  case (Cons b bs)
  show ?case
    by (auto simp: run_elims Cons.IH load_block_calls addDeltas_append end_calls_def simp del: run_bind_eq_Ret)
qed simp

text \<open>An entry is added unless it repeats the index of the last one.\<close>

definition emit :: "(u64 \<times> u16) list \<Rightarrow> u64 \<times> u16 \<Rightarrow> (u64 \<times> u16) list" where
  "emit ps e = (if ps = [] \<or> snd (last ps) \<noteq> snd e then ps @ [e] else ps)"

definition entries :: "(UnwindInfo \<times> u16) list \<Rightarrow> (u64 \<times> UnwindInfo) list \<Rightarrow> (u64 \<times> u16) list" where
  "entries m cs = foldl emit [] (map (\<lambda>(a, info). (a, enc m info)) cs)"

definition page_idx :: "u64 \<Rightarrow> u64 \<Rightarrow> nat" where
  "page_idx firstPage a = unat (drop_bit 16 a - firstPage)"

text \<open>The deltas and the page counters that hold the entries \<open>ps\<close>.\<close>

definition represents :: "u64 \<Rightarrow> (u64 \<times> u16) list \<Rightarrow> ('k, 'e, 'd, 'l) loading \<Rightarrow> bool" where
  "represents fp ps ld \<longleftrightarrow>
     ebpfDeltas ld = map (\<lambda>(a, x). \<lparr>AddressLow = ucast a, UnwindInfo_idx = x\<rparr>) ps \<and>
     (\<forall>e \<in> set ps. page_idx fp (fst e) < length (numDeltasPerPage ld)) \<and>
     (\<forall>p < length (numDeltasPerPage ld).
        numDeltasPerPage ld ! p = of_nat (length (filter (\<lambda>e. page_idx fp (fst e) = p) ps)))"

lemma addDelta_emit:
  assumes laws: "bpf_laws K" and size: "array_size K" and ok: "index_ok K (ld_state ld)"
    and rep: "represents fp ps ld" and run: "addDelta K fp addr info ld = Ret (None, ld')"
  shows "index_ok K (ld_state ld') \<and> index_grows K (ld_state ld) (ld_state ld') \<and>
    (Flags info AND UnwindFlagCommand = 0 \<longrightarrow> map_of (unwindInfoIndex (ld_state ld')) info \<noteq> None) \<and>
    length (numDeltasPerPage ld') = length (numDeltasPerPage ld) \<and>
    represents fp (emit ps (addr, enc (unwindInfoIndex (ld_state ld')) info)) ld'"
proof -
  obtain r st where get0: "getUnwindInfoIndex K info (ld_state ld) = Ret (r, st)"
    using run by (auto simp: addDelta_def)
  obtain x where r: "r = Inr x" using run get0 by (cases r) (auto simp: addDelta_def)
  have get: "getUnwindInfoIndex K info (ld_state ld) = Ret (Inr x, st)" using get0 r by simp
  have rest: "(if ebpfDeltas ld = [] \<or> UnwindInfo_idx (last (ebpfDeltas ld)) \<noteq> x
      then if page_idx fp addr < length (numDeltasPerPage ld)
        then Ret (None :: handler_error option, ld\<lparr>ld_state := st,
              ebpfDeltas := ebpfDeltas ld @ [\<lparr>AddressLow = ucast addr, UnwindInfo_idx = x\<rparr>],
              numDeltasPerPage := (numDeltasPerPage ld)[page_idx fp addr := numDeltasPerPage ld ! page_idx fp addr + 1]\<rparr>)
        else Panic
      else Ret (None, ld\<lparr>ld_state := st\<rparr>)) = Ret (None, ld')"
    using run unfolding addDelta_def Let_def get run_bind.simps prod.case sum.case page_idx_def .
  note g = getUnwindInfoIndex_ok [OF laws size ok get]
  have st: "ld_state ld' = st" and len: "length (numDeltasPerPage ld') = length (numDeltasPerPage ld)"
    using rest by (auto split: if_split_asm)
  have last: "ebpfDeltas ld = [] \<longleftrightarrow> ps = []" "ps \<noteq> [] \<Longrightarrow> UnwindInfo_idx (last (ebpfDeltas ld)) = snd (last ps)"
    using rep by (auto simp: represents_def last_map split: prod.split)
  have "represents fp (emit ps (addr, x)) ld'"
  proof (cases "ps = [] \<or> snd (last ps) \<noteq> x")
    case True
    then show ?thesis
      using rest last rep by (auto simp: represents_def emit_def nth_list_update split: if_split_asm)
  next
    case False
    then show ?thesis using rest last rep by (auto simp: represents_def emit_def)
  qed
  then show ?thesis using g st len by auto
qed

end
