(* ===== verification/LoadProps.thy ===== *)
theory LoadProps
  imports ExecInfoProps
begin

text \<open>
  What a successful \<open>loadDeltas\<close> leaves in the kernel's maps: the entries built from the interval data,
  the page table over them, and the request that makes them visible.
\<close>

section \<open>The entries of all calls\<close>

lemma enc_mono:
  "map_of m \<subseteq>\<^sub>m map_of m' \<Longrightarrow> (Flags info AND UnwindFlagCommand = 0 \<Longrightarrow> map_of m info \<noteq> None) \<Longrightarrow> enc m' info = enc m info"
  by (auto simp: enc_def map_le_def dom_def)

definition indexed :: "(UnwindInfo \<times> u16) list \<Rightarrow> (u64 \<times> UnwindInfo) list \<Rightarrow> bool" where
  "indexed m cs \<longleftrightarrow> (\<forall>(a, info) \<in> set cs. Flags info AND UnwindFlagCommand = 0 \<longrightarrow> map_of m info \<noteq> None)"

lemma addDeltas_entries:
  assumes "bpf_laws K" "array_size K"
  shows "addDeltas K fp cs ld = Ret (None, ld') \<Longrightarrow> index_ok K (ld_state ld) \<Longrightarrow> represents fp ps ld \<Longrightarrow>
    index_ok K (ld_state ld') \<and> index_grows K (ld_state ld) (ld_state ld') \<and>
    indexed (unwindInfoIndex (ld_state ld')) cs \<and> length (numDeltasPerPage ld') = length (numDeltasPerPage ld) \<and>
    represents fp (foldl emit ps (map (\<lambda>(a, info). (a, enc (unwindInfoIndex (ld_state ld')) info)) cs)) ld'"
proof (induction cs arbitrary: ld ps)
  case Nil
  then show ?case by (auto simp: indexed_def)
next
  case (Cons c cs)
  obtain a info where c: "c = (a, info)" by (cases c)
  obtain ld1 where one: "addDelta K fp a info ld = Ret (None, ld1)" and more: "addDeltas K fp cs ld1 = Ret (None, ld')"
    using Cons.prems(1) by (auto simp: c run_elims simp del: run_bind_eq_Ret)
  note o = addDelta_emit [OF assms Cons.prems(2,3) one]
  have rep1: "represents fp (emit ps (a, enc (unwindInfoIndex (ld_state ld1)) info)) ld1" using o by blast
  note m = Cons.IH [OF more _ rep1]
  have grow: "map_of (unwindInfoIndex (ld_state ld1)) \<subseteq>\<^sub>m map_of (unwindInfoIndex (ld_state ld'))"
    using o m by (auto simp: index_grows_def)
  have "enc (unwindInfoIndex (ld_state ld')) info = enc (unwindInfoIndex (ld_state ld1)) info"
    using enc_mono [OF grow] o by blast
  moreover have "indexed (unwindInfoIndex (ld_state ld')) (c # cs)"
    using o m grow by (fastforce simp: indexed_def c map_le_def dom_def)
  ultimately show ?case using o m index_grows_trans by (auto simp: c)
qed

section \<open>Successful handler calls\<close>

lemma map_of_rev_zip:
  assumes "distinct ks" "length ks = length vs" "i < length ks"
  shows "map_of (rev (zip ks vs)) (ks ! i) = Some (vs ! i)"
proof -
  have "(ks ! i, vs ! i) \<in> set (rev (zip ks vs))" using assms(2,3) by (force simp: set_zip)
  moreover have "distinct (map fst (rev (zip ks vs)))" using assms(1,2) by (simp add: rev_map [symmetric])
  ultimately show ?thesis by simp
qed

lemma Lookup_BatchUpdate_ok:
  assumes "bpf_laws K" "bpf_BatchUpdate K m keys vals k = ((n, None), k')" "length keys = length vals"
    "m \<noteq> PidPageToMappingInfo"
  shows "bpf_Lookup K m' key' k' =
    (if m' = m \<and> key' \<in> set keys then map_of (rev (zip keys vals)) key' else bpf_Lookup K m' key' k)"
proof (rule Lookup_BatchUpdate [OF assms])
  fix j
  assume "(None :: bpf_error option) = None \<Longrightarrow> j = length keys"
    and look: "\<And>m' key'. bpf_Lookup K m' key' k' =
      (if m' = m \<and> key' \<in> set (take j keys) then map_of (rev (take j (zip keys vals))) key' else bpf_Lookup K m' key' k)"
  then have "j = length keys" by blast
  then show ?thesis using look [of m' key'] assms(3) by simp
qed

lemma fill_inner_success:
  assumes laws: "bpf_laws K" and run: "fill_inner K outer inner mapID f ds eb = Ret (Inr m, eb')"
    and len: "length ds < 2 ^ 32"
  shows "m = mapID" and "available eb' = available eb"
    and "EnqueueUpdate outer f (Some (InnerMap inner)) (updateWorkers eb) = Ret (updateWorkers eb')"
    and "i < length ds \<Longrightarrow> bpf_Lookup K (InnerMap inner) (K32 (of_nat i)) (kern eb') = Some (VDelta (ds ! i))"
    and "bm \<noteq> InnerMap inner \<Longrightarrow> bpf_Lookup K bm key (kern eb') = bpf_Lookup K bm key (kern eb)"
proof -
  define keys where "keys = map (\<lambda>i. K32 (of_nat i)) [0..<length ds]"
  obtain cerr k1 where clone: "bpf_Clone K (InnerMap inner) (kern eb) = (cerr, k1)" by (metis prod.exhaust)
  have c0: "cerr = None" using run clone by (cases cerr) (auto simp: fill_inner_def)
  obtain pool where enq: "EnqueueUpdate outer f (Some (InnerMap inner)) (updateWorkers eb) = Ret pool"
    using run clone c0 by (auto simp: fill_inner_def)
  obtain n err k2 where batch: "bpf_BatchUpdate K (InnerMap inner) keys (map VDelta ds) k1 = ((n, err), k2)"
    by (metis prod.exhaust)
  have e0: "err = None" and res: "m = mapID" "eb' = eb\<lparr>kern := k2, updateWorkers := pool\<rparr>"
    using run clone c0 enq batch by (cases err; simp add: fill_inner_def keys_def [symmetric])+
  show "m = mapID" "available eb' = available eb"
    "EnqueueUpdate outer f (Some (InnerMap inner)) (updateWorkers eb) = Ret (updateWorkers eb')"
    using res enq by simp_all
  have dist: "distinct keys"
    using len by (auto simp: keys_def distinct_map inj_on_def word_unat_eq_iff unat_of_nat take_bit_nat_eq_self)
  have kl: "length keys = length (map VDelta ds)" by (simp add: keys_def)
  note look = Lookup_BatchUpdate_ok [OF laws batch [unfolded e0] kl, simplified]
  show "bpf_Lookup K (InnerMap inner) (K32 (of_nat i)) (kern eb') = Some (VDelta (ds ! i))" if "i < length ds"
  proof -
    have key: "keys ! i = K32 (of_nat i)" "i < length keys" using that by (simp_all add: keys_def)
    then have "map_of (rev (zip keys (map VDelta ds))) (K32 (of_nat i)) = Some (VDelta (ds ! i))"
      using map_of_rev_zip [OF dist kl, of i] that by simp
    then show ?thesis using res look [of "InnerMap inner" "K32 (of_nat i)"] key nth_mem [OF key(2)] by simp
  qed
  show "bpf_Lookup K bm key (kern eb') = bpf_Lookup K bm key (kern eb)" if "bm \<noteq> InnerMap inner"
    using that res look [of bm key] Lookup_quiet(1) [OF laws, of bm key "InnerMap inner" "kern eb"] clone by simp
qed

lemma UpdateExeIDToStackDeltas_success:
  assumes laws: "bpf_laws K" and run: "UpdateExeIDToStackDeltas K f ds eb = Ret (Inr mapID, eb')"
    and len: "length ds < 2 ^ 32"
  obtains inner where "getMapID (of_nat (length ds)) = Inr mapID"
    "EnqueueUpdate (ExeIDToStackDeltas mapID) f (Some (InnerMap inner)) (updateWorkers eb) = Ret (updateWorkers eb')"
    "available eb' = available eb"
    "\<And>i. i < length ds \<Longrightarrow> bpf_Lookup K (InnerMap inner) (K32 (of_nat i)) (kern eb') = Some (VDelta (ds ! i))"
    "\<And>m key. m \<noteq> InnerMap inner \<Longrightarrow> bpf_Lookup K m key (kern eb') = bpf_Lookup K m key (kern eb)"
proof -
  obtain mid where id: "getMapID (of_nat (length ds)) = Inr mid"
    using run by (cases "getMapID (of_nat (length ds))") (auto simp: UpdateExeIDToStackDeltas_def)
  obtain merr k1 where mem: "bpf_MaximizeMemlock K (kern eb) = (merr, k1)" by (metis prod.exhaust)
  have m0: "merr = None" using run id mem by (cases merr) (auto simp: UpdateExeIDToStackDeltas_def)
  obtain nres k2 where new: "bpf_NewMap K (push_bit (unat mid) 1) k1 = (nres, k2)" by (metis prod.exhaust)
  obtain inner where inner: "nres = Inr inner"
    using run id mem m0 new by (cases nres) (auto simp: UpdateExeIDToStackDeltas_def)
  obtain r eb1 where fill: "fill_inner K (ExeIDToStackDeltas mid) inner mid f ds (eb\<lparr>kern := k2\<rparr>) = Ret (r, eb1)"
    and r: "r = Inr mapID"
    and eb': "eb' = eb1\<lparr>kern := bpf_restoreRlimit K (snd (bpf_Close K (InnerMap inner) (kern eb1)))\<rparr>"
    using run id mem m0 new inner by (auto simp: UpdateExeIDToStackDeltas_def)
  note s = fill_inner_success [OF laws fill [unfolded r] len]
  have quiet: "bpf_Lookup K m key (kern eb') = bpf_Lookup K m key (kern eb1)" for m key
    by (simp add: eb' Lookup_quiet [OF laws])
  have k2: "bpf_Lookup K m key k2 = bpf_Lookup K m key (kern eb)" if "m \<noteq> InnerMap inner" for m key
    using that Lookup_NewMap [OF laws, of "push_bit (unat mid) 1" k1 m key] new inner
      Lookup_quiet(3) [OF laws, of m key "kern eb"] mem by simp
  show thesis
    using s id quiet k2 by (intro that [of inner]) (simp_all add: eb')
qed

lemma getMapID_outer: "getMapID n = Inr m \<Longrightarrow> 8 \<le> m \<and> m \<le> 23"
  by (auto simp: getMapID_def Let_def LeadingZeros32_def word_le_nat_alt unat_of_nat take_bit_nat_eq_self split: if_split_asm)

lemma delta_pages_nth:
  "p < length ns \<Longrightarrow> delta_pages f mapID a d ns ! p =
     (\<lparr>FileID = f, Page = a + of_nat p * 0x10000\<rparr>,
      \<lparr>FirstDelta = d + (\<Sum>n \<leftarrow> take p ns. ucast n), pi_NumDeltas = ns ! p, MapID = mapID\<rparr>)"
proof (induction ns arbitrary: p a d)
  case (Cons n ns)
  then show ?case by (cases p) (simp_all add: algebra_simps)
qed simp

lemma delta_pages_length [simp]: "length (delta_pages f mapID a d ns) = length ns"
  by (induction ns arbitrary: a d) simp_all

lemma page_step_inj:
  assumes "p < 2 ^ 48" "q < 2 ^ 48" "(of_nat p :: u64) * 0x10000 = of_nat q * 0x10000"
  shows "p = q"
proof -
  have "unat ((of_nat x :: u64) * 0x10000) = x * 65536" if "x < 2 ^ 48" for x
    using that by (simp add: unat_word_ariths unat_of_nat take_bit_nat_eq_self)
  then show ?thesis using assms by (metis mult_cancel2 zero_neq_numeral)
qed

lemma UpdateStackDeltaPages_success:
  assumes laws: "bpf_laws K" and run: "UpdateStackDeltaPages K f ns mapID a eb = Ret (None, eb')"
    and len: "length ns < 2 ^ 48"
  shows "available eb' = available eb" "updateWorkers eb' = updateWorkers eb"
    "p < length ns \<Longrightarrow> bpf_Lookup K StackDeltaPageToInfo (KPage \<lparr>FileID = f, Page = a + of_nat p * 0x10000\<rparr>) (kern eb') =
      Some (VPageInfo \<lparr>FirstDelta = (\<Sum>n \<leftarrow> take p ns. ucast n), pi_NumDeltas = ns ! p, MapID = mapID\<rparr>)"
    "m \<noteq> StackDeltaPageToInfo \<Longrightarrow> bpf_Lookup K m key (kern eb') = bpf_Lookup K m key (kern eb)"
proof -
  define pages where "pages = delta_pages f mapID a 0 ns"
  define ks where "ks = map (KPage \<circ> fst) pages"
  let ?vals = "map (VPageInfo \<circ> snd) pages"
  obtain n err k1 where batch: "bpf_BatchUpdate K StackDeltaPageToInfo ks ?vals (kern eb) = ((n, err), k1)"
    by (metis prod.exhaust)
  have e0: "err = None" and eb': "eb' = eb\<lparr>kern := k1\<rparr>"
    using run batch
    by (auto simp: UpdateStackDeltaPages_def on_map_def trackMapError_def update_pages_def Let_def
      pages_def [symmetric] ks_def [symmetric] split: if_split_asm option.split_asm prod.split_asm)
  show "available eb' = available eb" "updateWorkers eb' = updateWorkers eb" by (simp_all add: eb')
  have kl: "length ks = length ?vals" by (simp add: ks_def)
  have kp: "ks ! p = KPage \<lparr>FileID = f, Page = a + of_nat p * 0x10000\<rparr>" if "p < length ns" for p
    using that by (simp add: ks_def pages_def delta_pages_nth)
  have dist: "distinct ks"
    using len kp page_step_inj by (auto simp: distinct_conv_nth ks_def pages_def delta_pages_nth)
  note look = Lookup_BatchUpdate_ok [OF laws batch [unfolded e0] kl, simplified]
  show "bpf_Lookup K m key (kern eb') = bpf_Lookup K m key (kern eb)" if "m \<noteq> StackDeltaPageToInfo"
    using that look [of m key] by (simp add: eb')
  show "bpf_Lookup K StackDeltaPageToInfo (KPage \<lparr>FileID = f, Page = a + of_nat p * 0x10000\<rparr>) (kern eb') =
      Some (VPageInfo \<lparr>FirstDelta = (\<Sum>n \<leftarrow> take p ns. ucast n), pi_NumDeltas = ns ! p, MapID = mapID\<rparr>)" if "p < length ns"
  proof -
    have pl: "p < length ks" using that by (simp add: ks_def pages_def)
    have "map_of (rev (zip ks ?vals)) (ks ! p) = Some (?vals ! p)" by (rule map_of_rev_zip [OF dist kl pl])
    then show ?thesis
      using that pl look [of StackDeltaPageToInfo "ks ! p"] nth_mem [OF pl]
      by (simp add: eb' kp delta_pages_nth pages_def)
  qed
qed

section \<open>The tables of an executable\<close>

text \<open>The 64 KiB page of an address.\<close>

abbreviation page_of :: "u64 \<Rightarrow> nat" where "page_of a \<equiv> unat a div 65536"

text \<open>How many of the sorted entries lie on earlier pages, on a page, and at or below an address.\<close>

definition less_count :: "nat \<Rightarrow> (u64 \<times> u16) list \<Rightarrow> nat" where
  "less_count q ps = length (filter (\<lambda>e. page_of (fst e) < q) ps)"

definition in_count :: "nat \<Rightarrow> (u64 \<times> u16) list \<Rightarrow> nat" where
  "in_count q ps = length (filter (\<lambda>e. page_of (fst e) = q) ps)"

definition upto_count :: "u64 \<Rightarrow> (u64 \<times> u16) list \<Rightarrow> nat" where
  "upto_count a ps = length (filter (\<lambda>e. fst e \<le> a) ps)"

lemma page_addr: "(a :: u64) AND NOT 0xffff = of_nat (page_of a * 65536)"
proof -
  have m: "(0xffff :: u64) = mask 16" by (simp add: mask_eq_exp_minus_1)
  have "a AND NOT (mask 16) = push_bit 16 (drop_bit 16 a)"
    by (rule bit_word_eqI) (auto simp: bit_simps)
  also have "\<dots> = drop_bit 16 a * 65536" by (simp add: push_bit_eq_mult)
  also have "drop_bit 16 a = of_nat (page_of a)"
  proof -
    have "unat (drop_bit 16 a) = page_of a" unfolding unat_drop_bit_eq by (simp add: drop_bit_eq_div)
    then show ?thesis by (metis of_nat_unat ucast_id)
  qed
  finally show ?thesis by (simp add: m)
qed

text \<open>
  The tables of file ID \<open>f\<close> hold the entries \<open>ps\<close>, address and index, on \<open>np\<close> pages from page \<open>F\<close>.
\<close>

definition tables :: "'k bpf \<Rightarrow> 'k \<Rightarrow> u64 \<Rightarrow> nat \<Rightarrow> nat \<Rightarrow> (u64 \<times> u16) list \<Rightarrow> bool" where
  "tables K k f F np ps \<longleftrightarrow> (\<exists>mapID inner. 8 \<le> mapID \<and> mapID \<le> 23 \<and>
     bpf_Lookup K (ExeIDToStackDeltas mapID) (K64 f) k = Some (VMap inner) \<and>
     (\<forall>i < length ps. bpf_Lookup K inner (K32 (of_nat i)) k =
        Some (VDelta \<lparr>AddressLow = ucast (fst (ps ! i)), UnwindInfo_idx = snd (ps ! i)\<rparr>)) \<and>
     (\<forall>p < np. bpf_Lookup K StackDeltaPageToInfo (KPage \<lparr>FileID = f, Page = of_nat ((F + p) * 65536)\<rparr>) k =
        Some (VPageInfo \<lparr>FirstDelta = of_nat (less_count (F + p) ps), pi_NumDeltas = of_nat (in_count (F + p) ps),
          MapID = mapID\<rparr>)))"

lemma page_idx_diff:
  assumes "S \<le> a"
  shows "page_idx (drop_bit 16 S) a = page_of a - page_of S"
proof -
  have d: "unat (drop_bit 16 x) = page_of x" for x :: u64 unfolding unat_drop_bit_eq by (simp add: drop_bit_eq_div)
  have "page_of S \<le> page_of a" using assms by (simp add: word_le_nat_alt div_le_mono)
  then have "drop_bit 16 S \<le> drop_bit 16 a" by (simp only: word_le_nat_alt d)
  then show ?thesis by (simp add: page_idx_def unat_sub d)
qed

lemma less_count_Suc: "less_count (Suc q) ps = less_count q ps + in_count q ps"
  by (induction ps) (auto simp: less_count_def in_count_def)

lemma less_count_first: "\<forall>e \<in> set ps. F \<le> page_of (fst e) \<Longrightarrow> less_count F ps = 0"
  by (simp add: less_count_def filter_empty_conv not_less)

lemma first_deltas:
  fixes ns :: "u16 list"
  assumes "\<forall>q < length ns. ns ! q = of_nat (in_count (F + q) ps) \<and> in_count (F + q) ps < 65536"
    and "\<forall>e \<in> set ps. F \<le> page_of (fst e)" "p \<le> length ns"
  shows "(\<Sum>n \<leftarrow> take p ns. ucast n) = (of_nat (less_count (F + p) ps) :: u32)"
  using assms(3)
proof (induction p)
  case 0
  then show ?case using less_count_first [OF assms(2)] by simp
next
  case (Suc p)
  have "ns ! p = of_nat (in_count (F + p) ps)" "in_count (F + p) ps < 65536" using assms(1) Suc.prems by simp_all
  then have "unat (ns ! p) = in_count (F + p) ps" by (simp add: u16_of_nat)
  then have "(ucast (ns ! p) :: u32) = of_nat (in_count (F + p) ps)" by (metis of_nat_unat)
  then show ?case
    using Suc by (simp add: take_Suc_conv_app_nth less_count_Suc)
qed

text \<open>The calls for the interval data, and the entries that result with the table of indices \<open>m\<close>.\<close>

definition iv_calls :: "IntervalData \<Rightarrow> (u64 \<times> UnwindInfo) list" where
  "iv_calls iv = blocks_calls zero_UnwindInfo (Blocks iv)"

text \<open>The entries lie at or behind the first block, and every table is large enough for them.\<close>

definition iv_fits :: "IntervalData \<Rightarrow> (u64 \<times> u16) list \<Rightarrow> bool" where
  "iv_fits iv ps \<longleftrightarrow> NumDeltas iv \<noteq> 0 \<and> (\<forall>e \<in> set ps. Start (hd (Blocks iv)) \<le> fst e) \<and>
     (\<forall>q. in_count q ps < 65536) \<and> length ps < 2 ^ 31 \<and> Start (hd (Blocks iv)) \<le> End (last (Blocks iv))"

definition iv_pages :: "IntervalData \<Rightarrow> nat" where
  "iv_pages iv = page_of (End (last (Blocks iv))) - page_of (Start (hd (Blocks iv))) + 1"

lemma load_maps_success:
  assumes "load_maps K f a n ld = Ret (Inr ref, st')"
  obtains mapID eb1 where "UpdateExeIDToStackDeltas K f (ebpfDeltas ld) (ebpf (ld_state ld)) = Ret (Inr mapID, eb1)"
    "UpdateStackDeltaPages K f (numDeltasPerPage ld) mapID a eb1 = Ret (None, ebpf st')"
    "unwindInfoIndex st' = unwindInfoIndex (ld_state ld)"
  using assms by (auto simp: load_maps_def Let_def run_elims simp del: run_bind_eq_Ret)

lemma drop16: "unat (drop_bit 16 (x :: u64)) = page_of x"
  unfolding unat_drop_bit_eq by (simp add: drop_bit_eq_div)

lemma page_number:
  assumes "(S :: u64) \<le> E"
  shows "unat (drop_bit 16 E - drop_bit 16 S + 1) = page_of E - page_of S + 1"
proof -
  have "page_of S \<le> page_of E" using assms by (simp add: word_le_nat_alt div_le_mono)
  then have "drop_bit 16 S \<le> drop_bit 16 E" by (simp only: word_le_nat_alt drop16)
  then have "unat (drop_bit 16 E - drop_bit 16 S) = page_of E - page_of S" by (simp add: unat_sub drop16)
  moreover have "page_of E < 2 ^ 48" using u64_bound [of E] by simp
  ultimately show ?thesis by (simp add: unat_word_ariths)
qed

lemma represents_counts:
  assumes rep: "represents (drop_bit 16 S) ps ld" and ge: "\<forall>e \<in> set ps. S \<le> fst e" and p: "p < length (numDeltasPerPage ld)"
  shows "numDeltasPerPage ld ! p = of_nat (in_count (page_of S + p) ps)"
proof -
  have "page_idx (drop_bit 16 S) (fst e) = p \<longleftrightarrow> page_of (fst e) = page_of S + p" if "e \<in> set ps" for e
  proof -
    have "S \<le> fst e" using ge that by blast
    then have "page_of S \<le> page_of (fst e)" by (simp add: word_le_nat_alt div_le_mono)
    then show ?thesis using page_idx_diff [OF \<open>S \<le> fst e\<close>] by auto
  qed
  then have "filter (\<lambda>e. page_idx (drop_bit 16 S) (fst e) = p) ps = filter (\<lambda>e. page_of (fst e) = page_of S + p) ps"
    by (intro filter_cong) simp_all
  then show ?thesis using rep p by (simp add: represents_def in_count_def)
qed

lemma loadDeltas_success:
  assumes laws: "bpf_laws K" and size: "array_size K" and ok: "index_ok K st"
    and run: "loadDeltas K f iv st = Ret (Inr ref, st')"
    and fits: "iv_fits iv (entries (unwindInfoIndex st') (iv_calls iv))"
  defines "ps \<equiv> entries (unwindInfoIndex st') (iv_calls iv)" and "S \<equiv> Start (hd (Blocks iv))"
  obtains inner mapID where "index_ok K st'" "indexed (unwindInfoIndex st') (iv_calls iv)"
    "8 \<le> mapID" "mapID \<le> 23"
    "EnqueueUpdate (ExeIDToStackDeltas mapID) f (Some (InnerMap inner)) (updateWorkers (ebpf st)) = Ret (updateWorkers (ebpf st'))"
    "\<And>i. i < length ps \<Longrightarrow> bpf_Lookup K (InnerMap inner) (K32 (of_nat i)) (kern (ebpf st')) =
       Some (VDelta \<lparr>AddressLow = ucast (fst (ps ! i)), UnwindInfo_idx = snd (ps ! i)\<rparr>)"
    "\<And>p. p < iv_pages iv \<Longrightarrow>
       bpf_Lookup K StackDeltaPageToInfo (KPage \<lparr>FileID = f, Page = of_nat ((page_of S + p) * 65536)\<rparr>) (kern (ebpf st')) =
       Some (VPageInfo \<lparr>FirstDelta = of_nat (less_count (page_of S + p) ps), pi_NumDeltas = of_nat (in_count (page_of S + p) ps),
         MapID = mapID\<rparr>)"
    "\<And>b key. bpf_Lookup K (ExeIDToStackDeltas b) key (kern (ebpf st')) = bpf_Lookup K (ExeIDToStackDeltas b) key (kern (ebpf st))"
proof -
  let ?E = "End (last (Blocks iv))" and ?fp = "drop_bit 16 S"
  let ?np = "drop_bit 16 ?E - ?fp + 1"
  let ?ld0 = "\<lparr>ld_state = st, ebpfDeltas = [], numDeltasPerPage = replicate (unat ?np) 0\<rparr>"
  have nd: "NumDeltas iv \<noteq> 0" and SE: "S \<le> ?E" using fits by (simp_all add: iv_fits_def S_def)
  have ne: "Blocks iv \<noteq> []" using run nd by (auto simp: loadDeltas_def)
  obtain r ld where lb: "load_blocks K ?fp zero_UnwindInfo (Blocks iv) ?ld0 = Ret (r, ld)"
    using run nd ne by (auto simp: loadDeltas_def Let_def S_def split: if_split_asm)
  have r0: "r = None"
    using run nd ne lb by (cases r) (auto simp: loadDeltas_def Let_def S_def split: if_split_asm)
  have lm: "load_maps K f (S AND NOT 0xffff) ?np ld = Ret (Inr ref, st')"
    using run nd ne lb r0 unfolding loadDeltas_def Let_def S_def by (auto split: if_split_asm)
  have calls: "addDeltas K ?fp (iv_calls iv) ?ld0 = Ret (None, ld)"
    using lb r0 by (simp add: load_blocks_calls iv_calls_def)
  have rep0: "represents ?fp [] ?ld0" by (simp add: represents_def)
  note ent = addDeltas_entries [OF laws size calls _ rep0, simplified, OF ok]
  obtain mapID eb1 where up: "UpdateExeIDToStackDeltas K f (ebpfDeltas ld) (ebpf (ld_state ld)) = Ret (Inr mapID, eb1)"
    and pg: "UpdateStackDeltaPages K f (numDeltasPerPage ld) mapID (S AND NOT 0xffff) eb1 = Ret (None, ebpf st')"
    and ix: "unwindInfoIndex st' = unwindInfoIndex (ld_state ld)"
    by (rule load_maps_success [OF lm])
  have rep: "represents ?fp ps ld" using ent by (simp add: ps_def entries_def ix)
  have np: "length (numDeltasPerPage ld) = iv_pages iv"
    using ent page_number [OF SE] by (simp add: iv_pages_def S_def)
  have "unat ?np \<le> 2 ^ 47" using run nd ne unfolding loadDeltas_def Let_def S_def by (auto split: if_split_asm)
  then have small: "length (numDeltasPerPage ld) < 2 ^ 48" using ent by simp
  have fits': "\<forall>e \<in> set ps. S \<le> fst e" "\<forall>q. in_count q ps < 65536" "length ps < 2 ^ 31"
    using fits by (simp_all add: iv_fits_def ps_def S_def)
  have cnt: "numDeltasPerPage ld ! p = of_nat (in_count (page_of S + p) ps)" if "p < iv_pages iv" for p
    using represents_counts [OF rep fits'(1)] that np by simp
  have ld: "ebpfDeltas ld = map (\<lambda>(a, x). \<lparr>AddressLow = ucast a, UnwindInfo_idx = x\<rparr>) ps" using rep by (simp add: represents_def)
  obtain inner where id: "getMapID (of_nat (length (ebpfDeltas ld))) = Inr mapID"
    and enq: "EnqueueUpdate (ExeIDToStackDeltas mapID) f (Some (InnerMap inner)) (updateWorkers (ebpf (ld_state ld))) =
      Ret (updateWorkers eb1)"
    and inn: "\<And>i. i < length (ebpfDeltas ld) \<Longrightarrow>
      bpf_Lookup K (InnerMap inner) (K32 (of_nat i)) (kern eb1) = Some (VDelta (ebpfDeltas ld ! i))"
    and other: "\<And>m key. m \<noteq> InnerMap inner \<Longrightarrow> bpf_Lookup K m key (kern eb1) = bpf_Lookup K m key (kern (ebpf (ld_state ld)))"
    using fits'(3) ld by (rule_tac UpdateExeIDToStackDeltas_success [OF laws up]) (simp, rule that)
  note pgs = UpdateStackDeltaPages_success [OF laws pg small]
  have grow: "index_grows K st (ld_state ld)" and ok': "index_ok K (ld_state ld)"
    and idx: "indexed (unwindInfoIndex st') (iv_calls iv)"
    using ent by (simp_all add: ix)
  have page: "(S AND NOT 0xffff) + of_nat p * 0x10000 = of_nat ((page_of S + p) * 65536)" for p
    unfolding page_addr by (simp add: algebra_simps)
  show thesis
  proof (rule that [of mapID inner])
    have "bpf_Lookup K UnwindInfoArray key (kern (ebpf st')) = bpf_Lookup K UnwindInfoArray key (kern (ebpf (ld_state ld)))" for key
      using pgs(4) [of UnwindInfoArray key] other [of UnwindInfoArray key] by simp
    then show "index_ok K st'" using ok' by (simp add: index_ok_def ix)
    show "indexed (unwindInfoIndex st') (iv_calls iv)" by (rule idx)
    show "8 \<le> mapID" "mapID \<le> 23" using getMapID_outer [OF id] by simp_all
    show "EnqueueUpdate (ExeIDToStackDeltas mapID) f (Some (InnerMap inner)) (updateWorkers (ebpf st)) = Ret (updateWorkers (ebpf st'))"
      using enq grow pgs(2) by (simp add: index_grows_def)
    show "bpf_Lookup K (ExeIDToStackDeltas b) key (kern (ebpf st')) = bpf_Lookup K (ExeIDToStackDeltas b) key (kern (ebpf st))" for b key
      using grow other [of "ExeIDToStackDeltas b" key] pgs(4) [of "ExeIDToStackDeltas b" key] by (simp add: index_grows_def)
    show "bpf_Lookup K (InnerMap inner) (K32 (of_nat i)) (kern (ebpf st')) =
       Some (VDelta \<lparr>AddressLow = ucast (fst (ps ! i)), UnwindInfo_idx = snd (ps ! i)\<rparr>)" if "i < length ps" for i
      using that inn [of i] pgs(4) [of "InnerMap inner"] by (simp add: ld case_prod_beta)
    show "bpf_Lookup K StackDeltaPageToInfo (KPage \<lparr>FileID = f, Page = of_nat ((page_of S + p) * 65536)\<rparr>) (kern (ebpf st')) =
       Some (VPageInfo \<lparr>FirstDelta = of_nat (less_count (page_of S + p) ps), pi_NumDeltas = of_nat (in_count (page_of S + p) ps),
         MapID = mapID\<rparr>)" if p: "p < iv_pages iv" for p
    proof -
      have "\<forall>e \<in> set ps. page_of S \<le> page_of (fst e)" using fits'(1) by (simp add: word_le_nat_alt div_le_mono)
      then have "(\<Sum>n \<leftarrow> take p (numDeltasPerPage ld). ucast n) = (of_nat (less_count (page_of S + p) ps) :: u32)"
        using cnt fits'(2) np p by (intro first_deltas) simp_all
      then show ?thesis using pgs(3) [of p] p np cnt [OF p] by (simp only: page [symmetric])
    qed
  qed
qed

section \<open>The worker makes the entries visible\<close>

text \<open>The kernel state once the worker of the file ID has served its channel.\<close>

definition visible :: "'k bpf \<Rightarrow> u64 \<Rightarrow> 'k ebpfMapsImpl \<Rightarrow> 'k" where
  "visible K f eb =
     fold (serve_update K) (queue (workers (updateWorkers eb) ! workerIdx (updateWorkers eb) f)) (kern eb)"

text \<open>The pool runs, holds only updates of outer maps, and the file ID is neither loaded nor pending.\<close>

definition fresh_id :: "'k bpf \<Rightarrow> u64 \<Rightarrow> 'k ebpfMapsImpl \<Rightarrow> bool" where
  "fresh_id K f eb \<longleftrightarrow> workers (updateWorkers eb) \<noteq> [] \<and> \<not> ctx_done (updateWorkers eb) \<and>
     (\<forall>w \<in> set (workers (updateWorkers eb)). \<forall>u \<in> set (queue w). outer_update u \<and> up_FileID u \<noteq> f) \<and>
     (\<forall>b. bpf_Lookup K (ExeIDToStackDeltas b) (K64 f) (kern eb) = None)"

lemma serve_other:
  assumes "bpf_laws K" "outer_update u" "\<forall>b. m \<noteq> ExeIDToStackDeltas b"
  shows "bpf_Lookup K m key (serve_update K u k) = bpf_Lookup K m key k"
  using assms(2,3)
  by (auto simp: serve_update_def outer_update_def case_prod_beta Lookup_Delete [OF assms(1)] Lookup_Update [OF assms(1)]
      Lookup_quiet [OF assms(1)] split: option.split)

lemma fold_serve_other:
  assumes "bpf_laws K" "\<forall>u \<in> set us. outer_update u" "\<forall>b. m \<noteq> ExeIDToStackDeltas b"
  shows "bpf_Lookup K m key (fold (serve_update K) us k) = bpf_Lookup K m key k"
  using assms(2)
proof (induction us arbitrary: k)
  case (Cons u us)
  then show ?case using serve_other [OF assms(1) _ assms(3), of u key k] by simp
qed simp

lemma visible_after_enqueue:
  assumes laws: "bpf_laws K" and fresh: "fresh_id K f eb"
    and enq: "EnqueueUpdate (ExeIDToStackDeltas mapID) f (Some inner) (updateWorkers eb) = Ret (updateWorkers eb')"
    and outer: "\<And>b key. bpf_Lookup K (ExeIDToStackDeltas b) key (kern eb') = bpf_Lookup K (ExeIDToStackDeltas b) key (kern eb)"
  shows "bpf_Lookup K (ExeIDToStackDeltas mapID) (K64 f) (visible K f eb') = Some (VMap inner)"
    and "\<forall>b. m \<noteq> ExeIDToStackDeltas b \<Longrightarrow> bpf_Lookup K m key (visible K f eb') = bpf_Lookup K m key (kern eb')"
proof -
  let ?p = "updateWorkers eb" and ?u = "\<lparr>up_Outer = ExeIDToStackDeltas mapID, up_FileID = f, up_Inner = Some inner\<rparr>"
  let ?q = "queue (workers ?p ! workerIdx ?p f)"
  have i: "workerIdx ?p f < length (workers ?p)" using fresh by (simp add: fresh_id_def workerIdx_def)
  have q: "queue (workers (updateWorkers eb') ! workerIdx (updateWorkers eb') f) = ?q @ [?u]"
  proof -
    have "updateWorkers eb' = ?p\<lparr>workers := (workers ?p)[workerIdx ?p f := (workers ?p ! workerIdx ?p f)\<lparr>queue := ?q @ [?u]\<rparr>]\<rparr>"
      using enq fresh by (simp add: EnqueueUpdate_def fresh_id_def Let_def)
    then show ?thesis using i by (simp add: workerIdx_def)
  qed
  have old: "\<forall>u \<in> set ?q. outer_update u \<and> up_FileID u \<noteq> f" using fresh nth_mem [OF i] by (simp add: fresh_id_def)
  then have all: "\<forall>u \<in> set (?q @ [?u]). outer_update u" by (auto simp: outer_update_def)
  have "for_id f (?q @ [?u]) = [?u]" using old by (simp add: filter_empty_conv)
  then have "outer_view K f (visible K f eb') = view_update ?u (outer_view K f (kern eb'))"
    using fold_serve_view [OF laws all] by (simp add: visible_def q)
  then have "outer_view K f (visible K f eb') mapID = Some (VMap inner)"
    using fresh outer by (simp add: view_update_def outer_view_def fresh_id_def)
  then show "bpf_Lookup K (ExeIDToStackDeltas mapID) (K64 f) (visible K f eb') = Some (VMap inner)"
    by (simp add: outer_view_def)
  show "bpf_Lookup K m key (visible K f eb') = bpf_Lookup K m key (kern eb')" if "\<forall>b. m \<noteq> ExeIDToStackDeltas b"
    using fold_serve_other [OF laws all that] by (simp add: visible_def q)
qed

lemma loadDeltas_visible:
  assumes laws: "bpf_laws K" and size: "array_size K" and ok: "index_ok K st" and fresh: "fresh_id K f (ebpf st)"
    and run: "loadDeltas K f iv st = Ret (Inr ref, st')"
    and fits: "iv_fits iv (entries (unwindInfoIndex st') (iv_calls iv))"
  shows "tables K (visible K f (ebpf st')) f (page_of (Start (hd (Blocks iv)))) (iv_pages iv)
      (entries (unwindInfoIndex st') (iv_calls iv)) \<and>
    index_ok K st' \<and> indexed (unwindInfoIndex st') (iv_calls iv) \<and>
    (\<forall>key. bpf_Lookup K UnwindInfoArray key (visible K f (ebpf st')) = bpf_Lookup K UnwindInfoArray key (kern (ebpf st')))"
proof (rule loadDeltas_success [OF laws size ok run fits])
  let ?ps = "entries (unwindInfoIndex st') (iv_calls iv)" and ?F = "page_of (Start (hd (Blocks iv)))"
  fix mapID inner
  assume ok': "index_ok K st'" "indexed (unwindInfoIndex st') (iv_calls iv)" and m: "8 \<le> mapID" "mapID \<le> 23"
    and enq: "EnqueueUpdate (ExeIDToStackDeltas mapID) f (Some (InnerMap inner)) (updateWorkers (ebpf st)) = Ret (updateWorkers (ebpf st'))"
    and inn: "\<And>i. i < length ?ps \<Longrightarrow> bpf_Lookup K (InnerMap inner) (K32 (of_nat i)) (kern (ebpf st')) =
       Some (VDelta \<lparr>AddressLow = ucast (fst (?ps ! i)), UnwindInfo_idx = snd (?ps ! i)\<rparr>)"
    and pages: "\<And>p. p < iv_pages iv \<Longrightarrow>
       bpf_Lookup K StackDeltaPageToInfo (KPage \<lparr>FileID = f, Page = of_nat ((?F + p) * 65536)\<rparr>) (kern (ebpf st')) =
       Some (VPageInfo \<lparr>FirstDelta = of_nat (less_count (?F + p) ?ps), pi_NumDeltas = of_nat (in_count (?F + p) ?ps), MapID = mapID\<rparr>)"
    and outer: "\<And>b key. bpf_Lookup K (ExeIDToStackDeltas b) key (kern (ebpf st')) = bpf_Lookup K (ExeIDToStackDeltas b) key (kern (ebpf st))"
  note vis = visible_after_enqueue [OF laws fresh enq outer]
  have "tables K (visible K f (ebpf st')) f ?F (iv_pages iv) ?ps"
    unfolding tables_def using m vis inn pages by (intro exI [of _ mapID] exI [of _ "InnerMap inner"]) simp
  then show ?thesis using ok' vis(2) by simp
qed

end
