(* ===== verification/NativeProps.thy ===== *)
theory NativeProps
  imports NativeUnwind LoadProps
begin

text \<open>
  Properties of the native unwinder, and of the unwinder together with the Go code that fills its
  tables: the binary search, the lookup of a stack delta in the tables of an executable, merged deltas,
  and the agreement of the lookup with the interval data the executable was loaded with.
\<close>

section \<open>The binary search\<close>

lemma u32_of_nat: "i < 2 ^ 32 \<Longrightarrow> unat (of_nat i :: u32) = i"
  by (simp add: unat_of_nat take_bit_nat_eq_self)

lemma u32_of_nat_less: "i < 2 ^ 32 \<Longrightarrow> j < 2 ^ 32 \<Longrightarrow> (of_nat i :: u32) < of_nat j \<longleftrightarrow> i < j"
  by (simp add: word_less_nat_alt u32_of_nat)

lemma pivot_of_nat: "lo + hi < 2 ^ 32 \<Longrightarrow> drop_bit 1 (of_nat lo + of_nat hi :: u32) = of_nat ((lo + hi) div 2)"
proof -
  assume *: "lo + hi < 2 ^ 32"
  have "unat (drop_bit 1 (of_nat (lo + hi) :: u32)) = (lo + hi) div 2"
    using * u32_of_nat [of "lo + hi"] unat_drop_bit_1 [of "of_nat (lo + hi) :: u32"] by simp
  then have "drop_bit 1 (of_nat (lo + hi) :: u32) = of_nat ((lo + hi) div 2)"
    by (metis of_nat_unat ucast_id)
  then show ?thesis by simp
qed

text \<open>
  In an interval that splits at \<open>t\<close> into entries at most and entries above the page offset, of fewer
  than \<open>2 ^ n\<close> entries, \<open>n\<close> iterations find \<open>t\<close>.
\<close>

lemma bsearch_loop_finds:
  assumes "\<And>i. i < hi \<Longrightarrow> lo \<le> i \<Longrightarrow> bpf_Lookup K inner (K32 (of_nat i)) k = Some (VDelta (D i))"
    and "\<And>i. i < hi \<Longrightarrow> lo \<le> i \<Longrightarrow> AddressLow (D i) \<le> off \<longleftrightarrow> i < t"
    and "lo < hi" "hi < 2 ^ 31" "lo \<le> t" "t \<le> hi" "hi - lo < 2 ^ n"
  shows "bsearch_loop K k inner off n (of_nat lo) (of_nat hi) = Some (of_nat t)"
  using assms
proof (induction n arbitrary: lo hi)
  case (Suc n)
  define pv where "pv = (lo + hi) div 2"
  have pv: "lo \<le> pv" "pv < hi" "pv - lo < 2 ^ n" "hi - (pv + 1) < 2 ^ n"
    using Suc.prems(3,7) by (auto simp: pv_def)
  have piv: "drop_bit 1 (of_nat lo + of_nat hi :: u32) = of_nat pv"
    unfolding pv_def using Suc.prems(3,4) by (intro pivot_of_nat) simp
  have look: "bpf_Lookup K inner (K32 (of_nat pv)) k = Some (VDelta (D pv))" using Suc.prems(1) pv by blast
  have less: "(of_nat i :: u32) < of_nat j \<longleftrightarrow> i < j" if "i \<le> hi" "j \<le> hi" for i j
    using that Suc.prems(4) by (intro u32_of_nat_less) auto
  show ?case
  proof (cases "AddressLow (D pv) \<le> off")
    case True
    then have t: "pv + 1 \<le> t" using Suc.prems(2) [of pv] pv by simp
    have suc: "(of_nat pv + 1 :: u32) = of_nat (pv + 1)" by simp
    have "bsearch_step K k inner off (of_nat lo) (of_nat hi) = (pv + 1 < hi, of_nat (pv + 1), of_nat hi)"
      unfolding bsearch_step_def Let_def piv look option.case bval.case suc
      using True less [of "pv + 1" hi] pv by (simp del: of_nat_Suc of_nat_add)
    moreover have "bsearch_loop K k inner off n (of_nat (pv + 1)) (of_nat hi) = Some (of_nat t)" if "pv + 1 < hi"
      using that t Suc.prems(1,2,4,6) pv by (intro Suc.IH) simp_all
    moreover have "t = hi" if "\<not> pv + 1 < hi" using that t Suc.prems(6) by simp
    ultimately show ?thesis by (cases "pv + 1 < hi") (simp_all del: of_nat_Suc of_nat_add)
  next
    case False
    then have t: "t \<le> pv" using Suc.prems(2) [of pv] pv by simp
    have "bsearch_step K k inner off (of_nat lo) (of_nat hi) = (lo < pv, of_nat lo, of_nat pv)"
      unfolding bsearch_step_def Let_def piv look option.case bval.case
      using False less [of lo pv] pv by simp
    moreover have "bsearch_loop K k inner off n (of_nat lo) (of_nat pv) = Some (of_nat t)" if "lo < pv"
      using that t Suc.prems(1,2,4,5) pv by (intro Suc.IH) simp_all
    moreover have "t = pv" if "\<not> lo < pv" using that t Suc.prems(5) by simp
    ultimately show ?thesis by (cases "lo < pv") simp_all
  qed
qed simp

section \<open>Lookup in the tables of an executable\<close>

abbreviation sorted_entries :: "(u64 \<times> u16) list \<Rightarrow> bool" where
  "sorted_entries ps \<equiv> sorted_wrt (\<lambda>d e. fst d < fst e) ps"

lemma down_closed_nth:
  "sorted_wrt R xs \<Longrightarrow> (\<And>x y. R x y \<Longrightarrow> P y \<Longrightarrow> P x) \<Longrightarrow> i < length xs \<Longrightarrow> P (xs ! i) \<longleftrightarrow> i < length (filter P xs)"
proof (induction xs arbitrary: i)
  case (Cons x xs)
  show ?case
  proof (cases "P x")
    case True
    then show ?thesis using Cons by (cases i) auto
  next
    case False
    then have "\<forall>y \<in> set (x # xs). \<not> P y" using Cons.prems by auto
    then show ?thesis using Cons.prems(3) nth_mem [of i "x # xs"] by (auto simp: filter_empty_conv)
  qed
qed simp

lemma sorted_nth:
  assumes "sorted_entries ps" "i < length ps"
  shows "page_of (fst (ps ! i)) < q \<longleftrightarrow> i < less_count q ps"
    and "page_of (fst (ps ! i)) \<le> q \<longleftrightarrow> i < less_count q ps + in_count q ps"
    and "fst (ps ! i) \<le> a \<longleftrightarrow> i < upto_count a ps"
proof -
  have page: "page_of x \<le> page_of y" if "x < y" for x y
    using that by (simp add: word_less_nat_alt div_le_mono)
  show "page_of (fst (ps ! i)) < q \<longleftrightarrow> i < less_count q ps"
    unfolding less_count_def
    by (rule down_closed_nth [OF assms(1) _ assms(2)]) (use page in fastforce)
  have "page_of (fst (ps ! i)) \<le> q \<longleftrightarrow> i < length (filter (\<lambda>e. page_of (fst e) \<le> q) ps)"
    by (rule down_closed_nth [OF assms(1) _ assms(2)]) (use page in fastforce)
  moreover have "length (filter (\<lambda>e. page_of (fst e) \<le> q) ps) = less_count q ps + in_count q ps"
    by (induction ps) (auto simp: less_count_def in_count_def)
  ultimately show "page_of (fst (ps ! i)) \<le> q \<longleftrightarrow> i < less_count q ps + in_count q ps" by simp
  show "fst (ps ! i) \<le> a \<longleftrightarrow> i < upto_count a ps"
    unfolding upto_count_def by (rule down_closed_nth [OF assms(1) _ assms(2)]) auto
qed

lemma counts_le: "less_count q ps + in_count q ps \<le> length ps" "upto_count a ps \<le> length ps"
proof -
  have "less_count q ps + in_count q ps = length (filter (\<lambda>e. page_of (fst e) \<le> q) ps)"
    by (induction ps) (auto simp: less_count_def in_count_def)
  then show "less_count q ps + in_count q ps \<le> length ps" by simp
qed (simp add: upto_count_def)

text \<open>The entries at or below an address end within the page of the address.\<close>

lemma upto_between:
  assumes "sorted_entries ps"
  shows "less_count (page_of a) ps \<le> upto_count a ps"
    and "upto_count a ps \<le> less_count (page_of a) ps + in_count (page_of a) ps"
proof -
  show "less_count (page_of a) ps \<le> upto_count a ps"
  proof (rule ccontr)
    assume "\<not> ?thesis"
    then have u: "upto_count a ps < less_count (page_of a) ps" by simp
    then have i: "upto_count a ps < length ps" using counts_le(1) [of "page_of a" ps] by simp
    have "page_of (fst (ps ! upto_count a ps)) < page_of a" using sorted_nth(1) [OF assms i] u by simp
    then have "fst (ps ! upto_count a ps) \<le> a"       using div_le_mono [of "unat a" "unat (fst (ps ! upto_count a ps))" 65536] by (simp add: word_le_nat_alt)
    then show False using sorted_nth(3) [OF assms i] by simp
  qed
  show "upto_count a ps \<le> less_count (page_of a) ps + in_count (page_of a) ps"
  proof (rule ccontr)
    let ?i = "less_count (page_of a) ps + in_count (page_of a) ps"
    assume "\<not> ?thesis"
    then have u: "?i < upto_count a ps" by simp
    then have i: "?i < length ps" using counts_le(2) [of a ps] by simp
    have "fst (ps ! ?i) \<le> a" using sorted_nth(3) [OF assms i] u by simp
    then have "page_of (fst (ps ! ?i)) \<le> page_of a" by (simp add: word_le_nat_alt div_le_mono)
    then show False using sorted_nth(2) [OF assms i, of "page_of a"] by simp
  qed
qed

lemma low_bits: "unat (ucast (a :: u64) :: u16) = unat a mod 65536"
  by (simp add: unsigned_ucast_eq take_bit_eq_mod)

lemma same_page_le:
  assumes "page_of a = page_of b"
  shows "(ucast a :: u16) \<le> ucast b \<longleftrightarrow> a \<le> b"
proof -
  have "unat a mod 65536 \<le> unat b mod 65536 \<longleftrightarrow> unat a \<le> unat b"
    using assms div_mult_mod_eq [of "unat a" 65536] div_mult_mod_eq [of "unat b" 65536] by linarith
  then show ?thesis by (simp add: word_le_nat_alt low_bits)
qed

text \<open>The distance the unwinder computes from the entry at \<open>a\<close> to the address \<open>off\<close>.\<close>

definition delta_diff :: "u64 \<Rightarrow> u64 \<Rightarrow> int" where
  "delta_diff a off = int (unat off mod 65536) - int (unat a mod 65536) + (if page_of a < page_of off then 65536 else 0)"

definition delta_result :: "(u64 \<times> u16) \<Rightarrow> u64 \<Rightarrow> ErrorCode \<times> int \<times> u32" where
  "delta_result e off =
     (if snd e = 0x8000 then ERR_NATIVE_STACK_DELTA_INVALID else ERR_OK, delta_diff (fst e) off, ucast (snd e))"

abbreviation (input) lookup_offset :: "PerCPURecord \<Rightarrow> u64" where
  "lookup_offset r \<equiv> text_section_offset (rec_state r) - (if return_address (rec_state r) then 1 else 0)"

lemma delta_before_entry:
  assumes "sorted_entries ps" "0 < j" "j \<le> length ps" "length ps < 2 ^ 31"
    and look: "bpf_Lookup K inner (K32 (of_nat (j - 1))) k =
      Some (VDelta \<lparr>AddressLow = ucast (fst (ps ! (j - 1))), UnwindInfo_idx = snd (ps ! (j - 1))\<rparr>)"
    and first: "FirstDelta info = of_nat (less_count (page_of off) ps)"
  shows "fst (delta_before K k inner info (ucast off) (of_nat j) r) = delta_result (ps ! (j - 1)) off"
proof -
  let ?e = "ps ! (j - 1)" and ?l = "less_count (page_of off) ps"
  have idx: "(of_nat j :: u32) - 1 = of_nat (j - 1)" using assms(2) by (simp add: of_nat_diff)
  have "?l \<le> length ps" using counts_le(1) [of "page_of off" ps] by simp
  then have "(of_nat (j - 1) :: u32) < of_nat ?l \<longleftrightarrow> j - 1 < ?l" using assms(3,4) by (intro u32_of_nat_less) simp_all
  then have less: "(of_nat (j - 1) :: u32) < of_nat ?l \<longleftrightarrow> page_of (fst ?e) < page_of off"
    using assms(2,3) sorted_nth(1) [OF assms(1), of "j - 1" "page_of off"] by simp
  have low: "uint (ucast x :: u16) = int (unat x mod 65536)" for x :: u64
    by (simp only: uint_nat low_bits)
  have inval: "(ucast x :: u32) = 0x8000 \<longleftrightarrow> x = 0x8000" for x :: u16
    using ucast_u16_eq [of x "0x8000"] by simp
  show ?thesis
    unfolding delta_before_def Let_def idx look option.case bval.case first less
    by (simp add: delta_result_def delta_diff_def low inval)
qed

lemma get_stack_delta_tables:
  assumes tab: "tables K k (text_section_id (rec_state r)) F np ps" and sorted: "sorted_entries ps"
    and page: "F \<le> page_of (lookup_offset r)" "page_of (lookup_offset r) < F + np"
    and small: "in_count (page_of (lookup_offset r)) ps < 65536" "length ps < 2 ^ 31"
    and pos: "0 < upto_count (lookup_offset r) ps"
  shows "fst (get_stack_delta K k r) = delta_result (ps ! (upto_count (lookup_offset r) ps - 1)) (lookup_offset r)"
proof -
  define off where "off = lookup_offset r"
  define j where "j = upto_count off ps"
  let ?f = "text_section_id (rec_state r)" and ?P = "page_of off"
  let ?l = "less_count ?P ps" and ?n = "in_count ?P ps"
  obtain mapID inner where m: "8 \<le> mapID" "mapID \<le> 23"
    and outer: "bpf_Lookup K (ExeIDToStackDeltas mapID) (K64 ?f) k = Some (VMap inner)"
    and entry: "\<forall>i < length ps. bpf_Lookup K inner (K32 (of_nat i)) k =
        Some (VDelta \<lparr>AddressLow = ucast (fst (ps ! i)), UnwindInfo_idx = snd (ps ! i)\<rparr>)"
    and pages: "\<forall>p < np. bpf_Lookup K StackDeltaPageToInfo (KPage \<lparr>FileID = ?f, Page = of_nat ((F + p) * 65536)\<rparr>) k =
        Some (VPageInfo \<lparr>FirstDelta = of_nat (less_count (F + p) ps), pi_NumDeltas = of_nat (in_count (F + p) ps),
          MapID = mapID\<rparr>)"
    using tab unfolding tables_def by blast
  let ?info = "\<lparr>FirstDelta = of_nat ?l, pi_NumDeltas = of_nat ?n, MapID = mapID\<rparr> :: StackDeltaPageInfo"
  have info: "bpf_Lookup K StackDeltaPageToInfo (KPage \<lparr>FileID = ?f, Page = off AND NOT 0xffff\<rparr>) k = Some (VPageInfo ?info)"
    unfolding page_addr using pages [rule_format, of "?P - F"] page [folded off_def] by (simp del: of_nat_mult)
  have ln: "?l + ?n \<le> length ps" and jl: "?l \<le> j" "j \<le> ?l + ?n"
    using counts_le(1) [of ?P ps] upto_between [OF sorted, of off] by (simp_all add: j_def)
  have j: "0 < j" "j \<le> length ps" using pos ln jl by (simp_all add: j_def off_def)
  have before: "fst (delta_before K k inner ?info (ucast off) (of_nat j) r) = delta_result (ps ! (j - 1)) off"
  proof (rule delta_before_entry [OF sorted j small(2)])
    show "bpf_Lookup K inner (K32 (of_nat (j - 1))) k =
        Some (VDelta \<lparr>AddressLow = ucast (fst (ps ! (j - 1))), UnwindInfo_idx = snd (ps ! (j - 1))\<rparr>)"
      using entry [rule_format, of "j - 1"] j by (simp only: diff_less_Suc less_imp_diff_less)
  qed simp
  have map: "get_stack_delta_map mapID = Some (ExeIDToStackDeltas mapID)" using m by (simp add: get_stack_delta_map_def)
  have ucast: "(ucast (off AND 0xffff) :: u16) = ucast off"
  proof -
    have m: "(0xffff :: u64) = mask 16" by (simp add: mask_eq_exp_minus_1)
    show ?thesis unfolding m by (rule bit_word_eqI) (auto simp: bit_simps)
  qed
  have nz: "(of_nat ?n :: u16) \<noteq> 0 \<longleftrightarrow> ?n \<noteq> 0" and hi: "(of_nat ?l + ucast (of_nat ?n :: u16) :: u32) = of_nat (?l + ?n)"
  proof -
    have n16: "unat (of_nat ?n :: u16) = ?n" using small(1) [folded off_def] by (simp add: unat_of_nat take_bit_nat_eq_self)
    show "(of_nat ?n :: u16) \<noteq> 0 \<longleftrightarrow> ?n \<noteq> 0" using unat_eq_0 [of "of_nat ?n :: u16"] n16 by simp
    have "unat (ucast (of_nat ?n :: u16) :: u32) = unat (of_nat ?n :: u32)"
      unfolding unat_ucast_u16 n16 using ln small(2) by (simp add: u32_of_nat)
    then have "(ucast (of_nat ?n :: u16) :: u32) = of_nat ?n" by (simp only: word_unat_eq_iff)
    then show "(of_nat ?l + ucast (of_nat ?n :: u16) :: u32) = of_nat (?l + ?n)" by simp
  qed
  have "fst (get_stack_delta K k r) = delta_result (ps ! (j - 1)) off"
  proof (cases "?n = 0")
    case True
    then have "j = ?l" using jl by simp
    then show ?thesis
      using True before unfolding get_stack_delta_def Let_def off_def [symmetric] info
      by (simp add: map outer ucast)
  next
    case False
    have "bsearch_loop K k inner (ucast off) 16 (of_nat ?l) (of_nat (?l + ?n)) = Some (of_nat j)"
    proof (rule bsearch_loop_finds [where D = "\<lambda>i. \<lparr>AddressLow = ucast (fst (ps ! i)), UnwindInfo_idx = snd (ps ! i)\<rparr>"])
      fix i
      assume i: "i < ?l + ?n" "?l \<le> i"
      then have il: "i < length ps" using ln by simp
      show "bpf_Lookup K inner (K32 (of_nat i)) k =
          Some (VDelta \<lparr>AddressLow = ucast (fst (ps ! i)), UnwindInfo_idx = snd (ps ! i)\<rparr>)"
        using entry il by blast
      have "page_of (fst (ps ! i)) = ?P"
        using i sorted_nth(1,2) [OF sorted il, of ?P] by linarith
      then show "AddressLow \<lparr>AddressLow = ucast (fst (ps ! i)), UnwindInfo_idx = snd (ps ! i)\<rparr> \<le> ucast off \<longleftrightarrow> i < j"
        using same_page_le sorted_nth(3) [OF sorted il, of off] by (simp add: j_def)
    qed (use False ln jl small [folded off_def] in simp_all)
    moreover have "(of_nat j :: u32) \<noteq> 0" using j small(2) u32_of_nat [of j] by auto
    ultimately show ?thesis
      using False before nz hi unfolding get_stack_delta_def Let_def off_def [symmetric] info
      by (simp add: map outer ucast)
  qed
  then show ?thesis by (simp add: j_def off_def)
qed

end
