(* ===== verification/LookupProps.thy ===== *)
theory LookupProps
  imports NativeProps
begin

text \<open>
  The unwinder and the Go code that fills its tables, together: for an address of a loaded executable
  the eBPF program applies the rule that the interval data has for that address.
\<close>

section \<open>Merged deltas\<close>

text \<open>The rule a stored delta stands for, \<open>diff\<close> bytes behind its address.\<close>

definition eff :: "UnwindInfo \<Rightarrow> int \<Rightarrow> UnwindInfo" where
  "eff i diff = i\<lparr>MergeOpcode := 0, Param := merged_param i diff\<rparr>"

lemma eff_unmerged: "MergeOpcode i = 0 \<Longrightarrow> eff i diff = i"
  by (simp add: eff_def merged_param_def)

lemma calculateMergeOpcode_cases:
  assumes "calculateMergeOpcode d e \<noteq> 0"
  obtains n where "n = 1 \<or> n = 2" "unat (Offset e - Offset d) = n"
    "calculateMergeOpcode d e = of_nat n \<and> Param (Info e) = Param (Info d) + 8 \<or>
     calculateMergeOpcode d e = of_nat n OR 0x80 \<and> Param (Info e) = Param (Info d) - 8"
    "BaseReg (Info e) = BaseReg (Info d)" "AuxBaseReg (Info e) = AuxBaseReg (Info d)"
    "AuxParam (Info e) = AuxParam (Info d)" "Flags (Info d) AND UnwindFlagCommand = 0"
proof -
  let ?n = "Offset e - Offset d"
  have n: "\<not> ?n < 1" "\<not> ?n > 2" and rest: "BaseReg (Info e) = BaseReg (Info d)" "AuxBaseReg (Info e) = AuxBaseReg (Info d)"
    "AuxParam (Info e) = AuxParam (Info d)" "Flags (Info d) AND UnwindFlagCommand = 0"
    and par: "calculateMergeOpcode d e = ucast ?n \<and> Param (Info e) - Param (Info d) = 8 \<or>
      calculateMergeOpcode d e = ucast ?n OR 0x80 \<and> Param (Info e) - Param (Info d) = - 8"
    using assms by (auto simp: calculateMergeOpcode_def Let_def split: if_split_asm)
  have "1 \<le> unat ?n" "unat ?n \<le> 2" using n by (simp_all add: word_less_nat_alt not_less)
  then have n12: "unat ?n = 1 \<or> unat ?n = 2" by linarith
  have "(ucast ?n :: u8) = of_nat (unat ?n)" by (simp add: of_nat_unat)
  then show thesis
    using that [of "unat ?n"] n12 rest par by (simp add: algebra_simps)
qed

lemma merged_rule:
  assumes "calculateMergeOpcode d e \<noteq> 0" "Flags (Info e) = Flags (Info d)"
    and "MergeOpcode (Info d) = 0" "MergeOpcode (Info e) = 0"
  shows "eff ((Info d)\<lparr>MergeOpcode := calculateMergeOpcode d e\<rparr>) diff =
    (if diff < int (unat (Offset e - Offset d)) then Info d else Info e)"
proof -
  obtain n where n: "n = 1 \<or> n = 2" "unat (Offset e - Offset d) = n"
    and m: "calculateMergeOpcode d e = of_nat n \<and> Param (Info e) = Param (Info d) + 8 \<or>
      calculateMergeOpcode d e = of_nat n OR 0x80 \<and> Param (Info e) = Param (Info d) - 8"
    and rest: "BaseReg (Info e) = BaseReg (Info d)" "AuxBaseReg (Info e) = AuxBaseReg (Info d)" "AuxParam (Info e) = AuxParam (Info d)"
    by (rule calculateMergeOpcode_cases [OF assms(1)])
  have "(Info d)\<lparr>MergeOpcode := 0, Param := Param (Info e)\<rparr> = Info e" using rest assms(2-4) by simp
  moreover have "merged_param ((Info d)\<lparr>MergeOpcode := calculateMergeOpcode d e\<rparr>) diff =
      (if diff < int n then Param (Info d) else Param (Info e))"
    using n(1) m by (elim disjE conjE) (simp_all add: merged_param_def)
  ultimately show ?thesis using n(2) assms(3) by (simp add: eff_def)
qed


definition example_deltas :: "StackDelta list" where
  "example_deltas =
     (let rule = (\<lambda>n. zero_UnwindInfo\<lparr>BaseReg := UnwindRegSp, Param := n\<rparr>)
      in [\<lparr>Offset = 0, Info = rule 8\<rparr>, \<lparr>Offset = 1, Info = rule 16\<rparr>, \<lparr>Offset = 10, Info = rule 8\<rparr>])"


section \<open>The calls of a block\<close>

text \<open>
  The deltas of a block as the extraction builds them: rules without merge opcode, commands in
  the range of the table's format, and none that moves its address (signal frames).  Two deltas that are
  close enough to be merged have the same flags.
\<close>

definition delta_ok :: "StackDelta \<Rightarrow> bool" where
  "delta_ok d \<longleftrightarrow> MergeOpcode (Info d) = 0 \<and>
     (Flags (Info d) AND UnwindFlagCommand \<noteq> 0 \<longrightarrow> Param (Info d) < 0x8000 \<and> Param (Info d) \<noteq> UnwindCommandSignal)"

definition deltas_ok :: "StackDelta list \<Rightarrow> bool" where
  "deltas_ok ds \<longleftrightarrow> (\<forall>d \<in> set ds. delta_ok d) \<and> sorted_wrt (\<lambda>d e. Offset d < Offset e) ds \<and>
     successively (\<lambda>d e. calculateMergeOpcode d e \<noteq> 0 \<longrightarrow> Flags (Info e) = Flags (Info d)) ds"

lemma deltas_ok_Cons: "deltas_ok (d # ds) \<Longrightarrow> deltas_ok ds"
  by (cases ds) (auto simp: deltas_ok_def)

lemma deltas_ok_merge:
  "deltas_ok (d # e # ds) \<Longrightarrow> delta_ok d \<and> delta_ok e \<and> Offset d < Offset e \<and>
     (calculateMergeOpcode d e \<noteq> 0 \<longrightarrow> Flags (Info e) = Flags (Info d))"
  by (simp add: deltas_ok_def)

lemma delta_addr_ok: "delta_ok d \<Longrightarrow> delta_addr start d = start + ucast (Offset d)"
  by (auto simp: delta_addr_def delta_ok_def)

lemma info_at_Cons:
  "Offset d \<le> off \<Longrightarrow> info_at (d # ds) off = (case info_at ds off of None \<Rightarrow> Some (Info d) | Some i \<Rightarrow> Some i)"
  by (cases "filter (\<lambda>d. Offset d \<le> off) ds") (auto simp: info_at_def)

lemma info_at_None: "\<forall>d \<in> set ds. off < Offset d \<Longrightarrow> info_at ds off = None"
  by (simp add: info_at_def filter_empty_conv not_le)

text \<open>The last call at or before an address.\<close>

abbreviation (input) upto :: "u64 \<Rightarrow> (u64 \<times> 'x) list \<Rightarrow> (u64 \<times> 'x) list" where
  "upto a cs \<equiv> filter (\<lambda>c. fst c \<le> a) cs"

lemma block_calls_addr: "c \<in> set (block_calls start ui ds) \<Longrightarrow> \<exists>d \<in> set ds. fst c = delta_addr start d"
proof (induction ds arbitrary: ui)
  case (Cons d ds)
  then show ?case by (auto split: if_split_asm)
qed simp

text \<open>Addresses of deltas do not wrap around.\<close>

definition in_range :: "u64 \<Rightarrow> u32 \<Rightarrow> bool" where
  "in_range start off \<longleftrightarrow> unat start + unat off < 2 ^ 64"

lemma unat_ucast_u32: "unat (ucast (x :: u32) :: u64) = unat x"
proof -
  have "unat x < 2 ^ 32" using unsigned_less [of x] by simp
  then have "unat x < 2 ^ 64" by simp
  then show ?thesis by (simp add: unsigned_ucast_eq take_bit_nat_eq_self)
qed

lemma unat_addr: "in_range start off \<Longrightarrow> unat (start + ucast off) = unat start + unat off"
  by (simp add: in_range_def unat_word_ariths unat_ucast_u32)

lemma addr_le_iff: "in_range start x \<Longrightarrow> in_range start y \<Longrightarrow> start + ucast x \<le> start + ucast y \<longleftrightarrow> x \<le> y"
  by (simp add: word_le_nat_alt unat_addr)

lemma upto_none:
  assumes "deltas_ok ds" "\<forall>d \<in> set ds. in_range start (Offset d)" "in_range start off" "\<forall>d \<in> set ds. off < Offset d"
  shows "upto (start + ucast off) (block_calls start ui ds) = []"
proof -
  have "\<not> fst c \<le> start + ucast off" if c: "c \<in> set (block_calls start ui ds)" for c
  proof -
    obtain d where d: "d \<in> set ds" "fst c = delta_addr start d" using block_calls_addr [OF c] by blast
    then have "fst c = start + ucast (Offset d)" using assms(1) delta_addr_ok by (simp add: deltas_ok_def)
    then show ?thesis using d(1) assms(2-4) by (simp add: addr_le_iff not_le)
  qed
  then show ?thesis by (simp add: filter_empty_conv)
qed

text \<open>The rule of the last call, at its distance, is what the deltas say.\<close>

definition last_rule :: "u64 \<Rightarrow> (u64 \<times> UnwindInfo) list \<Rightarrow> UnwindInfo option" where
  "last_rule a cs = (case upto a cs of [] \<Rightarrow> None
     | c # cs' \<Rightarrow> Some (eff (snd (last (c # cs'))) (int (unat a) - int (unat (fst (last (c # cs')))))))"

lemma last_rule_Cons:
  "fst c \<le> a \<Longrightarrow> last_rule a (c # cs) =
     (case last_rule a cs of None \<Rightarrow> Some (eff (snd c) (int (unat a) - int (unat (fst c)))) | Some i \<Rightarrow> Some i)"
  by (cases "upto a cs") (auto simp: last_rule_def)

lemma last_rule_none: "upto a cs = [] \<Longrightarrow> last_rule a cs = None"
  by (simp add: last_rule_def)

lemma block_calls_rule:
  "deltas_ok ds \<Longrightarrow> \<forall>d \<in> set ds. in_range start (Offset d) \<Longrightarrow> in_range start off \<Longrightarrow> MergeOpcode ui = 0 \<Longrightarrow>
   last_rule (start + ucast off) (block_calls start ui ds) = info_at ds off"
proof (induction ds arbitrary: ui rule: induct_list012)
  case 1
  then show ?case by (simp add: last_rule_def info_at_def)
next
  case (2 d)
  have d: "delta_ok d" using 2(1) by (simp add: deltas_ok_def)
  show ?case
  proof (cases "Offset d \<le> off")
    case True
    then show ?thesis
      using 2 d addr_le_iff [of start "Offset d" off]
      by (simp add: last_rule_Cons info_at_Cons delta_addr_ok delta_info_def last_rule_def eff_unmerged delta_ok_def info_at_def)
  next
    case False
    then show ?thesis using 2 d upto_none [OF 2(1-3), of ui] info_at_None [of "[d]" off] by (simp add: last_rule_def not_le)
  qed
next
  case (3 d e ds)
  note ok = deltas_ok_merge [OF 3(3)]
  have ok2: "deltas_ok (e # ds)" "deltas_ok ds" using 3(3) deltas_ok_Cons by blast+
  let ?a = "start + ucast off" and ?m = "calculateMergeOpcode d e"
  have later: "\<forall>x \<in> set ds. Offset e < Offset x" using 3(3) by (simp add: deltas_ok_def)
  show ?case
  proof (cases "Offset d \<le> off")
    case False
    then have "\<forall>x \<in> set (d # e # ds). off < Offset x" using ok later by auto
    then show ?thesis using upto_none [OF 3(3-5)] info_at_None by (simp add: last_rule_none)
  next
    case True
    have da: "delta_addr start d = start + ucast (Offset d)" "start + ucast (Offset d) \<le> ?a"
      using True ok 3(4,5) by (simp_all add: delta_addr_ok addr_le_iff)
    have diff: "int (unat ?a) - int (unat (start + ucast (Offset d))) = int (unat off) - int (unat (Offset d))"
      using 3(4,5) by (simp add: unat_addr)
    show ?thesis
    proof (cases "?m = 0")
      case m0: True
      have "MergeOpcode (Info d) = 0" using ok by (simp add: delta_ok_def)
      then have "delta_info d (e # ds) = Info d" using m0 by (simp add: delta_info_def)
      then show ?thesis
        using 3(2) [OF ok2(1), of "Info d"] 3(4-6) ok True da
        by (simp add: last_rule_Cons info_at_Cons eff_unmerged delta_ok_def block_calls.simps(2) [of start ui]
          del: block_calls.simps(2) split: option.split)
    next
      case m1: False
      let ?i = "(Info d)\<lparr>MergeOpcode := ?m\<rparr>"
      have rest: "last_rule ?a (block_calls start (?i\<lparr>MergeOpcode := 0\<rparr>) ds) = info_at ds off"
        using 3(1) [OF ok2(2)] 3(4,5) by simp
      have calls: "block_calls start ui (d # e # ds) =
          (start + ucast (Offset d), ?i) # block_calls start (?i\<lparr>MergeOpcode := 0\<rparr>) ds"
        using 3(6) m1 da by (simp add: delta_info_def)
      have rule: "eff ?i (int (unat ?a) - int (unat (start + ucast (Offset d)))) = (if off < Offset e then Info d else Info e)"
      proof -
        have "unat (Offset e - Offset d) = unat (Offset e) - unat (Offset d)" "unat (Offset d) < unat (Offset e)"
          using ok by (simp_all add: unat_sub word_less_nat_alt word_le_nat_alt)
        then have "int (unat off) - int (unat (Offset d)) < int (unat (Offset e - Offset d)) \<longleftrightarrow> off < Offset e"
          by (simp only: word_less_nat_alt) linarith
        then show ?thesis using merged_rule [of d e "int (unat off) - int (unat (Offset d))"] ok m1 unfolding diff by (simp only: delta_ok_def if_True if_False simp_thms)
      qed
      show ?thesis
      proof (cases "off < Offset e")
        case before: True
        then have "info_at ds off = None" "info_at (e # ds) off = None" using later by (auto intro!: info_at_None intro: less_trans)
        then show ?thesis unfolding calls using da rest rule True before by (simp add: last_rule_Cons info_at_Cons)
      next
        case False
        then show ?thesis
          unfolding calls using da rest rule True by (simp add: last_rule_Cons info_at_Cons not_less split: option.split)
      qed
    qed
  qed
qed

section \<open>The calls of all blocks\<close>

definition block_ok :: "BasicBlock \<Rightarrow> bool" where
  "block_ok b \<longleftrightarrow> deltas_ok (Deltas b) \<and> Deltas b \<noteq> [] \<and> Offset (hd (Deltas b)) = 0 \<and>
     (\<forall>d \<in> set (Deltas b). unat (Start b) + unat (Offset d) < unat (End b)) \<and>
     unat (End b) + 15 < 2 ^ 64 \<and> unat (End b) \<le> unat (Start b) + 2 ^ 32"

definition blocks_ok :: "BasicBlock list \<Rightarrow> bool" where
  "blocks_ok bs \<longleftrightarrow> blocks_wf bs \<and> (\<forall>b \<in> set bs. block_ok b)"

lemma blocks_ok_Cons: "blocks_ok (b # bs) \<Longrightarrow> block_ok b \<and> blocks_ok bs \<and> (\<forall>c \<in> set bs. End b \<le> Start c) \<and> Start b < End b"
  by (auto simp: blocks_ok_def blocks_wf_def)

lemma block_ok_range: "block_ok b \<Longrightarrow> d \<in> set (Deltas b) \<Longrightarrow> in_range (Start b) (Offset d)"
  by (force simp: block_ok_def in_range_def)

lemma block_info_merge: "deltas_ok ds \<Longrightarrow> MergeOpcode ui = 0 \<Longrightarrow> MergeOpcode (block_info ui ds) = 0"
proof (induction ds arbitrary: ui rule: induct_list012)
  case (3 d e ds)
  have ok: "deltas_ok (e # ds)" "deltas_ok ds" using 3(3) deltas_ok_Cons by blast+
  show ?case
  proof (cases "calculateMergeOpcode d e = 0")
    case True
    then show ?thesis using 3(2) [OF ok(1)] 3(4) by (simp add: delta_info_def)
  next
    case False
    then show ?thesis using 3(1) [OF ok(2)] 3(4) by (simp add: delta_info_def)
  qed
qed (simp_all add: delta_info_def deltas_ok_def delta_ok_def)

lemma block_call_bounds:
  assumes "block_ok b" "c \<in> set (block_calls (Start b) ui (Deltas b))"
  shows "Start b \<le> fst c" "fst c < End b"
proof -
  obtain d where d: "d \<in> set (Deltas b)" "fst c = delta_addr (Start b) d" using block_calls_addr [OF assms(2)] by blast
  have "delta_ok d" using d(1) assms(1) by (simp add: block_ok_def deltas_ok_def)
  then have "unat (fst c) = unat (Start b) + unat (Offset d)"
    using d unat_addr [OF block_ok_range [OF assms(1) d(1)]] by (simp add: delta_addr_ok)
  then show "Start b \<le> fst c" "fst c < End b"
    using assms(1) d(1) by (auto simp: word_le_nat_alt word_less_nat_alt block_ok_def)
qed

lemma end_call_addr: "c \<in> set (end_calls b bs) \<Longrightarrow> fst c = End b"
  by (auto simp: end_calls_def split: if_split_asm)

lemma blocks_call_bounds:
  "blocks_ok bs \<Longrightarrow> c \<in> set (blocks_calls ui bs) \<Longrightarrow> \<exists>b \<in> set bs. Start b \<le> fst c \<and> fst c \<le> End b"
proof (induction bs arbitrary: ui)
  case (Cons b bs)
  note ok = blocks_ok_Cons [OF Cons.prems(1)]
  consider "c \<in> set (block_calls (Start b) ui (Deltas b))" | "c \<in> set (end_calls b bs)"
    | "c \<in> set (blocks_calls (block_info ui (Deltas b)) bs)"
    using Cons.prems(2) by auto
  then show ?case
  proof cases
    case 1
    then show ?thesis using block_call_bounds [of b c ui] ok by auto
  next
    case 2
    then show ?thesis using end_call_addr ok by auto
  next
    case 3
    then show ?thesis using Cons.IH ok by auto
  qed
qed simp

text \<open>For an address in a block only the calls of that block matter.\<close>

lemma last_rule_append: "last_rule a cs' \<noteq> None \<Longrightarrow> last_rule a (cs @ cs') = last_rule a cs'"
  by (cases "upto a cs'"; cases "upto a cs") (auto simp: last_rule_def)

lemma last_rule_front: "upto a cs' = [] \<Longrightarrow> last_rule a (cs @ cs') = last_rule a cs"
  by (simp add: last_rule_def)

lemma block_rule:
  assumes ok: "block_ok b" and a: "Start b \<le> a" "a < End b" and "MergeOpcode ui = 0"
  shows "last_rule a (block_calls (Start b) ui (Deltas b)) = info_at (Deltas b) (ucast (a - Start b))"
    and "info_at (Deltas b) (ucast (a - Start b)) \<noteq> None"
proof -
  let ?off = "ucast (a - Start b) :: u32"
  have "unat (a - Start b) = unat a - unat (Start b)" using a(1) by (simp add: unat_sub word_le_nat_alt)
  moreover have "unat a < unat (End b)" "unat (End b) \<le> unat (Start b) + 2 ^ 32" "unat (Start b) \<le> unat a"
    using a ok by (simp_all add: block_ok_def word_less_nat_alt word_le_nat_alt)
  ultimately have "unat (a - Start b) < 2 ^ 32" by linarith
  then have "unat ?off = unat a - unat (Start b)"
    using \<open>unat (a - Start b) = _\<close> by (simp add: unsigned_ucast_eq take_bit_nat_eq_self)
  then have range: "in_range (Start b) ?off" and "unat (Start b) + unat ?off = unat a"
    using a u64_bound [of a] by (simp_all add: in_range_def word_le_nat_alt)
  then have addr: "Start b + ucast ?off = a" using unat_addr [OF range] by (simp add: word_unat_eq_iff)
  have "deltas_ok (Deltas b)" using ok by (simp add: block_ok_def)
  then have "last_rule (Start b + ucast ?off) (block_calls (Start b) ui (Deltas b)) = info_at (Deltas b) ?off"
    using block_ok_range [OF ok] range assms(4) by (intro block_calls_rule) simp_all
  then show "last_rule a (block_calls (Start b) ui (Deltas b)) = info_at (Deltas b) ?off" unfolding addr .
  obtain d ds where "Deltas b = d # ds" "Offset d = 0" using ok by (cases "Deltas b") (auto simp: block_ok_def)
  then show "info_at (Deltas b) ?off \<noteq> None" by (simp add: info_at_def)
qed

lemma blocks_calls_rule:
  assumes "blocks_ok bs" "b \<in> set bs" "Start b \<le> a" "a < End b" "MergeOpcode ui = 0"
  shows "last_rule a (blocks_calls ui bs) = info_at (Deltas b) (ucast (a - Start b))"
  using assms
proof (induction bs arbitrary: ui)
  case (Cons c bs)
  note ok = blocks_ok_Cons [OF Cons.prems(1)]
  show ?case
  proof (cases "b = c")
    case True
    have "\<not> fst e \<le> a" if "e \<in> set (end_calls c bs @ blocks_calls (block_info ui (Deltas c)) bs)" for e
    proof -
      have "End b \<le> fst e"
        using that ok True end_call_addr [of e c bs] blocks_call_bounds [of bs e "block_info ui (Deltas c)"] by force
      then show ?thesis using Cons.prems(4) by simp
    qed
    then have "upto a (end_calls c bs @ blocks_calls (block_info ui (Deltas c)) bs) = []" by (simp only: filter_empty_conv) blast
    then show ?thesis
      using True block_rule [OF _ Cons.prems(3-5)] ok last_rule_front [of a _ "block_calls (Start c) ui (Deltas c)"] by simp
  next
    case False
    then have b: "b \<in> set bs" using Cons.prems(2) by simp
    have "MergeOpcode (block_info ui (Deltas c)) = 0"
      using ok Cons.prems(5) by (intro block_info_merge) (simp_all add: block_ok_def)
    then have ih: "last_rule a (blocks_calls (block_info ui (Deltas c)) bs) = info_at (Deltas b) (ucast (a - Start b))"
      using Cons.IH [OF _ b Cons.prems(3,4)] ok by simp
    moreover have "info_at (Deltas b) (ucast (a - Start b)) \<noteq> None"
      using block_rule(2) [OF _ Cons.prems(3-5)] Cons.prems(1) b by (auto simp: blocks_ok_def)
    ultimately show ?thesis
      using last_rule_append [of a _ "block_calls (Start c) ui (Deltas c) @ end_calls c bs"] by simp
  qed
qed simp

end
