(* ===== verification/UnwindProps.thy ===== *)
theory UnwindProps
  imports LookupProps
begin

text \<open>
  The whole path of an unwind rule: interval data, the tables \<open>loadDeltas\<close> fills, the worker that makes
  them visible, and the frame the eBPF program unwinds.
\<close>

section \<open>Entries are sorted\<close>

lemma block_calls_sorted:
  "deltas_ok ds \<Longrightarrow> \<forall>d \<in> set ds. in_range start (Offset d) \<Longrightarrow>
   sorted_wrt (\<lambda>c d. fst c < fst d) (block_calls start ui ds)"
proof (induction ds arbitrary: ui)
  case (Cons d ds)
  have ok: "deltas_ok ds" using Cons.prems(1) deltas_ok_Cons by blast
  have "delta_addr start d < fst c" if c: "c \<in> set (block_calls start ui' ds)" for ui' c
  proof -
    obtain e where e: "e \<in> set ds" "fst c = delta_addr start e" using block_calls_addr [OF c] by blast
    then have "Offset d < Offset e" "delta_ok d" "delta_ok e" using Cons.prems(1) by (simp_all add: deltas_ok_def)
    then show ?thesis using e Cons.prems(2) by (simp add: delta_addr_ok word_less_nat_alt unat_addr)
  qed
  then show ?case using Cons.IH [OF ok] Cons.prems(2) by simp
qed simp

lemma blocks_calls_sorted:
  "blocks_ok bs \<Longrightarrow> sorted_wrt (\<lambda>c d. fst c < fst d) (blocks_calls ui bs)"
proof (induction bs arbitrary: ui)
  case (Cons b bs)
  note ok = blocks_ok_Cons [OF Cons.prems]
  have blk: "sorted_wrt (\<lambda>c d. fst c < fst d) (block_calls (Start b) ui (Deltas b))"
    using ok block_ok_range by (intro block_calls_sorted) (auto simp: block_ok_def)
  have rest: "End b \<le> fst c" "bs \<noteq> [] \<and> (End b < Start (hd bs) \<longrightarrow> End b < fst c)"
    if c: "c \<in> set (blocks_calls ui' bs)" for ui' c
  proof -
    obtain x where x: "x \<in> set bs" "Start x \<le> fst c" using blocks_call_bounds [OF _ c] ok by blast
    then show "End b \<le> fst c" using ok by force
    have "Start (hd bs) \<le> Start x"
    proof (cases "x = hd bs")
      case False
      then obtain y ys where "bs = y # ys" "x \<in> set ys" using x(1) by (cases bs) auto
      then show ?thesis using ok by (force dest: blocks_ok_Cons)
    qed simp
    then show "bs \<noteq> [] \<and> (End b < Start (hd bs) \<longrightarrow> End b < fst c)" using x by force
  qed
  have gap: "End b < Start (hd bs)" if "End b + MinimumGap < Start (hd bs)"
  proof -
    have "unat (End b + MinimumGap) = unat (End b) + 15" using ok by (simp add: block_ok_def unat_word_ariths)
    then show ?thesis using that by (simp add: word_less_nat_alt)
  qed
  have "sorted_wrt (\<lambda>c d. fst c < fst d) (end_calls b bs @ blocks_calls (block_info ui (Deltas b)) bs)"
    using Cons.IH ok rest gap by (fastforce simp: end_calls_def sorted_wrt_append)
  moreover have "fst c < fst d" if "c \<in> set (block_calls (Start b) ui (Deltas b))"
    "d \<in> set (end_calls b bs @ blocks_calls (block_info ui (Deltas b)) bs)" for c d
    using block_call_bounds(2) [of b c ui] that ok rest(1) [of d] end_call_addr [of d b bs] by fastforce
  ultimately show ?case using blk by (simp add: sorted_wrt_append)
qed simp

abbreviation emits :: "(u64 \<times> u16) list \<Rightarrow> (u64 \<times> u16) list" where
  "emits es \<equiv> foldl emit [] es"

lemma emits_subset: "set (emits es) \<subseteq> set es"
  by (induction es rule: rev_induct) (auto simp: emit_def)

lemma emits_sorted: "sorted_entries es \<Longrightarrow> sorted_entries (emits es)"
proof (induction es rule: rev_induct)
  case (snoc e es)
  then show ?case using emits_subset [of es] by (fastforce simp: emit_def [of _ e] sorted_wrt_append)
qed simp

lemma upto_emits: "sorted_entries es \<Longrightarrow> upto a (emits es) = emits (upto a es)"
proof (induction es rule: rev_induct)
  case (snoc e es)
  then have s: "sorted_entries es" "\<forall>x \<in> set es. fst x < fst e" by (simp_all add: sorted_wrt_append)
  show ?case
  proof (cases "fst e \<le> a")
    case True
    then have "\<forall>x \<in> set es. fst x \<le> a" "\<forall>x \<in> set (emits es). fst x \<le> a"
      using s(2) emits_subset [of es] by force+
    then show ?thesis using True by (simp add: emit_def [of _ e])
  next
    case False
    then show ?thesis using snoc.IH [OF s(1)] by (simp add: emit_def [of _ e])
  qed
qed simp

text \<open>The last entry has the index of the last call, and its address unless the call repeats an index.\<close>

definition repeats :: "(u64 \<times> u16) list \<Rightarrow> bool" where
  "repeats es \<longleftrightarrow> (\<exists>fs d e. es = fs @ [d, e] \<and> snd d = snd e)"

lemma emits_last:
  "es \<noteq> [] \<Longrightarrow> emits es \<noteq> [] \<and> snd (last (emits es)) = snd (last es) \<and> (last (emits es) = last es \<or> repeats es)"
proof (induction es rule: rev_induct)
  case (snoc e es)
  show ?case
  proof (cases es rule: rev_cases)
    case (snoc fs d)
    then show ?thesis using snoc.IH by (auto simp: emit_def [of _ e] repeats_def)
  qed (simp add: emit_def [of _ e])
qed simp

lemma upto_count_last:
  assumes "sorted_entries ps" "upto a ps \<noteq> []"
  shows "ps ! (upto_count a ps - 1) = last (upto a ps)"
  using assms
proof (induction ps rule: rev_induct)
  case (snoc e ps)
  have s: "sorted_entries ps" "\<forall>x \<in> set ps. fst x < fst e" using snoc.prems(1) by (simp_all add: sorted_wrt_append)
  show ?case
  proof (cases "fst e \<le> a")
    case True
    then have "filter (\<lambda>x. fst x \<le> a) ps = ps" using s(2) by (force intro: filter_True)
    then show ?thesis using True by (simp add: upto_count_def)
  next
    case False
    then have ne: "upto a ps \<noteq> []" using snoc.prems(2) by simp
    have "upto_count a ps - 1 < length ps" using counts_le(2) [of a ps] ne by (cases ps) (auto simp: upto_count_def)
    then show ?thesis using snoc.IH [OF s(1) ne] False by (simp add: upto_count_def nth_append)
  qed
qed simp

section \<open>From the interval data to the entry the unwinder finds\<close>

lemma upto_prefix: "sorted_wrt (\<lambda>c d. fst c < fst d) cs \<Longrightarrow> \<exists>rest. cs = upto a cs @ rest"
proof (induction cs)
  case (Cons c cs)
  show ?case
  proof (cases "fst c \<le> a")
    case True
    then show ?thesis using Cons by auto
  next
    case False
    then have "\<forall>d \<in> set cs. \<not> fst d \<le> a" using Cons.prems by force
    then show ?thesis using False by (auto simp: filter_empty_conv)
  qed
qed simp

text \<open>
  The calls whose entries the tables represent faithfully.  A merged rule does not follow itself, since
  the second entry would be dropped; and the reach of a merged rule does not cross into the next page by
  more than its first byte, since the unwinder knows the distance to entries of earlier pages only modulo
  the page size.
\<close>

definition merges_ok :: "(u64 \<times> UnwindInfo) list \<Rightarrow> bool" where
  "merges_ok cs \<longleftrightarrow> successively (\<lambda>c d. MergeOpcode (snd d) \<noteq> 0 \<longrightarrow> snd c \<noteq> snd d) cs \<and>
     (\<forall>c \<in> set cs. int (unat (fst c) mod 65536) + uint (MergeOpcode (snd c) AND NOT MERGEOPCODE_NEGATIVE) \<le> 65536)"

definition info_ok :: "UnwindInfo \<Rightarrow> bool" where
  "info_ok i \<longleftrightarrow> (Flags i AND UnwindFlagCommand \<noteq> 0 \<longrightarrow> Param i < 0x8000 \<and> MergeOpcode i = 0)"

lemma delta_info_ok:
  assumes "delta_ok d"
  shows "info_ok (delta_info d ds)"
proof (cases ds)
  case Nil
  then show ?thesis using assms by (simp add: delta_info_def delta_ok_def info_ok_def)
next
  case (Cons e es)
  show ?thesis
  proof (cases "calculateMergeOpcode d e = 0")
    case True
    then show ?thesis using Cons assms by (simp add: delta_info_def delta_ok_def info_ok_def)
  next
    case False
    then have "Flags (Info d) AND UnwindFlagCommand = 0" by (rule calculateMergeOpcode_cases)
    then show ?thesis using Cons by (simp add: delta_info_def info_ok_def)
  qed
qed

lemma block_calls_info: "\<forall>d \<in> set ds. delta_ok d \<Longrightarrow> c \<in> set (block_calls start ui ds) \<Longrightarrow> info_ok (snd c)"
proof (induction ds arbitrary: ui)
  case (Cons d ds)
  then show ?case using delta_info_ok [of d ds] by (auto split: if_split_asm)
qed simp

lemma blocks_calls_info: "blocks_ok bs \<Longrightarrow> c \<in> set (blocks_calls ui bs) \<Longrightarrow> info_ok (snd c)"
proof (induction bs arbitrary: ui)
  case (Cons b bs)
  have "info_ok UnwindInfoInvalid" by (simp add: info_ok_def UnwindInfoInvalid_def zero_UnwindInfo_def)
  then show ?case
    using Cons blocks_ok_Cons [OF Cons.prems(1)] block_calls_info [of "Deltas b" c "Start b" ui]
    by (auto simp: block_ok_def deltas_ok_def end_calls_def split: if_split_asm)
qed simp

lemma low_bit:
  fixes p :: u32
  assumes "p < 0x8000" "bit p n"
  shows "n < 15"
proof -
  have "unat p < 2 ^ 15" using assms(1) by (simp add: word_less_nat_alt)
  then have "take_bit 15 (unat p) = unat p" by (rule take_bit_nat_eq_self)
  moreover have "bit (unat p) n" using assms(2) by (simp add: bit_unsigned_iff)
  ultimately show ?thesis by (metis bit_take_bit_iff)
qed

lemma flag_bit: "bit (0x8000 :: int) n \<longleftrightarrow> n = 15"
proof -
  have e: "(0x8000 :: int) = 2 ^ 15" by simp
  show ?thesis unfolding e by (auto simp only: bit_exp_iff) simp_all
qed

lemma command_bits:
  fixes p :: u32
  assumes "p < 0x8000"
  shows "(ucast (ucast p OR 0x8000 :: u16) :: u32) = p OR 0x8000" "p OR 0x8000 = 0x8000 \<longleftrightarrow> p = 0"
    "(p OR 0x8000) AND 0x8000 \<noteq> 0" "(p OR 0x8000) AND NOT 0x8000 = p"
proof -
  note low = low_bit [OF assms]
  show "(ucast (ucast p OR 0x8000 :: u16) :: u32) = p OR 0x8000"
    by (rule bit_word_eqI) (auto simp: bit_simps flag_bit dest: low)
  show masked: "(p OR 0x8000) AND NOT 0x8000 = p"
    by (rule bit_word_eqI) (auto simp: bit_simps flag_bit dest: low)
  show "p OR 0x8000 = 0x8000 \<longleftrightarrow> p = 0" using masked by auto
  have "bit ((p OR 0x8000) AND 0x8000) 15" by (auto simp: bit_simps flag_bit)
  then show "(p OR 0x8000) AND 0x8000 \<noteq> 0" by (rule contrapos_pn) (erule ssubst, simp)
qed

lemma enc_command:
  assumes "Flags i AND UnwindFlagCommand \<noteq> 0" "Param i < 0x8000"
  shows "(ucast (enc m i) :: u32) = Param i OR 0x8000" "enc m i = 0x8000 \<longleftrightarrow> Param i = 0"
proof -
  show c: "(ucast (enc m i) :: u32) = Param i OR 0x8000"
    using assms command_bits(1) [OF assms(2)] by (simp add: enc_def)
  show "enc m i = 0x8000 \<longleftrightarrow> Param i = 0"
    using ucast_u16_eq [of "enc m i" "0x8000"] command_bits(2) [OF assms(2)] by (simp add: c)
qed

lemma enc_rule:
  assumes ok: "index_ok K st" and "Flags i AND UnwindFlagCommand = 0" "map_of (unwindInfoIndex st) i \<noteq> None"
  defines "m \<equiv> unwindInfoIndex st"
  shows "bpf_Lookup K UnwindInfoArray (K32 (ucast (enc m i))) (kern (ebpf st)) = Some (VUnwind i)"
    and "unat (enc m i) < 0x4000" "enc m i \<noteq> 0x8000" "(ucast (enc m i) :: u32) AND 0x8000 = 0"
    and "map_of m i = Some (enc m i)"
proof -
  obtain x where x: "map_of m i = Some x" using assms(3) by (auto simp: m_def)
  then have enc: "enc m i = x" using assms(2) by (simp add: enc_def)
  show "map_of m i = Some (enc m i)" using x enc by simp
  show "bpf_Lookup K UnwindInfoArray (K32 (ucast (enc m i))) (kern (ebpf st)) = Some (VUnwind i)"
    using ok x by (simp add: index_ok_def m_def [symmetric] enc)
  show small: "unat (enc m i) < 0x4000" using ok x by (fastforce simp: index_ok_def m_def [symmetric] enc)
  then show "enc m i \<noteq> 0x8000" by auto
  have "ucast (enc m i) < (0x8000 :: u32)" using small by (simp add: word_less_nat_alt unat_ucast_u16)
  note low = low_bit [OF this]
  show "(ucast (enc m i) :: u32) AND 0x8000 = 0"
    by (rule bit_word_eqI) (auto simp: bit_and_iff flag_bit dest: low)
qed

text \<open>A rule that is not a command has an index of its own.\<close>

lemma enc_distinct:
  assumes ok: "index_ok K st" and cs: "indexed (unwindInfoIndex st) cs" "(a, i) \<in> set cs" "(b, j) \<in> set cs"
    and "Flags j AND UnwindFlagCommand = 0" "info_ok i" "enc (unwindInfoIndex st) i = enc (unwindInfoIndex st) j"
  shows "i = j"
proof -
  have j: "map_of (unwindInfoIndex st) j \<noteq> None" using cs(1,3) assms(5) by (force simp: indexed_def)
  show ?thesis
  proof (cases "Flags i AND UnwindFlagCommand = 0")
    case True
    then have i: "map_of (unwindInfoIndex st) i \<noteq> None" using cs(1,2) by (force simp: indexed_def)
    have "inj_on (map_of (unwindInfoIndex st)) (dom (map_of (unwindInfoIndex st)))" using ok by (simp add: index_ok_def)
    then show ?thesis
      by (rule inj_onD) (use i j enc_rule(5) [OF ok True i] enc_rule(5) [OF ok assms(5) j] assms(7) in auto)
  next
    case False
    then have p: "Param i < 0x8000" using assms(6) by (simp add: info_ok_def)
    have "(ucast (enc (unwindInfoIndex st) j) :: u32) AND 0x8000 = 0" by (rule enc_rule(4) [OF ok assms(5) j])
    then show ?thesis using command_bits(3) [OF p] enc_command(1) [OF False p, of "unwindInfoIndex st"] assms(7) by simp
  qed
qed

lemma eff_diff:
  assumes "a \<le> off" "int (unat a mod 65536) + uint (MergeOpcode i AND NOT MERGEOPCODE_NEGATIVE) \<le> 65536"
  shows "eff i (delta_diff a off) = eff i (int (unat off) - int (unat a))"
proof -
  let ?n = "uint (MergeOpcode i AND NOT MERGEOPCODE_NEGATIVE)"
  have a: "unat a = page_of a * 65536 + unat a mod 65536" "unat off = page_of off * 65536 + unat off mod 65536" by simp_all
  have le: "unat a \<le> unat off" using assms(1) by (simp add: word_le_nat_alt)
  then have pg: "page_of a \<le> page_of off" by (rule div_le_mono)
  have "?n \<le> delta_diff a off \<longleftrightarrow> ?n \<le> int (unat off) - int (unat a)"
  proof (cases "page_of a = page_of off")
    case True
    then have "int (unat off) - int (unat a) = int (unat off mod 65536) - int (unat a mod 65536)" using a by linarith
    then show ?thesis using True by (simp add: delta_diff_def)
  next
    case False
    then have "page_of a + 1 \<le> page_of off" using pg by simp
    then have "65536 - int (unat a mod 65536) \<le> int (unat off) - int (unat a)" using a by linarith
    then show ?thesis using False pg assms(2) by (simp add: delta_diff_def)
  qed
  then show ?thesis by (simp add: eff_def merged_param_def)
qed

abbreviation (input) enc_calls :: "(UnwindInfo \<times> u16) list \<Rightarrow> (u64 \<times> UnwindInfo) list \<Rightarrow> (u64 \<times> u16) list" where
  "enc_calls m cs \<equiv> map (\<lambda>(a, info). (a, enc m info)) cs"

lemma upto_enc: "upto a (enc_calls m cs) = enc_calls m (upto a cs)"
  by (induction cs) auto

lemma enc_sorted: "sorted_wrt (\<lambda>c d. fst c < fst d) cs \<Longrightarrow> sorted_entries (enc_calls m cs)"
  by (auto simp: sorted_wrt_map case_prod_beta)

text \<open>A call that repeats the index of the call before has a rule without merge opcode.\<close>

lemma repeats_unmerged:
  assumes ok: "index_ok K st" and ind: "indexed (unwindInfoIndex st) cs" and infos: "\<forall>c \<in> set cs. info_ok (snd c)"
    and merges: "merges_ok cs" and sorted: "sorted_wrt (\<lambda>c d. fst c < fst d) cs"
    and rep: "repeats (enc_calls (unwindInfoIndex st) (upto a cs))"
  shows "MergeOpcode (snd (last (upto a cs))) = 0"
proof (rule ccontr)
  let ?m = "unwindInfoIndex st"
  assume m: "MergeOpcode (snd (last (upto a cs))) \<noteq> 0"
  obtain fs d e where es: "enc_calls ?m (upto a cs) = fs @ [d, e]" "snd d = snd e" using rep unfolding repeats_def by blast
  obtain gs c c' where cs: "upto a cs = gs @ [c, c']" and "enc ?m (snd c) = enc ?m (snd c')"
    using es by (auto simp: map_eq_append_conv case_prod_beta)
  obtain rest where split: "cs = upto a cs @ rest" using upto_prefix [OF sorted] by blast
  have in_cs: "c \<in> set cs" "c' \<in> set cs" using split cs by (metis Un_iff list.set_intros set_append)+
  have mc: "MergeOpcode (snd c') \<noteq> 0" using m cs by simp
  have "Flags (snd c') AND UnwindFlagCommand = 0" using infos in_cs(2) mc by (auto simp: info_ok_def)
  then have "snd c = snd c'"
    using enc_distinct [OF ok ind, of "fst c" "snd c" "fst c'" "snd c'"] in_cs infos \<open>enc ?m (snd c) = _\<close> by simp
  moreover have "successively (\<lambda>c d. MergeOpcode (snd d) \<noteq> 0 \<longrightarrow> snd c \<noteq> snd d) (gs @ [c, c'] @ rest)"
    using merges split cs by (simp add: merges_ok_def)
  then have "snd c \<noteq> snd c'" using mc by (simp add: successively_append_iff)
  ultimately show False by simp
qed

lemma entry_found:
  assumes ok: "index_ok K st" and ind: "indexed (unwindInfoIndex st) cs" and infos: "\<forall>c \<in> set cs. info_ok (snd c)"
    and merges: "merges_ok cs" and sorted: "sorted_wrt (\<lambda>c d. fst c < fst d) cs" and rule: "last_rule a cs = Some i"
  defines "ps \<equiv> entries (unwindInfoIndex st) cs"
  obtains b j where "(b, j) \<in> set cs" "0 < upto_count a ps" "snd (ps ! (upto_count a ps - 1)) = enc (unwindInfoIndex st) j"
    "eff j (delta_diff (fst (ps ! (upto_count a ps - 1))) a) = i"
proof -
  let ?m = "unwindInfoIndex st"
  let ?es = "enc_calls ?m cs" and ?c = "last (upto a cs)" and ?g = "ps ! (upto_count a ps - 1)"
  have ne: "upto a cs \<noteq> []" using rule by (auto simp: last_rule_def)
  then have i: "i = eff (snd ?c) (int (unat a) - int (unat (fst ?c)))"
    using rule by (cases "upto a cs") (auto simp: last_rule_def)
  have mem: "?c \<in> set cs" "fst ?c \<le> a" using last_in_set [OF ne] by auto
  have ps: "ps = emits ?es" by (simp add: ps_def entries_def)
  have up: "upto a ps = emits (enc_calls ?m (upto a cs))"
    unfolding ps using upto_emits [OF enc_sorted [OF sorted]] by (simp only: upto_enc)
  have "enc_calls ?m (upto a cs) \<noteq> []" using ne by simp
  note l = emits_last [OF this]
  have ps_sorted: "sorted_entries ps" unfolding ps by (rule emits_sorted [OF enc_sorted [OF sorted]])
  have g: "?g = last (upto a ps)" "upto a ps \<noteq> []"
    using upto_count_last [OF ps_sorted] l unfolding up by (simp_all add: up)
  have gm: "fst ?g \<le> a" using last_in_set [OF g(2)] g(1) by auto
  have last_enc: "last (enc_calls ?m (upto a cs)) = (fst ?c, enc ?m (snd ?c))" using ne by (simp add: last_map case_prod_beta)
  have edge: "int (unat (fst ?c) mod 65536) + uint (MergeOpcode (snd ?c) AND NOT MERGEOPCODE_NEGATIVE) \<le> 65536"
    using merges mem(1) by (simp add: merges_ok_def)
  show thesis
  proof (rule that [of "fst ?c" "snd ?c"])
    show "(fst ?c, snd ?c) \<in> set cs" using mem by simp
    show "0 < upto_count a ps" using g(2) by (simp add: upto_count_def)
    show "snd ?g = enc ?m (snd ?c)" unfolding g(1) up using l by (simp only: last_enc snd_conv)
    show "eff (snd ?c) (delta_diff (fst ?g) a) = i"
    proof (cases "?g = (fst ?c, enc ?m (snd ?c))")
      case True
      then show ?thesis using eff_diff [OF mem(2) edge] by (simp add: i)
    next
      case False
      then have "repeats (enc_calls ?m (upto a cs))" using l unfolding g(1) up by (simp only: last_enc simp_thms)
      then show ?thesis using repeats_unmerged [OF ok ind infos merges sorted] by (simp add: i eff_unmerged)
    qed
  qed
qed

section \<open>The frame the unwinder computes\<close>

text \<open>What an unwind rule asks for, given how an architecture executes commands and register rules.\<close>

definition rule_record :: "UnwindInfo \<Rightarrow> PerCPURecord \<Rightarrow> PerCPURecord" where
  "rule_record i r =
     (if Flags i AND UnwindFlagCommand \<noteq> 0 \<and> Param i = UnwindCommandInvalid
      then r\<lparr>rec_state := (rec_state r)\<lparr>error_metric := ''UnwindNativeErrStackDeltaInvalid''\<rparr>\<rparr>
      else if Flags i AND UnwindFlagCommand \<noteq> 0 \<and> Param i = UnwindCommandStop
      then increment_metric ''UnwindNativeStackDeltaStop'' r else r)"

definition rule_frame ::
  "(u32 \<Rightarrow> PerCPURecord \<Rightarrow> frame_result \<times> PerCPURecord) \<Rightarrow> (UnwindInfo \<Rightarrow> int \<Rightarrow> PerCPURecord \<Rightarrow> frame_result \<times> PerCPURecord) \<Rightarrow>
     UnwindInfo \<Rightarrow> PerCPURecord \<Rightarrow> frame_result \<times> PerCPURecord" where
  "rule_frame command info i r =
     (if Flags i AND UnwindFlagCommand = 0 then info i 0 r
      else if Param i = UnwindCommandInvalid then (frame_ret ERR_NATIVE_STACK_DELTA_INVALID, rule_record i r)
      else command (Param i) (rule_record i r))"

lemma unwind_info_eff:
  "unwind_info_x86 mem (eff i d) 0 r = unwind_info_x86 mem i d r"
  "unwind_info_arm pac mem (eff i d) 0 r = unwind_info_arm pac mem i d r"
proof -
  have p: "merged_param (eff i d) 0 = merged_param i d" by (simp add: eff_def merged_param_def)
  have f: "Flags (eff i d) = Flags i" "BaseReg (eff i d) = BaseReg i" "AuxBaseReg (eff i d) = AuxBaseReg i"
    "AuxParam (eff i d) = AuxParam i" by (simp_all add: eff_def)
  show "unwind_info_x86 mem (eff i d) 0 r = unwind_info_x86 mem i d r" unfolding unwind_info_x86_def p f ..
  show "unwind_info_arm pac mem (eff i d) 0 r = unwind_info_arm pac mem i d r"
    unfolding unwind_info_arm_def read_ra_arm_def p f ..
qed

text \<open>The record \<open>get_stack_delta\<close> leaves, given the entry it found.\<close>

definition delta_record :: "ErrorCode \<Rightarrow> u32 \<Rightarrow> PerCPURecord \<Rightarrow> PerCPURecord" where
  "delta_record e u r =
     (if e = ERR_NATIVE_STACK_DELTA_INVALID
      then r\<lparr>rec_state := (rec_state r)\<lparr>error_metric := ''UnwindNativeErrStackDeltaInvalid''\<rparr>\<rparr>
      else if u = STACK_DELTA_COMMAND_FLAG OR UnwindCommandStop then increment_metric ''UnwindNativeStackDeltaStop'' r else r)"

lemma delta_before_record:
  assumes "delta_before K k inner info p idx r = ((e, d, u), r')" "e = ERR_OK \<or> e = ERR_NATIVE_STACK_DELTA_INVALID"
  shows "r' = delta_record e u r"
  using assms by (auto simp: delta_before_def Let_def delta_record_def split: option.split_asm bval.split_asm if_split_asm)

lemma get_stack_delta_record:
  assumes "get_stack_delta K k r = ((e, d, u), r')" "e = ERR_OK \<or> e = ERR_NATIVE_STACK_DELTA_INVALID"
  shows "r' = delta_record e u r"
proof -
  obtain inner info p idx where "delta_before K k inner info p idx r = ((e, d, u), r')"
    using assms unfolding get_stack_delta_def Let_def
    by (auto split: option.split_asm bval.split_asm if_split_asm)
  then show ?thesis by (rule delta_before_record [OF _ assms(2)])
qed

text \<open>
  Interval data that the tables represent faithfully: blocks in order with increasing deltas, rules
  \<open>merges_ok\<close> allows, and tables large enough.
\<close>

definition iv_ok :: "IntervalData \<Rightarrow> bool" where
  "iv_ok iv \<longleftrightarrow> NumDeltas iv \<noteq> 0 \<and> Blocks iv \<noteq> [] \<and> blocks_ok (Blocks iv) \<and> merges_ok (iv_calls iv) \<and>
     length (iv_calls iv) < 2 ^ 31 \<and>
     (\<forall>c \<in> set (iv_calls iv). length (filter (\<lambda>d. page_of (fst d) = page_of (fst c)) (iv_calls iv)) < 65536)"

lemma iv_calls_facts:
  assumes "iv_ok iv"
  shows "sorted_wrt (\<lambda>c d. fst c < fst d) (iv_calls iv)" "\<forall>c \<in> set (iv_calls iv). info_ok (snd c)"
    "b \<in> set (Blocks iv) \<Longrightarrow> Start b \<le> a \<Longrightarrow> a < End b \<Longrightarrow>
      last_rule a (iv_calls iv) = lookup_info iv a \<and> lookup_info iv a \<noteq> None"
proof -
  have bs: "blocks_ok (Blocks iv)" and z: "MergeOpcode zero_UnwindInfo = 0"
    using assms by (simp_all add: iv_ok_def zero_UnwindInfo_def)
  show "sorted_wrt (\<lambda>c d. fst c < fst d) (iv_calls iv)" unfolding iv_calls_def by (rule blocks_calls_sorted [OF bs])
  show "\<forall>c \<in> set (iv_calls iv). info_ok (snd c)" unfolding iv_calls_def using blocks_calls_info [OF bs] by blast
  show "last_rule a (iv_calls iv) = lookup_info iv a \<and> lookup_info iv a \<noteq> None"
    if b: "b \<in> set (Blocks iv)" "Start b \<le> a" "a < End b"
  proof -
    have ok: "block_ok b" "blocks_wf (Blocks iv)" using bs b by (simp_all add: blocks_ok_def)
    show ?thesis
      unfolding iv_calls_def lookup_info_block [OF ok(2) b] blocks_calls_rule [OF bs b z]
      using block_rule(2) [OF ok(1) b(2,3) z] by blast
  qed
qed

lemma blocks_range:
  "blocks_ok bs \<Longrightarrow> b \<in> set bs \<Longrightarrow> Start (hd bs) \<le> Start b \<and> End b \<le> End (last bs)"
proof (induction bs)
  case (Cons c bs)
  note ok = blocks_ok_Cons [OF Cons.prems(1)]
  show ?case
  proof (cases "bs = []")
    case False
    then have "End c \<le> Start (last bs)" "Start (last bs) < End (last bs)"
      using ok by (auto simp: blocks_ok_def blocks_wf_def)
    then show ?thesis using Cons.IH Cons.prems(2) ok False by fastforce
  qed (use Cons.prems(2) in simp)
qed simp

lemma entries_subset: "e \<in> set (entries m cs) \<Longrightarrow> \<exists>i. (fst e, i) \<in> set cs"
  using emits_subset [of "enc_calls m cs"] by (force simp: entries_def)

lemma emits_length_filter: "length (filter P (emits es)) \<le> length (filter P es)"
  by (induction es rule: rev_induct) (simp_all add: emit_def [of _ "_ :: u64 \<times> u16"])

lemma iv_fits_entries:
  assumes "iv_ok iv"
  shows "iv_fits iv (entries m (iv_calls iv))"
proof -
  have bs: "blocks_ok (Blocks iv)" and ne: "NumDeltas iv \<noteq> 0" "Blocks iv \<noteq> []" using assms by (simp_all add: iv_ok_def)
  have "Start (hd (Blocks iv)) \<le> fst e" if e: "e \<in> set (entries m (iv_calls iv))" for e
  proof -
    obtain i where "(fst e, i) \<in> set (iv_calls iv)" using entries_subset [OF e] by blast
    then obtain b where "b \<in> set (Blocks iv)" "Start b \<le> fst e"
      using blocks_call_bounds [OF bs] unfolding iv_calls_def by fastforce
    then show ?thesis using blocks_range [OF bs] by fastforce
  qed
  moreover have "in_count q (entries m (iv_calls iv)) < 65536" for q
  proof -
    have "in_count q (entries m (iv_calls iv)) \<le> length (filter (\<lambda>c. page_of (fst c) = q) (iv_calls iv))"
      unfolding in_count_def entries_def
      by (rule order_trans [OF emits_length_filter]) (simp add: filter_map o_def case_prod_beta)
    moreover have "length (filter (\<lambda>c. page_of (fst c) = q) (iv_calls iv)) < 65536"
    proof (cases "\<exists>c \<in> set (iv_calls iv). page_of (fst c) = q")
      case True
      then show ?thesis using assms by (auto simp: iv_ok_def)
    next
      case False
      then show ?thesis by (simp add: filter_empty_conv [THEN iffD2])
    qed
    ultimately show ?thesis by simp
  qed
  moreover have "length (entries m (iv_calls iv)) < 2 ^ 31"
    using emits_length_filter [of "\<lambda>_. True" "enc_calls m (iv_calls iv)"] assms by (simp add: entries_def iv_ok_def)
  moreover have "Start (hd (Blocks iv)) \<le> End (last (Blocks iv))"
  proof -
    have "hd (Blocks iv) \<in> set (Blocks iv)" using ne by simp
    then have "Start (hd (Blocks iv)) < End (hd (Blocks iv))" "End (hd (Blocks iv)) \<le> End (last (Blocks iv))"
      using blocks_range [OF bs] bs by (auto simp: blocks_ok_def blocks_wf_def)
    then show ?thesis by order
  qed
  ultimately show ?thesis using ne by (simp add: iv_fits_def)
qed

text \<open>The kernel state and the executable for which the theorems below speak.\<close>

definition loaded ::
  "'k bpf \<Rightarrow> u64 \<Rightarrow> IntervalData \<Rightarrow> ('k, 'e, 'd, 'l) executableInfoManagerState \<Rightarrow> ('k, 'e, 'd, 'l) executableInfoManagerState \<Rightarrow> bool" where
  "loaded K f iv st st' \<longleftrightarrow> index_ok K st \<and> fresh_id K f (ebpf st) \<and> iv_ok iv \<and> (\<exists>ref. loadDeltas K f iv st = Ret (Inr ref, st'))"

lemma loaded_entry:
  assumes laws: "bpf_laws K" and size: "array_size K" and ld: "loaded K f iv st st'"
    and id: "text_section_id (rec_state r) = f"
    and b: "b \<in> set (Blocks iv)" "Start b \<le> lookup_offset r" "lookup_offset r < End b"
  defines "k \<equiv> visible K f (ebpf st')"
  obtains j d e where "lookup_info iv (lookup_offset r) = Some (eff j d)" "info_ok j"
    "get_stack_delta K k r = ((e, d, ucast (enc (unwindInfoIndex st') j)), delta_record e (ucast (enc (unwindInfoIndex st') j)) r)"
    "e = (if enc (unwindInfoIndex st') j = 0x8000 then ERR_NATIVE_STACK_DELTA_INVALID else ERR_OK)"
    "index_ok K st'" "Flags j AND UnwindFlagCommand = 0 \<Longrightarrow> map_of (unwindInfoIndex st') j \<noteq> None"
    "\<And>key. bpf_Lookup K UnwindInfoArray key k = bpf_Lookup K UnwindInfoArray key (kern (ebpf st'))"
proof -
  let ?m = "unwindInfoIndex st'" and ?a = "lookup_offset r" and ?F = "page_of (Start (hd (Blocks iv)))"
  let ?ps = "entries ?m (iv_calls iv)"
  obtain ref where ok: "index_ok K st" "fresh_id K f (ebpf st)" "iv_ok iv" and run: "loadDeltas K f iv st = Ret (Inr ref, st')"
    using ld by (auto simp: loaded_def)
  note fits = iv_fits_entries [OF ok(3), of ?m] and calls = iv_calls_facts [OF ok(3)]
  note vis = loadDeltas_visible [OF laws size ok(1,2) run fits, folded k_def]
  have ok': "index_ok K st'" "indexed ?m (iv_calls iv)" using vis by simp_all
  obtain i where i: "lookup_info iv ?a = Some i" "last_rule ?a (iv_calls iv) = Some i" using calls(3) [OF b] by auto
  have mg: "merges_ok (iv_calls iv)" using ok(3) by (simp add: iv_ok_def)
  obtain a j where j: "(a, j) \<in> set (iv_calls iv)" "0 < upto_count ?a ?ps" "snd (?ps ! (upto_count ?a ?ps - 1)) = enc ?m j"
    "eff j (delta_diff (fst (?ps ! (upto_count ?a ?ps - 1))) ?a) = i"
    by (rule entry_found [OF ok' calls(2) mg calls(1) i(2)])
  have sorted: "sorted_entries ?ps" unfolding entries_def by (rule emits_sorted [OF enc_sorted [OF calls(1)]])
  have page: "?F \<le> page_of ?a" "page_of ?a < ?F + iv_pages iv"
  proof -
    have "Start (hd (Blocks iv)) \<le> Start b" "End b \<le> End (last (Blocks iv))"
      using blocks_range [OF _ b(1)] ok(3) by (simp_all add: iv_ok_def)
    then have "Start (hd (Blocks iv)) \<le> ?a" "?a \<le> End (last (Blocks iv))" using b(2,3) by order+
    then have "?F \<le> page_of ?a" "page_of ?a \<le> page_of (End (last (Blocks iv)))"
      by (simp_all only: word_le_nat_alt div_le_mono)
    then show "?F \<le> page_of ?a" "page_of ?a < ?F + iv_pages iv" by (simp_all add: iv_pages_def)
  qed
  have tab: "tables K k (text_section_id (rec_state r)) ?F (iv_pages iv) ?ps" using vis id by simp
  have "fst (get_stack_delta K k r) = delta_result (?ps ! (upto_count ?a ?ps - 1)) ?a"
    using fits j(2) by (intro get_stack_delta_tables [OF tab sorted page]) (simp_all add: iv_fits_def)
  then obtain r' where g: "get_stack_delta K k r = (delta_result (?ps ! (upto_count ?a ?ps - 1)) ?a, r')"
    by (metis prod.collapse)
  note g' = g [unfolded delta_result_def j(3)]
  have "r' = delta_record (if enc ?m j = 0x8000 then ERR_NATIVE_STACK_DELTA_INVALID else ERR_OK) (ucast (enc ?m j)) r"
    by (rule get_stack_delta_record [OF g']) simp
  note g'' = g' [unfolded this]
  show thesis
  proof (rule that [of j "delta_diff (fst (?ps ! (upto_count ?a ?ps - 1))) ?a", OF _ _ _ refl ok'(1)])
    show "lookup_info iv ?a = Some (eff j (delta_diff (fst (?ps ! (upto_count ?a ?ps - 1))) ?a))" using i(1) j(4) by simp
    show "info_ok j" using calls(2) j(1) by auto
    show "map_of ?m j \<noteq> None" if "Flags j AND UnwindFlagCommand = 0" using ok'(2) j(1) that by (force simp: indexed_def)
    show "bpf_Lookup K UnwindInfoArray key k = bpf_Lookup K UnwindInfoArray key (kern (ebpf st'))" for key using vis by blast
    show "get_stack_delta K k r = ((if enc ?m j = 0x8000 then ERR_NATIVE_STACK_DELTA_INVALID else ERR_OK,
        delta_diff (fst (?ps ! (upto_count ?a ?ps - 1))) ?a, ucast (enc ?m j)),
        delta_record (if enc ?m j = 0x8000 then ERR_NATIVE_STACK_DELTA_INVALID else ERR_OK) (ucast (enc ?m j)) r)"
      by (rule g'')
  qed
qed

lemma eff_command: "info_ok j \<Longrightarrow> Flags j AND UnwindFlagCommand \<noteq> 0 \<Longrightarrow> eff j d = j"
  by (simp add: eff_unmerged info_ok_def)

lemma delta_record_rule:
  assumes "info_ok j" "Flags j AND UnwindFlagCommand \<noteq> 0"
  shows "delta_record (if enc m j = 0x8000 then ERR_NATIVE_STACK_DELTA_INVALID else ERR_OK) (ucast (enc m j)) r = rule_record j r"
proof -
  have p: "Param j < 0x8000" using assms by (simp add: info_ok_def)
  have "Param j OR 0x8000 = (0x8000 OR 1 :: u32) \<longleftrightarrow> Param j = 1"
    using command_bits(4) [OF p] command_bits(4) [of 1] by auto
  then show ?thesis using assms(2) enc_command [OF assms(2) p, of m] by (auto simp: delta_record_def rule_record_def)
qed

lemma delta_record_none:
  "x \<noteq> 0x8000 \<Longrightarrow> (ucast x :: u32) AND 0x8000 = 0 \<Longrightarrow> delta_record ERR_OK (ucast x) r = r"
  by (auto simp: delta_record_def)

text \<open>
  The contract both architectures' \<open>unwind_one_frame\<close> keep with the tables: they look the delta up,
  execute a command or fetch the register rule from the array, and apply a merged rule by its distance.
\<close>

locale frame_unwinder =
  fixes one_frame :: "'k bpf \<Rightarrow> 'k \<Rightarrow> PerCPURecord \<Rightarrow> frame_result \<times> PerCPURecord"
    and command :: "u32 \<Rightarrow> PerCPURecord \<Rightarrow> frame_result \<times> PerCPURecord"
    and info :: "UnwindInfo \<Rightarrow> int \<Rightarrow> PerCPURecord \<Rightarrow> frame_result \<times> PerCPURecord"
  assumes one_frame: "get_stack_delta K k r = ((e, d, u), r') \<Longrightarrow> one_frame K k r =
      (if e \<noteq> ERR_OK then (frame_ret e, r')
       else if u AND STACK_DELTA_COMMAND_FLAG \<noteq> 0 then command (u AND NOT STACK_DELTA_COMMAND_FLAG) r'
       else case bpf_Lookup K UnwindInfoArray (K32 u) k of
         Some (VUnwind i) \<Rightarrow> info i d r'
       | _ \<Rightarrow> (frame_ret ERR_NATIVE_BAD_UNWIND_INFO_INDEX, increment_metric ''UnwindNativeErrBadUnwindInfoIndex'' r'))"
    and info_eff: "info (eff i d) 0 r = info i d r"
begin

lemma refines:
  assumes "bpf_laws K" "array_size K" "loaded K f iv st st'" "text_section_id (rec_state r) = f"
    and "b \<in> set (Blocks iv)" "Start b \<le> lookup_offset r" "lookup_offset r < End b"
  shows "\<exists>i. lookup_info iv (lookup_offset r) = Some i \<and>
    one_frame K (visible K f (ebpf st')) r = rule_frame command info i r"
proof (rule loaded_entry [OF assms], goal_cases)
  case (1 j d e)
  show ?case
  proof (cases "Flags j AND UnwindFlagCommand = 0")
    case True
    note e = enc_rule [OF 1(5) True 1(6) [OF True]]
    show ?thesis
      using 1(1) True e(3,4) delta_record_none [OF e(3,4)] info_eff [of j d r]
      by (simp add: one_frame [OF 1(3)] 1(4,7) e(1) rule_frame_def eff_def)
  next
    case False
    then have p: "Param j < 0x8000" using 1(2) by (simp add: info_ok_def)
    show ?thesis
      using 1(1) False delta_record_rule [OF 1(2) False, of "unwindInfoIndex st'" r] enc_command [OF False p, of "unwindInfoIndex st'"]
        command_bits(3,4) [OF p] eff_command [OF 1(2) False]
      by (auto simp: one_frame [OF 1(3)] 1(4) rule_frame_def)
  qed
qed

end

interpretation x86_frame: frame_unwinder "\<lambda>K k r. unwind_one_frame_x86 K k mem go delegate_command r"
    "unwind_command_x86 mem go delegate_command" "unwind_info_x86 mem" for mem go delegate_command
  by unfold_locales (simp_all add: unwind_one_frame_x86_def unwind_info_eff)

interpretation arm_frame: frame_unwinder
    "\<lambda>K k r. unwind_one_frame_arm K k pac mem asmcgocall morestack delegate_command r"
    "unwind_command_arm pac mem asmcgocall morestack delegate_command" "unwind_info_arm pac mem"
    for pac mem asmcgocall morestack delegate_command
  by unfold_locales (simp_all add: unwind_one_frame_arm_def unwind_info_eff)

section \<open>An example\<close>

definition example_iv :: IntervalData where
  "example_iv = \<lparr>NumDeltas = 3, Blocks = [\<lparr>Start = 0x1000, End = 0x1010, Deltas = example_deltas\<rparr>]\<rparr>"

definition empty_trace :: Trace where
  "empty_trace = \<lparr>tr_pid = 0, tr_tid = 0, tr_ktime = 0, tr_comm = [], tr_span_id = 0, tr_trace_id = (0, 0), tr_cpu_id = 0,
     context_value_end = 0, kernel_frame_end = 0, frame_data_end = 0, thread_label_end = 0, golang_label_end = 0,
     variable_data_end = 0, num_frames = 0, origin = 0, variable_data = (\<lambda>i. 0)\<rparr>"

definition no_go_offsets :: GoRuntimeOffsets where
  "no_go_offsets = \<lparr>m_offset = 0, m_gsignal = 0, go_curg = 0, go_labels = 0, hmap_count = 0, hmap_log2_bucket_count = 0,
     hmap_buckets = 0, tls_offset = 0, sched_sp_off = 0, sched_pc_off = 0, sched_lr_off = 0, sched_bp_off = 0\<rparr>"

definition example_record :: "u64 \<Rightarrow> PerCPURecord" where
  "example_record offset = \<lparr>rec_trace = empty_trace, rec_state = \<lparr>regs = replicate 16 0, fp_bound = 0, text_section_id = 5,
     text_section_offset = offset, text_section_bias = 0, error_metric = [], unwind_error = ERR_OK, return_address = False,
     lr_invalid = False\<rparr>, unwindersDone = 0, tailCalls = 0, ratelimitAction = RATELIMIT_ACTION_DEFAULT,
     goOffsets = no_go_offsets, usesAnonymousMappings = False, metrics = []\<rparr>"

lemmas example_defs = example_iv_def example_deltas_def zero_UnwindInfo_def UnwindInfoInvalid_def Let_def

lemma example_calls:
  "iv_calls example_iv =
     (let rule = (\<lambda>n m. zero_UnwindInfo\<lparr>BaseReg := UnwindRegSp, Param := n, MergeOpcode := m\<rparr>)
      in [(0x1000, rule 8 1), (0x100a, rule 8 0), (0x1010, UnwindInfoInvalid)])"
  by (simp add: iv_calls_def example_defs end_calls_def delta_addr_def delta_info_def calculateMergeOpcode_def)

lemma example_iv_ok: "iv_ok example_iv"
proof -
  have "merges_ok (iv_calls example_iv)"
    unfolding example_calls by (simp add: merges_ok_def example_defs)
  moreover have "blocks_ok (Blocks example_iv)"
    by (simp add: blocks_ok_def blocks_wf_def block_ok_def deltas_ok_def delta_ok_def example_defs calculateMergeOpcode_def)
  moreover have len: "length (iv_calls example_iv) = 3" unfolding example_calls by (simp add: Let_def)
  moreover have "length (filter P (iv_calls example_iv)) < 65536" for P
    using length_filter_le [of P "iv_calls example_iv"] len by simp
  ultimately show ?thesis by (simp add: iv_ok_def) (simp add: example_iv_def)
qed

abbreviation example_state :: "(ram, unit, unit, unit) executableInfoManagerState" where
  "example_state \<equiv> state (example_manager ram_empty)"

lemma example_offset [simp]:
  "text_section_offset (rec_state (example_record a)) = a" "\<not> return_address (rec_state (example_record a))"
  by (simp_all add: example_record_def)

lemma example_here:
  assumes "0x1000 \<le> a" "a < 0x1010"
  shows "text_section_id (rec_state (example_record a)) = 5" "hd (Blocks example_iv) \<in> set (Blocks example_iv)"
    "Start (hd (Blocks example_iv)) \<le> lookup_offset (example_record a)" "lookup_offset (example_record a) < End (hd (Blocks example_iv))"
  using assms by (simp_all add: example_record_def example_iv_def)

lemma example_rule: "\<exists>i. lookup_info example_iv 0x1003 = Some i \<and> Param i = 16"
proof -
  let ?b = "hd (Blocks example_iv)"
  have "blocks_wf (Blocks example_iv)" using example_iv_ok by (simp add: iv_ok_def blocks_ok_def)
  then have "lookup_info example_iv 0x1003 = info_at (Deltas ?b) (ucast (0x1003 - Start ?b))"
    by (rule lookup_info_block) (simp_all add: example_iv_def)
  then show ?thesis by (simp add: info_at_def example_defs)
qed

lemma ram_array_size: "array_size ram_bpf"
  by (simp add: ram_bpf_def)

lemma example_loads: "\<exists>st'. loaded ram_bpf 5 example_iv example_state st'"
proof -
  have "index_ok ram_bpf example_state" by (simp add: index_ok_def example_manager_def NewExecutableInfoManager_def)
  moreover have "fresh_id ram_bpf 5 (ebpf example_state)"
    by (simp add: fresh_id_def example_manager_def NewExecutableInfoManager_def example_handler_def newAsyncMapUpdaterPool_def ram_bpf_def)
  moreover have "\<exists>ref st'. loadDeltas ram_bpf 5 example_iv example_state = Ret (Inr ref, st')"
    by (simp add: loadDeltas_def example_defs example_manager_def NewExecutableInfoManager_def
      example_handler_def newAsyncMapUpdaterPool_def ram_bpf_def addDelta_def getUnwindInfoIndex_def delta_info_def delta_addr_def
      calculateMergeOpcode_def UpdateUnwindInfo_def on_map_def trackMapError_def load_maps_def UpdateExeIDToStackDeltas_def
      fill_inner_def EnqueueUpdate_def workerIdx_def UpdateStackDeltaPages_def update_pages_def getMapID_def LeadingZeros32_def bits_Len.simps)
      (simp add: word_le_nat_alt)
  ultimately show ?thesis using example_iv_ok by (auto simp: loaded_def)
qed





end
