(* ===== verification/Tracemgmt.thy ===== *)
theory Tracemgmt
  imports NativeUnwind
begin

text \<open>
  The management of traces in the kernel, \<open>src/support/ebpf/tracemgmt.h\<close>: the buffer of a trace and the
  frames pushed to it, the resolution of a program counter to a mapping, and the programs that unwind a
  trace by calling each other, with the native unwinder (\<open>native_stack_trace.ebpf.c\<close>) and the program
  that ends a trace (\<open>interpreter_dispatcher.ebpf.c\<close>).

  A tail call does not return, so a program is a function to the next program and the record.  The
  interpreter unwinders are a parameter.
\<close>

section \<open>The buffer of a trace\<close>

abbreviation (input) MAX_FRAME_DATA_SZ :: nat where "MAX_FRAME_DATA_SZ \<equiv> 24576"
abbreviation (input) MAX_FRAME_TRAILER_DATA_SZ :: u16 where "MAX_FRAME_TRAILER_DATA_SZ \<equiv> 640"
abbreviation (input) TRACE_DATA_SZ :: u64 where "TRACE_DATA_SZ \<equiv> 25216"

text \<open>The result is the index of the reserved bytes; the difference is one of \<open>size_t\<close>.\<close>

definition reserve_variable_data :: "Trace \<Rightarrow> u16 \<Rightarrow> u16 \<Rightarrow> u16 option" where
  "reserve_variable_data trace alloc_sz reserve_sz =
     (if ucast (variable_data_end trace) > TRACE_DATA_SZ - ucast alloc_sz - ucast reserve_sz then None
      else Some (variable_data_end trace))"

definition commit_variable_data :: "u16 \<Rightarrow> Trace \<Rightarrow> Trace" where
  "commit_variable_data commit_sz trace = trace\<lparr>variable_data_end := variable_data_end trace + commit_sz\<rparr>"

definition end_variable_data :: "u16 \<Rightarrow> Trace \<Rightarrow> u16 \<times> Trace" where
  "end_variable_data item_sz trace =
     (let e = variable_data_end trace
      in (e, if item_sz AND 7 \<noteq> 0 then trace\<lparr>variable_data_end := (e + 7) AND NOT 7\<rparr> else trace))"

text \<open>A store of a 64-bit value, and of several, to the bytes at an index.\<close>

definition store64 :: "nat \<Rightarrow> u64 \<Rightarrow> (nat \<Rightarrow> u8) \<Rightarrow> nat \<Rightarrow> u8" where
  "store64 i v m = (\<lambda>j. if i \<le> j \<and> j < i + 8 then ucast (drop_bit (8 * (j - i)) v) else m j)"

fun store_words :: "nat \<Rightarrow> u64 list \<Rightarrow> (nat \<Rightarrow> u8) \<Rightarrow> nat \<Rightarrow> u8" where
  "store_words i [] m = m"
| "store_words i (v # vs) m = store_words (i + 8) vs (store64 i v m)"

definition write_words :: "u16 \<Rightarrow> u64 list \<Rightarrow> Trace \<Rightarrow> Trace" where
  "write_words i vs trace = trace\<lparr>variable_data := store_words (unat i) vs (variable_data trace)\<rparr>"

text \<open>The values that the caller fills in are an argument.\<close>

definition push_context_values :: "u64 list \<Rightarrow> Trace \<Rightarrow> u16 option \<times> Trace" where
  "push_context_values vals trace =
     (let values_sz = of_nat (8 * length vals)
      in case reserve_variable_data trace values_sz MAX_FRAME_TRAILER_DATA_SZ of
           None \<Rightarrow> (None, trace)
         | Some pos \<Rightarrow>
             (let (e, trace) = end_variable_data 8 (commit_variable_data values_sz trace)
              in (Some pos, write_words pos vals (trace\<lparr>context_value_end := e\<rparr>))))"

text \<open>\<open>bpf_get_stack\<close> is the list of addresses it stores; an error stores nothing.\<close>

definition push_kernel_frames :: "u64 list option \<Rightarrow> Trace \<Rightarrow> Trace" where
  "push_kernel_frames stack trace =
     (case reserve_variable_data trace 1016 MAX_FRAME_TRAILER_DATA_SZ of
        None \<Rightarrow> trace
      | Some data \<Rightarrow>
          (case stack of
             None \<Rightarrow> trace
           | Some addrs \<Rightarrow>
               if addrs = [] then trace
               else
                 let (e, trace) = end_variable_data 8 (commit_variable_data (of_nat (8 * length addrs)) trace)
                 in write_words data addrs (trace\<lparr>kernel_frame_end := e\<rparr>)))"

section \<open>Frames\<close>

definition frame_header :: "u8 \<Rightarrow> u8 \<Rightarrow> u8 \<Rightarrow> u64 \<Rightarrow> u64" where
  "frame_header frame_type flags len data =
     push_bit 60 (ucast frame_type) OR push_bit 56 (ucast flags) OR push_bit 52 (ucast len) OR
       (data AND (push_bit 52 1 - 1))"

text \<open>The result is the index of the first variable field.\<close>

definition push_frame :: "u8 \<Rightarrow> u8 \<Rightarrow> u64 \<Rightarrow> u8 \<Rightarrow> UnwindState \<times> Trace \<Rightarrow> u16 option \<times> UnwindState \<times> Trace" where
  "push_frame frame_type frame_flags frame_data frame_varlen st =
     (let (s, trace) = st;
          frame_sz = 8 * (1 + ucast frame_varlen)
      in case reserve_variable_data trace frame_sz (8 + MAX_FRAME_TRAILER_DATA_SZ) of
           None \<Rightarrow> (None, s\<lparr>error_metric := ''UnwindErrStackLengthExceeded''\<rparr>, trace)
         | Some pos \<Rightarrow>
             (Some (pos + 8), s,
              write_words pos [frame_header frame_type frame_flags (1 + frame_varlen) frame_data]
                (commit_variable_data frame_sz (trace\<lparr>num_frames := num_frames trace + 1\<rparr>))))"

abbreviation (input) FRAME_MARKER_UNKNOWN :: u8 where "FRAME_MARKER_UNKNOWN \<equiv> 0"
abbreviation (input) FRAME_MARKER_NATIVE :: u8 where "FRAME_MARKER_NATIVE \<equiv> 3"
abbreviation (input) FRAME_FLAG_ERROR :: u8 where "FRAME_FLAG_ERROR \<equiv> 1"
abbreviation (input) FRAME_FLAG_RETURN_ADDRESS :: u8 where "FRAME_FLAG_RETURN_ADDRESS \<equiv> 2"

definition push_native :: "u64 \<Rightarrow> u64 \<Rightarrow> bool \<Rightarrow> UnwindState \<times> Trace \<Rightarrow> ErrorCode \<times> UnwindState \<times> Trace" where
  "push_native file line ret_addr st =
     (let ra_flag = (if ret_addr then FRAME_FLAG_RETURN_ADDRESS else 0);
          (data, s, trace) = push_frame FRAME_MARKER_NATIVE ra_flag line 1 st
      in case data of
           None \<Rightarrow> (ERR_STACK_LENGTH_EXCEEDED, s, trace)
         | Some pos \<Rightarrow> (ERR_OK, s, write_words pos [file] trace))"

text \<open>The numbers of the errors.\<close>

primrec error_number :: "ErrorCode \<Rightarrow> u64" where
  "error_number ERR_OK = 0"
| "error_number ERR_UNREACHABLE = 1"
| "error_number ERR_STACK_LENGTH_EXCEEDED = 2"
| "error_number ERR_EMPTY_STACK = 3"
| "error_number ERR_MAX_TAIL_CALLS = 5"
| "error_number ERR_NATIVE_LOOKUP_TEXT_SECTION = 4000"
| "error_number ERR_NATIVE_LOOKUP_STACK_DELTA_OUTER_MAP = 4001"
| "error_number ERR_NATIVE_LOOKUP_STACK_DELTA_INNER_MAP = 4002"
| "error_number ERR_NATIVE_EXCEEDED_DELTA_LOOKUP_ITERATIONS = 4003"
| "error_number ERR_NATIVE_LOOKUP_RANGE = 4004"
| "error_number ERR_NATIVE_STACK_DELTA_INVALID = 4005"
| "error_number ERR_NATIVE_PC_READ = 4007"
| "error_number ERR_NATIVE_LR_UNWINDING_MID_TRACE = 4008"
| "error_number ERR_NATIVE_READ_KERNELMODE_REGS = 4009"
| "error_number ERR_NATIVE_UNEXPECTED_KERNEL_ADDRESS = 4011"
| "error_number ERR_NATIVE_NO_PID_PAGE_MAPPING = 4012"
| "error_number ERR_NATIVE_ZERO_PC = 4013"
| "error_number ERR_NATIVE_SMALL_PC = 4014"
| "error_number ERR_NATIVE_BAD_UNWIND_INFO_INDEX = 4015"
| "error_number ERR_NATIVE_AARCH64_32BIT_COMPAT_MODE = 4016"
| "error_number ERR_NATIVE_X64_32BIT_COMPAT_MODE = 4017"
| "error_number ERR_NATIVE_UNSUPPORTED_MAPPING = 4018"
| "error_number ERR_NATIVE_NO_VMA = 4019"
| "error_number ERR_NATIVE_NON_EXECUTABLE_VMA = 4020"
| "error_number ERR_GO_NO_OFFSETS = 9000"
| "error_number ERR_GO_ASMCGOCALL_UNWIND_FAILURE = 9001"
| "error_number ERR_GO_RUNTIME_LOAD_FAILURE = 9002"
| "error_number (ERR_INTERPRETER n) = n"

definition push_error :: "u8 \<Rightarrow> ErrorCode \<Rightarrow> UnwindState \<times> Trace \<Rightarrow> ErrorCode \<times> UnwindState \<times> Trace" where
  "push_error frame_type err st =
     (let (data, s, trace) = push_frame frame_type FRAME_FLAG_ERROR (error_number err) 0 st
      in (if data \<noteq> None then ERR_OK else ERR_STACK_LENGTH_EXCEEDED, s, trace))"

definition push_abort :: "ErrorCode \<Rightarrow> Trace \<Rightarrow> Trace" where
  "push_abort err trace =
     (case reserve_variable_data trace 8 MAX_FRAME_TRAILER_DATA_SZ of
        None \<Rightarrow> trace
      | Some pos \<Rightarrow>
          (let trace = commit_variable_data 8 (write_words pos [frame_header FRAME_MARKER_UNKNOWN FRAME_FLAG_ERROR 1 (error_number err)] trace)
           in trace\<lparr>num_frames := num_frames trace + 1\<rparr>))"

section \<open>Resolving a program counter\<close>

abbreviation (input) PROG_UNWIND_STOP :: nat where "PROG_UNWIND_STOP \<equiv> 0"
abbreviation (input) PROG_UNWIND_NATIVE :: nat where "PROG_UNWIND_NATIVE \<equiv> 1"

definition is_kernel_address :: "u64 \<Rightarrow> bool" where
  "is_kernel_address addr \<longleftrightarrow> addr AND 0xFF00000000000000 \<noteq> 0"

definition decode_bias_and_unwind_program :: "u64 \<Rightarrow> u64 \<times> nat" where
  "decode_bias_and_unwind_program b = (b AND 0x00FFFFFFFFFFFFFF, unat (drop_bit 56 b))"

abbreviation (input) pc_of :: "UnwindState \<Rightarrow> u64" where "pc_of s \<equiv> regs s ! R_pc"

definition fail_metric :: "string \<Rightarrow> PerCPURecord \<Rightarrow> PerCPURecord" where
  "fail_metric metric record = record\<lparr>rec_state := (rec_state record)\<lparr>error_metric := metric\<rparr>\<rparr>"

text \<open>The key of the lookup holds the big-endian process ID and address.\<close>

definition resolve_unwind_mapping ::
  "'k bpf \<Rightarrow> 'k \<Rightarrow> nat \<Rightarrow> PerCPURecord \<Rightarrow> (ErrorCode \<times> nat) \<times> PerCPURecord" where
  "resolve_unwind_mapping K k unwinder record =
     (let s = rec_state record; pc = pc_of s
      in if is_kernel_address pc
         then ((ERR_NATIVE_UNEXPECTED_KERNEL_ADDRESS, unwinder), fail_metric ''UnwindNativeErrKernelAddress'' record)
         else if pc < 0x1000 then ((ERR_NATIVE_SMALL_PC, unwinder), fail_metric ''UnwindNativeSmallPC'' record)
         else case bpf_Lookup K PidPageToMappingInfo
             (KPid \<lparr>PrefixLen = 96, Pid = ReverseBytes32 (tr_pid (rec_trace record)), pp_Page = ReverseBytes64 pc\<rparr>) k of
           Some (VMapping val) \<Rightarrow>
             (let (bias, unwinder) = decode_bias_and_unwind_program (Bias_and_unwind_program val)
              in ((ERR_OK, unwinder), record\<lparr>rec_state := s\<lparr>text_section_bias := bias, text_section_id := File_id val,
                   text_section_offset := pc - bias\<rparr>\<rparr>))
         | _ \<Rightarrow> ((ERR_NATIVE_NO_PID_PAGE_MAPPING, unwinder), fail_metric ''UnwindNativeErrWrongTextSection'' record))"

definition pid_information :: "'k bpf \<Rightarrow> 'k \<Rightarrow> u32 \<Rightarrow> PIDPageMappingInfo option" where
  "pid_information K k pid =
     (case bpf_Lookup K PidPageToMappingInfo (KPid \<lparr>PrefixLen = 96, Pid = ReverseBytes32 pid, pp_Page = 0\<rparr>) k of
        Some (VMapping val) \<Rightarrow> Some val
      | _ \<Rightarrow> None)"

definition pid_uses_anonymous_mappings :: "PIDPageMappingInfo \<Rightarrow> bool" where
  "pid_uses_anonymous_mappings info \<longleftrightarrow> File_id info AND 1 \<noteq> 0"

definition matches_interpreter_range :: "u64 \<Rightarrow> OffsetRange \<Rightarrow> bool" where
  "matches_interpreter_range section_offset rng \<longleftrightarrow>
     section_offset \<ge> Lower_offset1 rng \<and> section_offset \<le> Upper_offset1 rng \<or>
     section_offset \<ge> Lower_offset2 rng \<and> section_offset \<le> Upper_offset2 rng"

definition unwinder_is_done :: "PerCPURecord \<Rightarrow> nat \<Rightarrow> bool" where
  "unwinder_is_done record unwinder \<longleftrightarrow> unwindersDone record AND push_bit unwinder 1 \<noteq> 0"

definition unwinder_mark_done :: "nat \<Rightarrow> PerCPURecord \<Rightarrow> PerCPURecord" where
  "unwinder_mark_done unwinder record = record\<lparr>unwindersDone := unwindersDone record OR push_bit unwinder 1\<rparr>"

definition get_next_interpreter :: "'k bpf \<Rightarrow> 'k \<Rightarrow> PerCPURecord \<Rightarrow> nat \<times> PerCPURecord" where
  "get_next_interpreter K k record =
     (let s = rec_state record
      in case bpf_Lookup K InterpreterOffsets (K64 (text_section_id s)) k of
           Some (VRange rng) \<Rightarrow>
             (if matches_interpreter_range (text_section_offset s) rng \<and> \<not> unwinder_is_done record (unat (Program_index rng))
              then (unat (Program_index rng), increment_metric ''UnwindCallInterpreter'' record)
              else (PROG_UNWIND_NATIVE, record))
         | _ \<Rightarrow> (PROG_UNWIND_NATIVE, record))"

definition get_next_unwinder_after_native_frame ::
  "'k bpf \<Rightarrow> 'k \<Rightarrow> PerCPURecord \<Rightarrow> (ErrorCode \<times> nat) \<times> PerCPURecord" where
  "get_next_unwinder_after_native_frame K k record =
     (if pc_of (rec_state record) = 0
      then ((ERR_NATIVE_ZERO_PC, PROG_UNWIND_STOP), fail_metric ''UnwindErrZeroPC'' record)
      else
        let ((err, unwinder), record) = resolve_unwind_mapping K k PROG_UNWIND_STOP record
        in if err \<noteq> ERR_OK then ((err, unwinder), record)
           else if unwinder = PROG_UNWIND_NATIVE
           then (let (unwinder, record) = get_next_interpreter K k record in ((ERR_OK, unwinder), record))
           else ((ERR_OK, unwinder), record))"

text \<open>
  The result of \<open>bpf_find_vma\<close>: no VMA, another failure, or the shape of the VMA when the callback ran;
  \<open>enabled\<close> and \<open>shape_available\<close> are set at load time.
\<close>

datatype find_vma = VMA_ENOENT | VMA_FAILED | VMA_FOUND bool bool

definition refine_missing_mapping_error :: "bool \<Rightarrow> bool \<Rightarrow> find_vma \<Rightarrow> bool \<Rightarrow> UnwindState \<Rightarrow> UnwindState" where
  "refine_missing_mapping_error enabled shape_available vma uses_anonymous s =
     (let update = (\<lambda>err s. if unwind_error s = ERR_NATIVE_NO_PID_PAGE_MAPPING then s\<lparr>unwind_error := err\<rparr> else s)
      in if error_metric s \<noteq> ''UnwindNativeErrWrongTextSection'' \<or> \<not> enabled then s
         else case vma of
           VMA_ENOENT \<Rightarrow> (update ERR_NATIVE_NO_VMA s)\<lparr>error_metric := ''UnwindNativeErrNoVMA''\<rparr>
         | VMA_FAILED \<Rightarrow> s
         | VMA_FOUND executable anonymous \<Rightarrow>
             (if \<not> shape_available then s
              else if \<not> executable
              then (update ERR_NATIVE_NON_EXECUTABLE_VMA s)\<lparr>error_metric := ''UnwindNativeErrNonExecutableVMA''\<rparr>
              else if anonymous \<and> \<not> uses_anonymous
              then (update ERR_NATIVE_UNSUPPORTED_MAPPING s)\<lparr>error_metric := ''UnwindNativeErrUnsupportedAnonymousMapping''\<rparr>
              else s))"

section \<open>Programs\<close>

text \<open>The program a tail call enters, and the record.\<close>

definition tail_call :: "nat \<Rightarrow> PerCPURecord \<Rightarrow> nat \<times> PerCPURecord" where
  "tail_call next_prog record =
     (let (next_prog, record) =
        (if tailCalls record \<ge> 29
         then (PROG_UNWIND_STOP, increment_metric ''MaxTailCalls''
           (record\<lparr>rec_state := (rec_state record)\<lparr>unwind_error := ERR_MAX_TAIL_CALLS\<rparr>\<rparr>))
         else (next_prog, record))
      in (next_prog, record\<lparr>tailCalls := tailCalls record + 1\<rparr>))"

text \<open>The loop of \<open>unwind_native\<close> with its remaining iterations; \<open>unwind_frame\<close> is \<open>unwind_one_frame\<close>.\<close>

fun native_loop ::
  "'k bpf \<Rightarrow> 'k \<Rightarrow> (PerCPURecord \<Rightarrow> frame_result \<times> PerCPURecord) \<Rightarrow> nat \<Rightarrow> ErrorCode \<times> nat \<Rightarrow> PerCPURecord \<Rightarrow>
     (ErrorCode \<times> nat) \<times> PerCPURecord" where
  "native_loop K k unwind_frame 0 res record = (res, record)"
| "native_loop K k unwind_frame (Suc n) res record =
     (let record = increment_metric ''UnwindNativeAttempts'' record;
          s = rec_state record;
          (err, s, trace) = push_native (text_section_id s) (text_section_offset s) (return_address s) (s, rec_trace record);
          record = record\<lparr>rec_state := s, rec_trace := trace\<rparr>
      in if err \<noteq> ERR_OK then ((err, PROG_UNWIND_STOP), record)
         else
           let (res, record) = unwind_frame record
           in if fr_error res \<noteq> ERR_OK \<or> fr_stop res then ((fr_error res, PROG_UNWIND_STOP), record)
              else
                let ((err, unwinder), record) = get_next_unwinder_after_native_frame K k record
                in if err \<noteq> ERR_OK \<or> unwinder \<noteq> PROG_UNWIND_NATIVE then ((err, unwinder), record)
                   else native_loop K k unwind_frame n (err, unwinder) record)"

abbreviation (input) NATIVE_FRAMES_PER_PROGRAM :: nat where "NATIVE_FRAMES_PER_PROGRAM \<equiv> 5"

definition unwind_native ::
  "'k bpf \<Rightarrow> 'k \<Rightarrow> (PerCPURecord \<Rightarrow> frame_result \<times> PerCPURecord) \<Rightarrow> PerCPURecord \<Rightarrow> nat \<times> PerCPURecord" where
  "unwind_native K k unwind_frame record =
     (let ((err, unwinder), record) = native_loop K k unwind_frame NATIVE_FRAMES_PER_PROGRAM (ERR_OK, PROG_UNWIND_STOP) record
      in tail_call unwinder (record\<lparr>rec_state := (rec_state record)\<lparr>unwind_error := err\<rparr>\<rparr>))"

end
