(* ===== verification/GoRuntime.thy ===== *)
theory GoRuntime
  imports Tracemgmt
begin

text \<open>
  The parts of the eBPF programs that read structures of the Go runtime: the recovery of the frame behind
  \<open>runtime.morestack\<close> and \<open>runtime.asmcgocall\<close> (\<open>src/support/ebpf/go_runtime.h\<close>) and the labels of a goroutine
  (\<open>src/support/ebpf/interpreter_dispatcher.ebpf.c\<close>).

  The memory of the process is the parameter \<open>rd\<close>: \<open>rd addr n\<close> are the \<open>n\<close> bytes at \<open>addr\<close>, or \<open>None\<close> when
  \<open>bpf_probe_read_user\<close> fails.  The scratch space of the record is a memory of bytes.
\<close>

section \<open>Memory\<close>

type_synonym user_mem = "u64 \<Rightarrow> nat \<Rightarrow> u8 list option"

definition rd64 :: "user_mem \<Rightarrow> u64 \<Rightarrow> u64 option" where
  "rd64 rd addr = map_option LittleEndian (rd addr 8)"

definition load64 :: "(nat \<Rightarrow> u8) \<Rightarrow> nat \<Rightarrow> u64" where
  "load64 m i = LittleEndian (map m [i..<i + 8])"

definition store_bytes :: "nat \<Rightarrow> u8 list \<Rightarrow> (nat \<Rightarrow> u8) \<Rightarrow> nat \<Rightarrow> u8" where
  "store_bytes i bs m = (\<lambda>j. if i \<le> j \<and> j < i + length bs then bs ! (j - i) else m j)"

text \<open>The words of a memory, for the native unwinder.\<close>

definition words_of :: "user_mem \<Rightarrow> u64 \<Rightarrow> nat \<Rightarrow> u64 list option" where
  "words_of rd addr n = map_option (\<lambda>bs. map (\<lambda>i. LittleEndian (take 8 (drop (8 * i) bs))) [0..<n]) (rd addr (8 * n))"

section \<open>The current goroutine\<close>

record GoRuntimeCtx =
  ctx_g :: u64
  ctx_m :: u64
  ctx_m_g0 :: u64
  ctx_m_gsignal :: u64
  ctx_m_curg :: u64

abbreviation (input) R_r28 :: nat where "R_r28 \<equiv> 8"

definition go_get_g_register :: "arch \<Rightarrow> UnwindState \<Rightarrow> u64" where
  "go_get_g_register a s = (case a of Aarch64 \<Rightarrow> regs s ! R_r28 | X86_64 \<Rightarrow> 0)"

text \<open>\<open>tls_base\<close> is the result of \<open>tsd_get_base\<close>, which reads the kernel's thread structure.\<close>

definition go_get_g_ptr :: "arch \<Rightarrow> user_mem \<Rightarrow> u64 option \<Rightarrow> GoRuntimeOffsets \<Rightarrow> UnwindState \<Rightarrow> u64" where
  "go_get_g_ptr a rd tls_base offs s =
     (let g_register = go_get_g_register a s
      in if tls_offset offs = 0 then g_register
         else case tls_base of
           None \<Rightarrow> g_register
         | Some base \<Rightarrow>
             (case rd64 rd (base + scast (tls_offset offs)) of
                None \<Rightarrow> g_register
              | Some g_addr \<Rightarrow> if g_addr \<noteq> 0 then g_addr else g_register))"

definition go_get_m_ptr :: "arch \<Rightarrow> user_mem \<Rightarrow> u64 option \<Rightarrow> GoRuntimeOffsets \<Rightarrow> UnwindState \<Rightarrow> u64" where
  "go_get_m_ptr a rd tls_base offs s =
     (let g_addr = go_get_g_ptr a rd tls_base offs s
      in if g_addr = 0 then 0
         else case rd64 rd (g_addr + ucast (m_offset offs)) of None \<Rightarrow> 0 | Some m_ptr \<Rightarrow> m_ptr)"

definition go_validate_runtime_offsets :: "GoRuntimeOffsets \<Rightarrow> ErrorCode" where
  "go_validate_runtime_offsets offs = (if m_offset offs = 0 then ERR_GO_NO_OFFSETS else ERR_OK)"

abbreviation (input) max_off :: u64 where "max_off \<equiv> 192"

text \<open>The context is all zero but for \<open>g\<close> when an error is returned.\<close>

definition go_runtime_load_ctx ::
  "arch \<Rightarrow> user_mem \<Rightarrow> u64 option \<Rightarrow> GoRuntimeOffsets \<Rightarrow> UnwindState \<Rightarrow> (nat \<Rightarrow> u8) \<Rightarrow>
     (ErrorCode \<times> GoRuntimeCtx) \<times> (nat \<Rightarrow> u8)" where
  "go_runtime_load_ctx a rd tls_base offs s scratch =
     (let g = go_get_g_ptr a rd tls_base offs s;
          fails = ((ERR_GO_RUNTIME_LOAD_FAILURE, \<lparr>ctx_g = g, ctx_m = 0, ctx_m_g0 = 0, ctx_m_gsignal = 0, ctx_m_curg = 0\<rparr>), scratch);
          curg = ucast (go_curg offs) :: u64;
          gsignal = ucast (m_gsignal offs) :: u64
      in if g = 0 then fails
         else case rd64 rd (g + ucast (m_offset offs)) of
           None \<Rightarrow> fails
         | Some m_ptr \<Rightarrow>
             if m_ptr = 0 \<or> curg > max_off \<or> gsignal > max_off then fails
             else case rd m_ptr (unat (curg + 8)) of
               None \<Rightarrow> fails
             | Some bs \<Rightarrow>
                 (let scratch = store_bytes 0 bs scratch
                  in ((ERR_OK, \<lparr>ctx_g = g, ctx_m = m_ptr, ctx_m_g0 = load64 scratch 0,
                        ctx_m_gsignal = load64 scratch (unat gsignal), ctx_m_curg = load64 scratch (unat curg)\<rparr>), scratch)))"

section \<open>The frame behind morestack\<close>

text \<open>The part of \<open>go_unwind_morestack\<close> behind the read of the \<open>g\<close> structure: the recovered frame is pushed and left.\<close>

definition morestack_caller ::
  "'k bpf \<Rightarrow> 'k \<Rightarrow> arch \<Rightarrow> user_mem \<Rightarrow> GoRuntimeOffsets \<Rightarrow> (nat \<Rightarrow> u8) \<Rightarrow> PerCPURecord \<Rightarrow> ErrorCode \<times> PerCPURecord" where
  "morestack_caller K k a rd offs scratch record =
     (let field = (\<lambda>off. load64 scratch (unat off));
          s = set_reg R_fp (field (sched_bp_off offs)) (set_reg R_pc (field (sched_pc_off offs))
                (set_reg R_sp (field (sched_sp_off offs)) (rec_state record)));
          record = record\<lparr>rec_state := unwinder_mark_nonleaf_frame a s\<rparr>;
          ((err, unwinder), record) = resolve_unwind_mapping K k PROG_UNWIND_STOP record
      in if err \<noteq> ERR_OK then (err, record)
         else if unwinder \<noteq> PROG_UNWIND_NATIVE then (ERR_GO_RUNTIME_LOAD_FAILURE, record)
         else
           let s = rec_state record;
               (err, s, trace) = push_native (text_section_id s) (text_section_offset s) True (s, rec_trace record);
               record = record\<lparr>rec_state := s, rec_trace := trace\<rparr>
           in if err \<noteq> ERR_OK then (err, record)
              else case a of
                Aarch64 \<Rightarrow>
                  (if ucast (sched_lr_off offs) > max_off then (ERR_GO_RUNTIME_LOAD_FAILURE, record)
                   else (ERR_OK, record\<lparr>rec_state := unwinder_mark_nonleaf_frame a (set_reg R_pc (field (sched_lr_off offs)) s)\<rparr>))
              | X86_64 \<Rightarrow>
                  (case rd64 rd (regs s ! R_sp) of
                     None \<Rightarrow> (ERR_GO_RUNTIME_LOAD_FAILURE, record\<lparr>rec_state := set_reg R_pc 0 s\<rparr>)
                   | Some pc \<Rightarrow> (ERR_OK, record\<lparr>rec_state := unwinder_mark_nonleaf_frame a
                       (set_reg R_sp (regs s ! R_sp + 8) (set_reg R_pc pc s))\<rparr>)))"

definition go_unwind_morestack ::
  "'k bpf \<Rightarrow> 'k \<Rightarrow> arch \<Rightarrow> user_mem \<Rightarrow> u64 option \<Rightarrow> (nat \<Rightarrow> u8) \<Rightarrow> PerCPURecord \<Rightarrow> ErrorCode \<times> PerCPURecord" where
  "go_unwind_morestack K k a rd tls_base scratch record =
     (let offs = goOffsets record; s = rec_state record; err = go_validate_runtime_offsets offs
      in if err \<noteq> ERR_OK then (err, record)
         else
           let ((err, ctx), scratch) = go_runtime_load_ctx a rd tls_base offs s scratch
           in if err \<noteq> ERR_OK then (err, record)
              else if ctx_m_curg ctx = 0 \<or> ctx_g ctx = ctx_m_curg ctx
              then (ERR_OK, record\<lparr>rec_state := set_reg R_pc 0 s\<rparr>)
              else if ucast (m_offset offs) > max_off \<or> ucast (sched_sp_off offs) > max_off
                \<or> ucast (sched_pc_off offs) > max_off \<or> ucast (sched_bp_off offs) > max_off
              then (ERR_GO_RUNTIME_LOAD_FAILURE, record)
              else case rd (ctx_m_curg ctx) (unat (sched_bp_off offs + 8)) of
                None \<Rightarrow> (ERR_GO_RUNTIME_LOAD_FAILURE, record)
              | Some bs \<Rightarrow>
                  (let scratch = store_bytes 0 bs scratch
                   in if load64 scratch (unat (m_offset offs)) \<noteq> ctx_m ctx then (ERR_GO_RUNTIME_LOAD_FAILURE, record)
                      else morestack_caller K k a rd offs scratch record))"

section \<open>The frame behind asmcgocall\<close>

definition go_asmcgocall_is_nosave :: "GoRuntimeCtx \<Rightarrow> bool" where
  "go_asmcgocall_is_nosave ctx \<longleftrightarrow>
     ctx_g ctx = 0 \<or> ctx_g ctx = ctx_m_gsignal ctx \<or>
     ctx_g ctx = ctx_m_g0 ctx \<and> \<not> (ctx_m_curg ctx \<noteq> 0 \<and> ctx_m_curg ctx \<noteq> ctx_g ctx)"

text \<open>The labels \<open>unwind_fp\<close> and \<open>unwind_failure\<close>.\<close>

definition asmcgocall_failure :: "ErrorCode \<Rightarrow> PerCPURecord \<Rightarrow> ErrorCode \<times> PerCPURecord" where
  "asmcgocall_failure err record = (err, increment_metric ''UnwindGoAsmcgocallUnwindFailure'' record)"

definition asmcgocall_fp :: "u64 \<Rightarrow> user_mem \<Rightarrow> UnwindState \<Rightarrow> PerCPURecord \<Rightarrow> ErrorCode \<times> PerCPURecord" where
  "asmcgocall_fp pac rd s record =
     (case unwinder_unwind_frame_pointer Aarch64 pac (words_of rd) s of
        None \<Rightarrow> asmcgocall_failure ERR_GO_ASMCGOCALL_UNWIND_FAILURE (record\<lparr>rec_state := s\<rparr>)
      | Some s \<Rightarrow> (ERR_OK, increment_metric ''UnwindGoAsmcgocallSuccess'' (record\<lparr>rec_state := s\<rparr>)))"

definition go_unwind_asmcgocall ::
  "u64 \<Rightarrow> user_mem \<Rightarrow> u64 option \<Rightarrow> (nat \<Rightarrow> u8) \<Rightarrow> PerCPURecord \<Rightarrow> ErrorCode \<times> PerCPURecord" where
  "go_unwind_asmcgocall pac rd tls_base scratch record =
     (let record = increment_metric ''UnwindGoAsmcgocallAttempts'' record;
          offs = goOffsets record; s = rec_state record; err = go_validate_runtime_offsets offs
      in if err \<noteq> ERR_OK then asmcgocall_failure err record
         else
           let ((err, ctx), scratch) = go_runtime_load_ctx Aarch64 rd tls_base offs s scratch
           in if err \<noteq> ERR_OK \<and> ctx_g ctx \<noteq> 0 then asmcgocall_failure err record
              else if go_asmcgocall_is_nosave ctx then asmcgocall_fp pac rd s record
              else if ctx_m_curg ctx = 0 then asmcgocall_failure ERR_GO_ASMCGOCALL_UNWIND_FAILURE record
              else if ctx_g ctx = ctx_m_curg ctx then asmcgocall_fp pac rd s record
              else if ucast (m_offset offs) > max_off \<or> ucast (sched_bp_off offs) > max_off
              then asmcgocall_failure ERR_GO_ASMCGOCALL_UNWIND_FAILURE record
              else case rd (ctx_m_curg ctx) (unat (sched_bp_off offs + 8)) of
                None \<Rightarrow> asmcgocall_failure ERR_GO_ASMCGOCALL_UNWIND_FAILURE record
              | Some bs \<Rightarrow>
                  (let scratch = store_bytes 0 bs scratch;
                       saved_bp = load64 scratch (unat (sched_bp_off offs))
                   in if load64 scratch (unat (m_offset offs)) \<noteq> ctx_m ctx \<or> saved_bp = 0
                      then asmcgocall_failure ERR_GO_ASMCGOCALL_UNWIND_FAILURE record
                      else asmcgocall_fp pac rd (set_reg R_r28 (ctx_m_curg ctx) (set_reg R_lr 0 (set_reg R_fp saved_bp s))) record))"

section \<open>Labels\<close>

text \<open>A Go string is its address and length; a label has 16 bytes of key and 48 of value.\<close>

type_synonym GoString = "u64 \<times> u64"

definition golabel_push :: "user_mem \<Rightarrow> GoString \<Rightarrow> GoString \<Rightarrow> Trace \<Rightarrow> bool \<times> Trace" where
  "golabel_push rd ks vs trace =
     (case reserve_variable_data trace 64 0 of
        None \<Rightarrow> (False, trace)
      | Some i \<Rightarrow>
          (let l = unat i; klen = unat (min (snd ks) 15); vlen = unat (min (snd vs) 47)
           in case rd (fst ks) klen of
                None \<Rightarrow> (False, trace\<lparr>variable_data := store_bytes l (replicate klen 0) (variable_data trace)\<rparr>)
              | Some key \<Rightarrow>
                  (let trace = trace\<lparr>variable_data := store_bytes l (key @ [0]) (variable_data trace)\<rparr>
                   in case rd (fst vs) vlen of
                        None \<Rightarrow> (False, trace\<lparr>variable_data := store_bytes (l + 16) (replicate vlen 0) (variable_data trace)\<rparr>)
                      | Some val \<Rightarrow> (True, commit_variable_data 64
                          (trace\<lparr>variable_data := store_bytes (l + 16) (val @ [0]) (variable_data trace)\<rparr>)))))"

fun push_labels :: "user_mem \<Rightarrow> (GoString \<times> GoString) list \<Rightarrow> Trace \<Rightarrow> bool \<times> Trace" where
  "push_labels rd [] trace = (True, trace)"
| "push_labels rd ((k, v) # labels) trace =
     (let (ok, trace) = golabel_push rd k v trace
      in if ok then push_labels rd labels trace else (False, trace))"

text \<open>The \<open>n\<close> pairs of strings in an array of Go strings.\<close>

definition string_at :: "u8 list \<Rightarrow> nat \<Rightarrow> GoString" where
  "string_at bs i = (LittleEndian (take 8 (drop (16 * i) bs)), LittleEndian (take 8 (drop (16 * i + 8) bs)))"

definition go_labels_get_from_slice :: "user_mem \<Rightarrow> u64 \<Rightarrow> Trace \<Rightarrow> bool \<times> Trace" where
  "go_labels_get_from_slice rd labels_slice_ptr trace =
     (case rd labels_slice_ptr 24 of
        None \<Rightarrow> (False, trace)
      | Some hdr \<Rightarrow>
          (let num = unat (min (LittleEndian (take 8 (drop 8 hdr)) :: u64) 10)
           in case rd (LittleEndian (take 8 hdr)) (32 * num) of
                None \<Rightarrow> (False, trace)
              | Some bs \<Rightarrow> push_labels rd (map (\<lambda>i. (string_at bs (2 * i), string_at bs (2 * i + 1))) [0..<num]) trace))"

text \<open>
  The loop over the eight slots of a bucket: an empty slot ends the bucket, a slot with another small
  top hash is skipped.  The first component of the result is \<open>None\<close> to go on with the next bucket.
\<close>

fun bucket_loop :: "user_mem \<Rightarrow> u16 \<Rightarrow> u8 list \<Rightarrow> nat list \<Rightarrow> Trace \<Rightarrow> bool option \<times> Trace" where
  "bucket_loop rd max_end bucket [] trace = (None, trace)"
| "bucket_loop rd max_end bucket (i # slots) trace =
     (let tophash = bucket ! i
      in if tophash = 0 then (None, trace)
         else if tophash < 5 then bucket_loop rd max_end bucket slots trace
         else
           let (ok, trace) = golabel_push rd (string_at (drop 8 bucket) i) (string_at (drop 136 bucket) i) trace
           in if \<not> ok then (Some False, trace)
              else if variable_data_end trace \<ge> max_end then (Some True, trace)
              else bucket_loop rd max_end bucket slots trace)"

fun buckets_loop :: "user_mem \<Rightarrow> u16 \<Rightarrow> u64 \<Rightarrow> u64 \<Rightarrow> nat list \<Rightarrow> Trace \<Rightarrow> bool \<times> Trace" where
  "buckets_loop rd max_end label_buckets bucket_count [] trace = (True, trace)"
| "buckets_loop rd max_end label_buckets bucket_count (b # bs) trace =
     (if of_nat b \<ge> bucket_count then (True, trace)
      else case rd (label_buckets + 272 * of_nat b) 272 of
        None \<Rightarrow> (False, trace)
      | Some bucket \<Rightarrow>
          (let (res, trace) = bucket_loop rd max_end bucket [0..<8] trace
           in case res of Some r \<Rightarrow> (r, trace) | None \<Rightarrow> buckets_loop rd max_end label_buckets bucket_count bs trace))"

definition go_labels_get_from_map :: "user_mem \<Rightarrow> GoRuntimeOffsets \<Rightarrow> u64 \<Rightarrow> Trace \<Rightarrow> bool \<times> Trace" where
  "go_labels_get_from_map rd offs labels_map_ptr_ptr trace =
     (case rd64 rd labels_map_ptr_ptr of
        None \<Rightarrow> (False, trace)
      | Some labels_map_ptr \<Rightarrow>
          (case rd64 rd (labels_map_ptr + ucast (hmap_count offs)) of
             None \<Rightarrow> (False, trace)
           | Some labels_count \<Rightarrow>
               if labels_count = 0 then (True, trace)
               else case rd (labels_map_ptr + ucast (hmap_log2_bucket_count offs)) 1 of
                 None \<Rightarrow> (False, trace)
               | Some l2 \<Rightarrow>
                   (case rd64 rd (labels_map_ptr + ucast (hmap_buckets offs)) of
                      None \<Rightarrow> (False, trace)
                    | Some label_buckets \<Rightarrow>
                        buckets_loop rd (variable_data_end trace + 640) label_buckets (push_bit (unat (hd l2)) 1) [0..<16] trace)))"

definition add_golang_labels :: "user_mem \<Rightarrow> u64 \<Rightarrow> PerCPURecord \<Rightarrow> bool \<times> PerCPURecord" where
  "add_golang_labels rd m_ptr record =
     (let offs = goOffsets record; trace = rec_trace record
      in case rd64 rd (m_ptr + ucast (go_curg offs)) of
           None \<Rightarrow> (False, record)
         | Some curg \<Rightarrow>
             (case rd64 rd (curg + ucast (go_labels offs)) of
                None \<Rightarrow> (False, record)
              | Some labels_ptr \<Rightarrow>
                  (let (ok, trace) = (if hmap_buckets offs = 0 then go_labels_get_from_slice rd labels_ptr trace
                                      else go_labels_get_from_map rd offs labels_ptr trace)
                   in (ok, record\<lparr>rec_trace := trace\<rparr>))))"

definition maybe_add_golang_labels ::
  "arch \<Rightarrow> user_mem \<Rightarrow> u64 option \<Rightarrow> bool \<Rightarrow> PerCPURecord \<Rightarrow> PerCPURecord" where
  "maybe_add_golang_labels a rd tls_base go_labels_disabled record =
     (if go_labels_disabled then record
      else if m_offset (goOffsets record) = 0 then record
      else
        let m_ptr = go_get_m_ptr a rd tls_base (goOffsets record) (rec_state record)
        in if m_ptr = 0 then record
           else
             let record = increment_metric ''UnwindGoLabelsAttempts'' record;
                 (ok, record) = add_golang_labels rd m_ptr record;
                 record = (if ok then record else increment_metric ''UnwindGoLabelsFailures'' record);
                 (e, trace) = end_variable_data 64 (rec_trace record)
             in record\<lparr>rec_trace := trace\<lparr>golang_label_end := e\<rparr>\<rparr>)"

end
