(* ===== verification/UnwindPrograms.thy ===== *)
theory UnwindPrograms
  imports GoRuntime
begin

text \<open>
  The eBPF programs that capture a trace, from the interrupted process to the trace in the ring buffer:
  \<open>collect_trace\<close> of \<open>src/support/ebpf/tracemgmt.h\<close>, the native unwinder and \<open>unwind_stop\<close>, which call each
  other by tail calls until the trace is sent.

  What the programs read of the kernel, and the values set when they are loaded, are the record
  \<open>prog_env\<close>.  The unwinders of the interpreters are the parameter \<open>interp\<close>: a program yields the record
  and the next program it asks \<open>tail_call\<close> for.
\<close>

section \<open>The interrupted process\<close>

record x86_regs =
  x_ip :: u64
  x_sp :: u64
  x_bp :: u64
  x_ax :: u64
  x_di :: u64
  x_r8 :: u64
  x_r9 :: u64
  x_r11 :: u64
  x_r13 :: u64
  x_r15 :: u64
  x_cs :: u64
  x_ss :: u64
  x_orig_ax :: u64

record arm_regs =
  a_pc :: u64
  a_sp :: u64
  a_regs :: "u64 list"
  a_pstate :: u64
  a_syscallno :: u32

datatype pt_regs = PtX86 x86_regs | PtArm arm_regs

definition set_regs :: "(nat \<times> u64) list \<Rightarrow> UnwindState \<Rightarrow> UnwindState" where
  "set_regs rvs s = fold (\<lambda>(r, v). set_reg r v) rvs s"

fun copy_state_regs :: "u64 \<Rightarrow> pt_regs \<Rightarrow> bool \<Rightarrow> UnwindState \<Rightarrow> ErrorCode \<times> UnwindState" where
  "copy_state_regs pac (PtX86 r) interrupted_kernelmode s =
     (if (ucast (x_cs r) :: u16) = 35 then (ERR_NATIVE_X64_32BIT_COMPAT_MODE, s)
      else (ERR_OK, (set_regs [(2, x_ip r), (3, x_sp r), (4, x_bp r), (6, x_ax r), (7, x_di r), (8, x_r8 r), (9, x_r9 r),
          (10, x_r11 r), (11, x_r13 r), (12, x_r15 r)] s)\<lparr>return_address := interrupted_kernelmode \<and> x_orig_ax r \<noteq> - 1\<rparr>))"
| "copy_state_regs pac (PtArm r) interrupted_kernelmode s =
     (if a_pstate r AND 0x10 \<noteq> 0 then (ERR_NATIVE_AARCH64_32BIT_COMPAT_MODE, s)
      else (ERR_OK, (set_regs [(2, normalize_pac_ptr Aarch64 pac (a_pc r)), (3, a_sp r), (4, a_regs r ! 29),
          (5, normalize_pac_ptr Aarch64 pac (a_regs r ! 30)), (6, a_regs r ! 20), (7, a_regs r ! 22), (8, a_regs r ! 28)] s)
          \<lparr>return_address := interrupted_kernelmode \<and> a_syscallno r \<noteq> - 1, lr_invalid := False\<rparr>))"

fun ptregs_is_usermode :: "pt_regs \<Rightarrow> bool" where
  "ptregs_is_usermode (PtX86 r) \<longleftrightarrow> (ucast (x_ss r) :: u16) = 43"
| "ptregs_is_usermode (PtArm r) \<longleftrightarrow> a_pstate r AND 0xf = 0"

text \<open>\<open>task_regs\<close> are the registers on the kernel's entry stack, \<open>None\<close> when they cannot be read.\<close>

definition get_usermode_regs ::
  "u64 \<Rightarrow> pt_regs \<Rightarrow> pt_regs option \<Rightarrow> PerCPURecord \<Rightarrow> ErrorCode \<times> PerCPURecord" where
  "get_usermode_regs pac ctx task_regs record =
     (if \<not> ptregs_is_usermode ctx
      then (case task_regs of
              None \<Rightarrow> (ERR_NATIVE_READ_KERNELMODE_REGS, increment_metric ''UnwindNativeErrReadKernelModeRegs'' record)
            | Some r \<Rightarrow>
                (if \<not> ptregs_is_usermode r then (ERR_EMPTY_STACK, record)
                 else let (err, s) = copy_state_regs pac r True (rec_state record) in (err, record\<lparr>rec_state := s\<rparr>)))
      else let (err, s) = copy_state_regs pac ctx False (rec_state record) in (err, record\<lparr>rec_state := s\<rparr>))"

section \<open>Environment\<close>

record 'k prog_env =
  pe_bpf :: "'k bpf"
  pe_kern :: 'k
  pe_arch :: arch
  pe_pac :: u64
  pe_rd :: user_mem
  pe_tls :: "u64 option"
  pe_scratch :: "nat \<Rightarrow> u8"
  pe_ctx :: pt_regs
  pe_task_regs :: "pt_regs option"
  pe_kstack :: "u64 list option"
  pe_comm :: "u8 list option"
  pe_cpu :: u32
  pe_start_boottime :: "u64 option"
  pe_span :: "((u64 \<times> u64) \<times> u64) option"
  pe_go_procs :: "u32 \<rightharpoonup> GoRuntimeOffsets"
  pe_progs :: "nat \<Rightarrow> bool"
  pe_ringbuf_fails :: bool
  pe_events :: event_env
  filter_min_process_age_ns :: u64
  filter_error_frames :: bool
  go_labels_disabled :: bool
  vma_lookup_enabled :: bool
  vma_shape_available :: bool
  pe_find_vma :: find_vma

definition unwind_one_frame :: "'k prog_env \<Rightarrow> PerCPURecord \<Rightarrow> frame_result \<times> PerCPURecord" where
  "unwind_one_frame E =
     (let morestack = go_unwind_morestack (pe_bpf E) (pe_kern E) (pe_arch E) (pe_rd E) (pe_tls E) (pe_scratch E)
      in case pe_arch E of
           X86_64 \<Rightarrow> unwind_one_frame_x86 (pe_bpf E) (pe_kern E) (words_of (pe_rd E)) morestack False
         | Aarch64 \<Rightarrow> unwind_one_frame_arm (pe_bpf E) (pe_kern E) (pe_pac E) (words_of (pe_rd E))
             (go_unwind_asmcgocall (pe_pac E) (pe_rd E) (pe_tls E) (pe_scratch E)) morestack False)"

section \<open>Starting a trace\<close>

text \<open>\<open>None\<close> of \<open>pe_start_boottime\<close> is a failed read of the kernel's task structure.\<close>

definition process_is_too_new :: "'k prog_env \<Rightarrow> u64 \<Rightarrow> bool" where
  "process_is_too_new E ts \<longleftrightarrow>
     filter_min_process_age_ns E \<noteq> 0 \<and>
     (case pe_start_boottime E of
        None \<Rightarrow> False
      | Some start_boottime \<Rightarrow> ts \<ge> start_boottime \<and> ts - start_boottime < filter_min_process_age_ns E)"

definition zero_go_offsets :: GoRuntimeOffsets where
  "zero_go_offsets = \<lparr>m_offset = 0, m_gsignal = 0, go_curg = 0, go_labels = 0, hmap_count = 0, hmap_log2_bucket_count = 0,
     hmap_buckets = 0, tls_offset = 0, sched_sp_off = 0, sched_pc_off = 0, sched_lr_off = 0, sched_bp_off = 0\<rparr>"

definition pristine_state :: UnwindState where
  "pristine_state = \<lparr>regs = replicate 16 0, fp_bound = 0, text_section_id = 0, text_section_offset = 0, text_section_bias = 0,
     error_metric = [], unwind_error = ERR_OK, return_address = False, lr_invalid = False\<rparr>"

definition get_pristine_per_cpu_record :: "PerCPURecord \<Rightarrow> PerCPURecord" where
  "get_pristine_per_cpu_record record =
     record\<lparr>rec_state := pristine_state, unwindersDone := 0, tailCalls := 0, ratelimitAction := RATELIMIT_ACTION_DEFAULT,
       goOffsets := zero_go_offsets, usesAnonymousMappings := False,
       rec_trace := (rec_trace record)\<lparr>context_value_end := 0, kernel_frame_end := 0, frame_data_end := 0,
         thread_label_end := 0, golang_label_end := 0, variable_data_end := 0, num_frames := 0, tr_pid := 0, tr_tid := 0,
         tr_trace_id := (0, 0), tr_span_id := 0\<rparr>\<rparr>"

definition prepare_trace :: "'k prog_env \<Rightarrow> u16 \<Rightarrow> u32 \<Rightarrow> u32 \<Rightarrow> u64 \<Rightarrow> PerCPURecord \<Rightarrow> PerCPURecord option" where
  "prepare_trace E orig pid tid trace_timestamp record =
     (if orig = 0 \<or> process_is_too_new E trace_timestamp then None
      else
        let record = get_pristine_per_cpu_record record;
            trace = (rec_trace record)\<lparr>origin := orig, tr_pid := pid, tr_tid := tid, tr_ktime := trace_timestamp\<rparr>
        in Some (case pe_comm E of
             None \<Rightarrow> increment_metric ''ErrBPFCurrentComm'' (record\<lparr>rec_trace := trace\<rparr>)
           | Some comm \<Rightarrow> record\<lparr>rec_trace := trace\<lparr>tr_comm := comm\<rparr>\<rparr>))"

text \<open>The program that is called next, or \<open>None\<close> when the process is not known yet and user space is told.\<close>

definition unwind_trace ::
  "'k prog_env \<Rightarrow> bool \<Rightarrow> PerCPURecord \<times> event_maps \<Rightarrow> nat option \<times> PerCPURecord \<times> event_maps" where
  "unwind_trace E kernel_frames st =
     (let (record, ev) = st;
          record = (if kernel_frames then record\<lparr>rec_trace := push_kernel_frames (pe_kstack E) (rec_trace record)\<rparr> else record);
          pid = tr_pid (rec_trace record);
          leave = (\<lambda>err unwinder record.
            let (next_prog, record) = tail_call unwinder (record\<lparr>rec_state := (rec_state record)\<lparr>unwind_error := err\<rparr>\<rparr>)
            in (Some next_prog, record, ev))
      in if pid = 0 then leave ERR_OK PROG_UNWIND_STOP record
         else
           let record = (case pe_go_procs E pid of None \<Rightarrow> record | Some offs \<Rightarrow> record\<lparr>goOffsets := offs\<rparr>);
               (err, record) = get_usermode_regs (pe_pac E) (pe_ctx E) (pe_task_regs E) record
           in if err \<noteq> ERR_OK then leave (if err = ERR_EMPTY_STACK then ERR_OK else err) PROG_UNWIND_STOP record
              else case pid_information (pe_bpf E) (pe_kern E) pid of
                None \<Rightarrow>
                  (let (reported, ev) = report_pid (pe_events E) (push_bit 32 (ucast pid) OR ucast (tr_tid (rec_trace record)))
                         RATELIMIT_ACTION_DEFAULT ev
                   in (None, if reported then increment_metric ''NumProcNew'' record else record, ev))
              | Some pidInfo \<Rightarrow>
                  (let record = record\<lparr>usesAnonymousMappings := pid_uses_anonymous_mappings pidInfo\<rparr>;
                       ((err, unwinder), record) = get_next_unwinder_after_native_frame (pe_bpf E) (pe_kern E) record
                   in leave err unwinder record))"

section \<open>Ending a trace\<close>

text \<open>The bytes that reach user space: the header and the variable data up to its end.\<close>

datatype outcome = Sent Trace "u8 list" | Dropped

definition send_trace :: "'k prog_env \<Rightarrow> PerCPURecord \<Rightarrow> outcome \<times> PerCPURecord" where
  "send_trace E record =
     (let trace = (rec_trace record)\<lparr>tr_cpu_id := pe_cpu E\<rparr>;
          record = record\<lparr>rec_trace := trace\<rparr>
      in if pe_ringbuf_fails E then (Dropped, increment_metric ''BPFRingbufOutputErr'' record)
         else (Sent trace (map (variable_data trace) [0..<min (unat (variable_data_end trace)) 25216]), record))"

text \<open>The parts of \<open>unwind_stop\<close>: up to the frame for the error, and the switch on the metric of the error.\<close>

definition stop_error :: "'k prog_env \<Rightarrow> PerCPURecord \<Rightarrow> PerCPURecord" where
  "stop_error E record =
     (let trace = (case pe_span E of
            None \<Rightarrow> rec_trace record
          | Some (trace_id, span) \<Rightarrow> (rec_trace record)\<lparr>tr_trace_id := trace_id, tr_span_id := span\<rparr>);
          record = record\<lparr>rec_trace := trace\<rparr>;
          record =
            (if num_frames trace = 0 \<and> kernel_frame_end trace = 0
             then (let record = increment_metric ''ErrEmptyStack'' record; s = rec_state record
                   in if unwind_error s = ERR_OK then record\<lparr>rec_state := s\<lparr>unwind_error := ERR_EMPTY_STACK\<rparr>\<rparr> else record)
             else record);
          s = refine_missing_mapping_error (vma_lookup_enabled E) (vma_shape_available E) (pe_find_vma E)
                (usesAnonymousMappings record) (rec_state record)
      in if unwind_error s \<noteq> ERR_OK then record\<lparr>rec_state := s, rec_trace := push_abort (unwind_error s) trace\<rparr>
         else record\<lparr>rec_state := s\<rparr>)"

definition stop_report :: "'k prog_env \<Rightarrow> PerCPURecord \<times> event_maps \<Rightarrow> PerCPURecord \<times> event_maps" where
  "stop_report E st =
     (let (record, ev) = st; metric = error_metric (rec_state record); trace = rec_trace record
      in if metric = [] then (record, ev)
         else if metric = ''UnwindNativeErrWrongTextSection''
         then (let (reported, ev) = report_pid (pe_events E)
                      (push_bit 32 (ucast (tr_pid trace)) OR ucast (tr_tid trace)) (ratelimitAction record) ev
               in (increment_metric metric (if reported then increment_metric ''NumUnknownPC'' record else record), ev))
         else (increment_metric metric record, ev))"

definition unwind_stop :: "'k prog_env \<Rightarrow> PerCPURecord \<times> event_maps \<Rightarrow> outcome \<times> PerCPURecord \<times> event_maps" where
  "unwind_stop E st =
     (let (record, ev) = st;
          (record, ev) = stop_report E (stop_error E record, ev);
          trace = rec_trace record
      in if filter_error_frames E \<and> num_frames trace = 1 \<and> kernel_frame_end trace = 0 \<and> unwind_error (rec_state record) \<noteq> ERR_OK
         then (Dropped, record, ev)
         else
           let (e, trace) = end_variable_data 8 trace;
               record = record\<lparr>rec_trace := trace\<lparr>frame_data_end := e\<rparr>\<rparr>;
               record = maybe_add_golang_labels (pe_arch E) (pe_rd E) (pe_tls E) (go_labels_disabled E) record;
               (out, record) = send_trace E record
           in (out, record, ev))"

section \<open>Tail calls\<close>

text \<open>
  The chain of programs from \<open>prog\<close> on, with fuel for the number of programs; a program that is not
  loaded ends the chain.
\<close>

fun run_programs ::
  "'k prog_env \<Rightarrow> (nat \<Rightarrow> PerCPURecord \<Rightarrow> nat \<times> PerCPURecord) \<Rightarrow> nat \<Rightarrow> nat \<Rightarrow> PerCPURecord \<times> event_maps \<Rightarrow>
     (outcome \<times> PerCPURecord \<times> event_maps) option" where
  "run_programs E interp 0 prog st = None"
| "run_programs E interp (Suc n) prog (record, ev) =
     (if \<not> pe_progs E prog then Some (Dropped, record, ev)
      else if prog = PROG_UNWIND_STOP then Some (unwind_stop E (record, ev))
      else
        let (next_prog, record) =
          (if prog = PROG_UNWIND_NATIVE then unwind_native (pe_bpf E) (pe_kern E) (unwind_one_frame E) record
           else let (unwinder, record) = interp prog record in tail_call unwinder record)
        in run_programs E interp n next_prog (record, ev))"

text \<open>The fuel is more than the tail calls that \<open>tail_call\<close> makes.\<close>

definition collect_trace ::
  "'k prog_env \<Rightarrow> (nat \<Rightarrow> PerCPURecord \<Rightarrow> nat \<times> PerCPURecord) \<Rightarrow> u16 \<Rightarrow> u32 \<Rightarrow> u32 \<Rightarrow> u64 \<Rightarrow> PerCPURecord \<times> event_maps \<Rightarrow>
     (outcome \<times> PerCPURecord \<times> event_maps) option" where
  "collect_trace E interp orig pid tid trace_timestamp st =
     (let (record, ev) = st
      in case prepare_trace E orig pid tid trace_timestamp record of
           None \<Rightarrow> Some (Dropped, record, ev)
         | Some record \<Rightarrow>
             (let (next_prog, record, ev) = unwind_trace E True (record, ev)
              in case next_prog of
                   None \<Rightarrow> Some (Dropped, record, ev)
                 | Some prog \<Rightarrow> run_programs E interp 30 prog (record, ev)))"

end
