(* ===== verification/TraceDecode.thy ===== *)
theory TraceDecode
  imports NativeUnwind
begin

text \<open>
  The reception of traces in user space: the parser of a record of the ring buffer
  (\<open>src/tracer/tracer.go\<close>), the validation of Go labels (\<open>src/tracer/labels.go\<close>) and
  \<open>CString\<close> of \<open>src/stringutil\<close>.

  A record is the header, which both sides lay out alike, and the bytes behind it; a record that is too
  short for the header has none.
\<close>

section \<open>Bytes\<close>

definition CString :: "u8 list \<Rightarrow> u8 list" where
  "CString buf = takeWhile (\<lambda>b. b \<noteq> 0) buf"

text \<open>The size of the first character in UTF-8 (\<open>unicode/utf8\<close>), \<open>None\<close> when the bytes are not valid.\<close>

definition cont :: "u8 \<Rightarrow> bool" where
  "cont b \<longleftrightarrow> 0x80 \<le> b \<and> b \<le> 0xBF"

definition DecodeRune :: "u8 list \<Rightarrow> nat option" where
  "DecodeRune bs =
     (case bs of
        [] \<Rightarrow> None
      | b0 # r \<Rightarrow>
          if b0 < 0x80 then Some 1
          else case r of
            [] \<Rightarrow> None
          | b1 # r \<Rightarrow>
              if 0xC2 \<le> b0 \<and> b0 \<le> 0xDF \<and> cont b1 then Some 2
              else case r of
                [] \<Rightarrow> None
              | b2 # r \<Rightarrow>
                  if (b0 = 0xE0 \<and> 0xA0 \<le> b1 \<and> b1 \<le> 0xBF \<or> b0 = 0xED \<and> 0x80 \<le> b1 \<and> b1 \<le> 0x9F
                      \<or> 0xE1 \<le> b0 \<and> b0 \<le> 0xEF \<and> b0 \<noteq> 0xED \<and> cont b1) \<and> cont b2 then Some 3
                  else case r of
                    [] \<Rightarrow> None
                  | b3 # r \<Rightarrow>
                      if (b0 = 0xF0 \<and> 0x90 \<le> b1 \<and> b1 \<le> 0xBF \<or> b0 = 0xF4 \<and> 0x80 \<le> b1 \<and> b1 \<le> 0x8F
                          \<or> 0xF1 \<le> b0 \<and> b0 \<le> 0xF3 \<and> cont b1) \<and> cont b2 \<and> cont b3 then Some 4
                      else None)"

text \<open>The loop of \<open>validateValue\<close>: the end of the valid characters from the start.\<close>

function valid_end :: "u8 list \<Rightarrow> nat" where
  "valid_end b =
     (case DecodeRune b of None \<Rightarrow> 0 | Some sz \<Rightarrow> if sz = 0 then 0 else sz + valid_end (drop sz b))"
  by pat_completeness auto
termination
  by (relation "measure length") (auto simp: DecodeRune_def split: list.split_asm)

declare valid_end.simps [simp del]

definition utf8_Valid :: "u8 list \<Rightarrow> bool" where
  "utf8_Valid b \<longleftrightarrow> valid_end b = length b"

section \<open>Labels\<close>

definition validateKey :: "u8 list \<Rightarrow> u8 list option" where
  "validateKey buf = (let b = CString buf in if b = [] \<or> \<not> utf8_Valid b then None else Some b)"

definition validateValue :: "u8 list \<Rightarrow> u8 list option" where
  "validateValue buf =
     (let b = CString buf; pos = (if utf8_Valid b then length b else valid_end b)
      in if \<not> utf8_Valid b \<and> pos = 0 then None else Some (take pos b))"

text \<open>The labels found so far are a map; the drop counters are not part of it.\<close>

fun decode_labels :: "nat \<Rightarrow> u8 list \<Rightarrow> (u8 list \<rightharpoonup> u8 list) \<Rightarrow> u8 list \<rightharpoonup> u8 list" where
  "decode_labels 0 data labels = labels"
| "decode_labels (Suc n) data labels =
     decode_labels n (drop 64 data)
       (case validateKey (take 16 data) of
          None \<Rightarrow> labels
        | Some key \<Rightarrow>
            (case validateValue (take 48 (drop 16 data)) of None \<Rightarrow> labels | Some val \<Rightarrow> labels(key \<mapsto> val)))"

definition customLabels_decode :: "u8 list \<Rightarrow> (u8 list \<rightharpoonup> u8 list) \<Rightarrow> u8 list \<rightharpoonup> u8 list" where
  "customLabels_decode data labels = decode_labels (length data div 64) data labels"

section \<open>Records\<close>

datatype record_error = RecordTooSmall | RecordUnexpectedSize | OriginUnexpected

record variableDataDecoder =
  vd_raw :: "u8 list"
  vd_dst :: nat
  vd_pos :: u16

definition decodeBytes :: "u16 \<Rightarrow> variableDataDecoder \<Rightarrow> (record_error + u8 list option) \<times> variableDataDecoder" where
  "decodeBytes e vd =
     (if e = 0 then (Inr None, vd)
      else if vd_pos vd > e \<or> unat e > length (vd_raw vd) then (Inl RecordUnexpectedSize, vd)
      else (Inr (Some (drop (unat (vd_pos vd)) (take (unat e) (vd_raw vd)))), vd\<lparr>vd_pos := (e + 7) AND NOT 7\<rparr>))"

text \<open>The words of a list of bytes, in the byte order of the host.\<close>

fun le_words :: "nat \<Rightarrow> u8 list \<Rightarrow> u64 list" where
  "le_words 0 bs = []"
| "le_words (Suc n) bs = LittleEndian (take 8 bs) # le_words n (drop 8 bs)"

text \<open>\<open>vd_dst\<close> is the number of words left in the buffer of the trace.\<close>

definition copyUint64 :: "u16 \<Rightarrow> variableDataDecoder \<Rightarrow> (record_error + u64 list) \<times> variableDataDecoder" where
  "copyUint64 e vd =
     (case decodeBytes e vd of
        (Inl err, vd) \<Rightarrow> (Inl err, vd)
      | (Inr None, vd) \<Rightarrow> (Inr [], vd)
      | (Inr (Some val), vd) \<Rightarrow>
          (let n = length val div 8
           in if length val mod 8 \<noteq> 0 \<or> n > vd_dst vd then (Inl RecordUnexpectedSize, vd)
              else (Inr (le_words n val), vd\<lparr>vd_dst := vd_dst vd - n\<rparr>)))"

record EbpfTrace =
  et_CustomLabels :: "u8 list \<rightharpoonup> u8 list"
  et_Comm :: "u8 list"
  et_ContextValues :: "u64 list"
  et_KernelFrames :: "u64 list"
  et_FrameData :: "u64 list"
  et_KTime :: u64
  et_CpuID :: u32
  et_TID :: u32
  et_PID :: u32
  et_NumFrames :: u16
  et_Origin :: u16
  et_TraceID :: "u64 \<times> u64"
  et_SpanID :: u64

text \<open>
  \<open>known_origin\<close> is the lookup of the registered origins; \<open>thread_decoder\<close> is the decoder of thread labels
  a process has published, if any.
\<close>

definition loadBpfTrace ::
  "(u16 \<Rightarrow> bool) \<Rightarrow> (u32 \<Rightarrow> (u8 list \<Rightarrow> u8 list \<rightharpoonup> u8 list) option) \<Rightarrow> Trace option \<Rightarrow> u8 list \<Rightarrow> record_error + EbpfTrace" where
  "loadBpfTrace known_origin thread_decoder header data =
     (case header of
        None \<Rightarrow> Inl RecordTooSmall
      | Some ptr \<Rightarrow>
          if length data < unat (variable_data_end ptr) then Inl RecordUnexpectedSize
          else if \<not> known_origin (origin ptr) then Inl OriginUnexpected
          else
            let vd = \<lparr>vd_raw = take (unat (variable_data_end ptr)) data, vd_dst = 3072, vd_pos = 0\<rparr>
            in case copyUint64 (context_value_end ptr) vd of (Inl err, _) \<Rightarrow> Inl err | (Inr contextValues, vd) \<Rightarrow>
               case copyUint64 (kernel_frame_end ptr) vd of (Inl err, _) \<Rightarrow> Inl err | (Inr kernelFrames, vd) \<Rightarrow>
               case copyUint64 (frame_data_end ptr) vd of (Inl err, _) \<Rightarrow> Inl err | (Inr frameData, vd) \<Rightarrow>
               case decodeBytes (thread_label_end ptr) vd of (Inl err, _) \<Rightarrow> Inl err | (Inr payload, vd) \<Rightarrow>
               case decodeBytes (golang_label_end ptr) vd of (Inl err, _) \<Rightarrow> Inl err | (Inr labelData, vd) \<Rightarrow>
                 let labels = (case payload of
                       None \<Rightarrow> Map.empty
                     | Some p \<Rightarrow> if p = [] then Map.empty
                         else case thread_decoder (tr_pid ptr) of None \<Rightarrow> Map.empty | Some decode \<Rightarrow> decode p);
                     labels = (case labelData of
                       None \<Rightarrow> labels
                     | Some l \<Rightarrow> if l = [] then labels else customLabels_decode l labels)
                 in Inr \<lparr>et_CustomLabels = labels, et_Comm = tr_comm ptr, et_ContextValues = contextValues,
                      et_KernelFrames = kernelFrames, et_FrameData = frameData, et_KTime = tr_ktime ptr, et_CpuID = tr_cpu_id ptr,
                      et_TID = tr_tid ptr, et_PID = tr_pid ptr, et_NumFrames = num_frames ptr, et_Origin = origin ptr,
                      et_TraceID = tr_trace_id ptr, et_SpanID = tr_span_id ptr\<rparr>)"

text \<open>The loop of \<open>HandleTrace\<close> that cuts the words into frames; a frame of length zero or beyond the words panics.\<close>

function split_frames :: "u64 list \<Rightarrow> u64 list list run" where
  "split_frames ws =
     (if ws = [] then Ret []
      else
        let l = unat (ucast (drop_bit 52 (hd ws)) AND (0xf :: u8))
        in if l = 0 \<or> l > length ws then Panic
           else run_bind (split_frames (drop l ws)) (\<lambda>fs. Ret (take l ws # fs)))"
  by pat_completeness auto
termination
  by (relation "measure length") auto

declare split_frames.simps [simp del]

end
