(* ===== verification/TraceProps.thy ===== *)
theory TraceProps
  imports UnwindProps UnwindPrograms TraceDecode
begin

text \<open>
  Properties of the path of a trace from the kernel to user space: every chain of programs ends, and the
  record it sends is accepted by the parser and cut into exactly the frames that were pushed.
\<close>

section \<open>Words in the buffer\<close>

lemma unat_of_nat_less: "n < 2 ^ LENGTH('a) \<Longrightarrow> unat (of_nat n :: 'a::len word) = n"
  by (simp add: unat_of_nat take_bit_nat_eq_self)

definition enc :: "u64 list \<Rightarrow> u8 list" where
  "enc ws = concat (map (le_bytes 8) ws)"

lemma enc_simps [simp]: "enc [] = []" "enc (w # ws) = le_bytes 8 w @ enc ws" "enc (vs @ ws) = enc vs @ enc ws"
  by (simp_all add: enc_def)

lemma length_enc [simp]: "length (enc ws) = 8 * length ws"
  by (induction ws) simp_all

lemma le_words_enc: "le_words (length ws) (enc ws @ bs) = ws"
  by (induction ws) (simp_all add: LittleEndian_le_bytes take_bit_word_eq_self)

lemma map_store64: "map (store64 i v m) [0..<i + 8] = map m [0..<i] @ le_bytes 8 v"
  by (rule nth_equalityI) (auto simp: store64_def nth_append le_bytes_nth)

lemma map_store64_before: "j \<le> i \<Longrightarrow> map (store64 i v m) [0..<j] = map m [0..<j]"
  by (rule nth_equalityI) (auto simp: store64_def)

lemma map_store_words: "map (store_words i vs m) [0..<i + 8 * length vs] = map m [0..<i] @ enc vs"
proof (induction vs arbitrary: i m)
  case (Cons v vs)
  have "map (store_words i (v # vs) m) [0..<i + 8 * length (v # vs)] =
      map (store_words (i + 8) vs (store64 i v m)) [0..<(i + 8) + 8 * length vs]" by (simp add: add.assoc)
  also have "\<dots> = map (store64 i v m) [0..<i + 8] @ enc vs" by (rule Cons.IH)
  finally show ?case by (simp add: map_store64)
qed simp

text \<open>The buffer holds the words \<open>ws\<close> from its start.\<close>

definition holds :: "Trace \<Rightarrow> u64 list \<Rightarrow> bool" where
  "holds t ws \<longleftrightarrow> map (variable_data t) [0..<8 * length ws] = enc ws \<and> unat (variable_data_end t) = 8 * length ws"

lemma reserve_Some:
  assumes "reserve_variable_data t a r = Some i" "unat a + unat r \<le> 25216"
  shows "i = variable_data_end t" "unat (variable_data_end t) + unat a + unat r \<le> 25216"
proof -
  have r: "unat (TRACE_DATA_SZ - ucast a - ucast r) = 25216 - unat a - unat r"
    using assms(2) by (simp add: unat_sub_le word_le_nat_alt unat_ucast_up)
  show "i = variable_data_end t" using assms(1) by (simp add: reserve_variable_data_def split: if_split_asm)
  have "unat (ucast (variable_data_end t) :: u64) \<le> unat (TRACE_DATA_SZ - ucast a - ucast r)"
    using assms(1) unfolding reserve_variable_data_def word_le_nat_alt [symmetric] by (simp add: not_less split: if_split_asm)
  then show "unat (variable_data_end t) + unat a + unat r \<le> 25216"
    using assms(2) unfolding r by (simp add: unat_ucast_up)
qed

text \<open>Committing the bytes of written words.\<close>

lemma holds_commit:
  assumes "holds t ws" "unat sz = 8 * length vs" "8 * length ws + 8 * length vs < 65536"
    and "variable_data t' = store_words (8 * length ws) vs (variable_data t)"
    and "variable_data_end t' = variable_data_end t + sz"
  shows "holds t' (ws @ vs)"
proof -
  have "map (variable_data t') [0..<8 * length (ws @ vs)] =
      map (store_words (8 * length ws) vs (variable_data t)) [0..<8 * length ws + 8 * length vs]"
    by (simp add: assms(4) add_mult_distrib2)
  also have "\<dots> = enc (ws @ vs)" unfolding map_store_words using assms(1) by (simp add: holds_def)
  finally show ?thesis using assms(1-3,5) by (simp add: holds_def unat_add_less)
qed

section \<open>Traces under construction\<close>

definition wf_frame :: "u64 list \<Rightarrow> bool" where
  "wf_frame f \<longleftrightarrow> f \<noteq> [] \<and> EbpfFrame_Length f = Ret (of_nat (length f)) \<and> length f < 16"

text \<open>Context values, kernel frames and frames that a trace holds, with the ends of the sections.\<close>

definition built :: "Trace \<Rightarrow> u64 list \<Rightarrow> u64 list \<Rightarrow> u64 list list \<Rightarrow> bool" where
  "built t cs ks fs \<longleftrightarrow>
     holds t (cs @ ks @ concat fs) \<and> 8 * length (cs @ ks @ concat fs) \<le> 24576 \<and>
     unat (context_value_end t) = 8 * length cs \<and>
     unat (kernel_frame_end t) = (if ks = [] then 0 else 8 * length (cs @ ks)) \<and>
     thread_label_end t = 0 \<and> golang_label_end t = 0 \<and>
     num_frames t = of_nat (length fs) \<and> (\<forall>f \<in> set fs. wf_frame f)"

text \<open>The header of a frame that \<open>push_frame\<close> makes.\<close>

lemma frame_header_New:
  "frame_header ty fl l d = NewEbpfFrameHeader ty fl l (d AND mask 52)"
  by (simp add: frame_header_def NewEbpfFrameHeader_def mask_eq_exp_minus_1 push_bit_eq_mult)

lemma mask_52_less: "(d :: u64) AND mask 52 < 2 ^ 52"
proof -
  have "unat (take_bit 52 d) < 2 ^ 52" using take_bit_nat_less_exp [of 52 "unat d"] by (simp add: unsigned_take_bit_eq)
  then show ?thesis by (simp add: word_less_nat_alt flip: take_bit_eq_mask)
qed

lemma wf_pushed_frame:
  assumes "ty < 16" "fl < 16" "length vals < 15"
  shows "wf_frame (frame_header ty fl (1 + of_nat (length vals)) d # vals)"
proof -
  have l: "(1 + of_nat (length vals) :: u8) < 16"
    using assms(3) by (simp add: word_less_nat_alt unat_word_ariths unat_of_nat take_bit_nat_eq_self)
  show ?thesis
    using EbpfFrame_header [OF assms(1,2) l mask_52_less] assms(3) by (simp add: wf_frame_def frame_header_New)
qed

text \<open>Frames are only added, and the fields of the header that describe the sample stay.\<close>

definition same_sample :: "Trace \<Rightarrow> Trace \<Rightarrow> bool" where
  "same_sample t t' \<longleftrightarrow> tr_pid t' = tr_pid t \<and> tr_tid t' = tr_tid t \<and> tr_ktime t' = tr_ktime t \<and> tr_comm t' = tr_comm t \<and>
     origin t' = origin t"

definition grows :: "Trace \<Rightarrow> Trace \<Rightarrow> bool" where
  "grows t t' \<longleftrightarrow> same_sample t t' \<and> (\<forall>cs ks fs. built t cs ks fs \<longrightarrow> (\<exists>fs'. built t' cs ks (fs @ fs')))"

lemma same_sample_trans: "same_sample t t' \<Longrightarrow> same_sample t' t'' \<Longrightarrow> same_sample t t''"
  by (simp add: same_sample_def)

lemma grows_refl [simp]: "grows t t"
  unfolding grows_def same_sample_def by (intro conjI refl allI impI exI [of _ "[]"]) simp

lemma grows_trans [trans]: "grows t t' \<Longrightarrow> grows t' t'' \<Longrightarrow> grows t t''"
  unfolding grows_def by (intro conjI allI impI) (blast intro: same_sample_trans, metis append.assoc)

lemma growsE:
  assumes "grows t t'" "built t cs ks fs"
  obtains fs' where "built t' cs ks (fs @ fs')" "same_sample t t'"
  using assms unfolding grows_def by blast

lemma built_frame:
  assumes "built t cs ks fs" "wf_frame f" "unat (variable_data_end t) + 8 * length f \<le> 24576"
    and "variable_data t' = store_words (unat (variable_data_end t)) f (variable_data t)"
    and "variable_data_end t' = variable_data_end t + of_nat (8 * length f)"
    and "num_frames t' = num_frames t + 1" "context_value_end t' = context_value_end t"
    and "kernel_frame_end t' = kernel_frame_end t" "thread_label_end t' = thread_label_end t"
    and "golang_label_end t' = golang_label_end t"
  shows "built t' cs ks (fs @ [f])"
proof -
  have h: "holds t (cs @ ks @ concat fs)" and e: "unat (variable_data_end t) = 8 * length (cs @ ks @ concat fs)"
    using assms(1) by (simp_all add: built_def holds_def)
  have f: "unat (of_nat (8 * length f) :: u16) = 8 * length f"
    using assms(2) by (intro unat_of_nat_less) (simp add: wf_frame_def)
  have "holds t' ((cs @ ks @ concat fs) @ f)"
    by (rule holds_commit [OF h f _ _ assms(5)]) (use assms(3,4) e in simp_all)
  moreover have "8 * length (cs @ ks @ concat (fs @ [f])) \<le> 24576" using e assms(3) by simp
  ultimately show ?thesis using assms(1,2,6-) by (simp add: built_def)
qed

text \<open>A frame whose variable fields the caller fills in.\<close>

lemma push_frame_grows:
  assumes p: "push_frame ty fl d (of_nat (length vals)) (s, t) = (Some pos, s', t')"
    and b: "ty < 16" "fl < 16" "length vals < 15"
  shows "s' = s" "grows t (write_words pos vals t')"
proof -
  define l :: u8 where "l = of_nat (length vals)"
  have l: "unat l = length vals" using b(3) unfolding l_def by (intro unat_of_nat_less) simp
  define sz :: u16 where "sz = 8 * (1 + ucast l)"
  have sz: "sz = of_nat (8 * length (frame_header ty fl (1 + l) d # vals))"
    by (simp add: sz_def flip: l)
  have usz: "unat sz = 8 * (1 + length vals)"
    unfolding sz using b(3) by (subst unat_of_nat_less) simp_all
  obtain i where r: "reserve_variable_data t sz (8 + MAX_FRAME_TRAILER_DATA_SZ) = Some i" and pos: "pos = i + 8" and s: "s' = s"
    and t': "t' = write_words i [frame_header ty fl (1 + l) d] (commit_variable_data sz (t\<lparr>num_frames := num_frames t + 1\<rparr>))"
    using p unfolding push_frame_def l_def [symmetric] by (auto simp: Let_def sz_def split: option.split_asm)
  show "s' = s" by (rule s)
  note i = reserve_Some [OF r]
  have lim: "unat (variable_data_end t) + 8 * (1 + length vals) \<le> 24568" "i = variable_data_end t"
    using i usz b(3) by simp_all
  have i8: "unat (i + 8) = unat i + 8" using lim by (simp add: unat_add_less)
  have "same_sample t (write_words pos vals t')"
    by (simp add: t' same_sample_def write_words_def commit_variable_data_def)
  moreover have "built (write_words pos vals t') cs ks (fs @ [frame_header ty fl (1 + l) d # vals])" if "built t cs ks fs" for cs ks fs
  proof (rule built_frame [OF that])
    show "wf_frame (frame_header ty fl (1 + l) d # vals)" unfolding l_def by (rule wf_pushed_frame [OF b])
  qed (use lim i8 in \<open>simp_all add: t' pos write_words_def commit_variable_data_def sz\<close>)
  ultimately show "grows t (write_words pos vals t')" unfolding grows_def by blast
qed

lemma push_frame_None: "push_frame ty fl d l (s, t) = (None, s', t') \<Longrightarrow> t' = t"
  by (simp add: push_frame_def Let_def split: option.split_asm)

lemma push_native_grows: "push_native file line ra (s, t) = (e, s', t') \<Longrightarrow> grows t t'"
  using push_frame_grows [of 3 "if ra then 2 else 0" line "[file]" s t]
  by (auto simp: push_native_def Let_def split: prod.split_asm option.split_asm if_split_asm dest: push_frame_None)

lemma push_error_grows:
  assumes "push_error ty err (s, t) = (e, s', t')" "ty < 16"
  shows "grows t t'"
proof -
  obtain p where p: "push_frame ty 1 (error_number err) 0 (s, t) = (p, s', t')"
    using assms(1) by (auto simp: push_error_def Let_def split: prod.split_asm)
  show ?thesis
  proof (cases p)
    case (Some pos)
    then show ?thesis
      using push_frame_grows [of ty 1 "error_number err" "[]" s t pos] p assms(2) by (simp add: write_words_def)
  qed (use p in \<open>auto dest: push_frame_None\<close>)
qed

lemma push_abort_grows: "grows t (push_abort err t)"
proof (cases "reserve_variable_data t 8 MAX_FRAME_TRAILER_DATA_SZ")
  case (Some i)
  have i: "i = variable_data_end t" "unat (variable_data_end t) + 8 \<le> 24576" using reserve_Some [OF Some] by simp_all
  have "same_sample t (push_abort err t)"
    by (simp add: Some push_abort_def same_sample_def write_words_def commit_variable_data_def Let_def)
  moreover have "built (push_abort err t) cs ks (fs @ [[frame_header 0 1 1 (error_number err)]])" if "built t cs ks fs" for cs ks fs
  proof (rule built_frame [OF that])
    show "wf_frame [frame_header 0 1 1 (error_number err)]" using wf_pushed_frame [of 0 1 "[]"] by simp
  qed (use i in \<open>simp_all add: Some push_abort_def write_words_def commit_variable_data_def Let_def\<close>)
  ultimately show ?thesis unfolding grows_def by blast
qed (simp add: push_abort_def)

text \<open>The start of a trace and its kernel frames.\<close>

lemma built_kernel:
  assumes "built t [] [] []" "\<forall>ks. stack = Some ks \<longrightarrow> length ks \<le> 127"
  shows "built (push_kernel_frames stack t) [] (case stack of None \<Rightarrow> [] | Some ks \<Rightarrow> ks) []"
    "same_sample t (push_kernel_frames stack t)"
proof -
  have e: "unat (variable_data_end t) = 0" "holds t []" using assms(1) by (simp_all add: built_def holds_def)
  then have e0: "variable_data_end t = 0" by (simp add: unat_eq_zero)
  then have r: "reserve_variable_data t 1016 MAX_FRAME_TRAILER_DATA_SZ = Some 0" by (simp add: reserve_variable_data_def)
  have b: "built (push_kernel_frames (Some ks) t) [] ks []" if "ks \<noteq> []" "length ks \<le> 127" for ks
  proof -
    have l: "unat (of_nat (8 * length ks) :: u16) = 8 * length ks" using that by (intro unat_of_nat_less) simp
    have h: "holds (push_kernel_frames (Some ks) t) ([] @ ks)"
      by (rule holds_commit [OF e(2) l])
        (use that in \<open>simp_all add: push_kernel_frames_def r e0 write_words_def commit_variable_data_def end_variable_data_def Let_def\<close>)
    then show ?thesis using assms(1) that l
      by (simp add: built_def push_kernel_frames_def r e0 write_words_def commit_variable_data_def end_variable_data_def Let_def)
  qed
  show "built (push_kernel_frames stack t) [] (case stack of None \<Rightarrow> [] | Some ks \<Rightarrow> ks) []"
  proof (cases "stack = None \<or> stack = Some []")
    case True
    then show ?thesis using assms(1) by (auto simp: push_kernel_frames_def r)
  next
    case False
    then obtain ks where "stack = Some ks" "ks \<noteq> []" by auto
    then show ?thesis using b [of ks] assms(2) by simp
  qed
  show "same_sample t (push_kernel_frames stack t)"
    by (simp add: same_sample_def push_kernel_frames_def write_words_def commit_variable_data_def end_variable_data_def Let_def
          split: option.split)
qed

section \<open>What the unwinders keep\<close>

text \<open>A step of an unwinder keeps the count of tail calls and only adds frames.\<close>

definition keeps :: "PerCPURecord \<Rightarrow> PerCPURecord \<Rightarrow> bool" where
  "keeps r r' \<longleftrightarrow> tailCalls r' = tailCalls r \<and> grows (rec_trace r) (rec_trace r')"

lemma keeps_refl [simp]: "keeps r r"
  by (simp add: keeps_def)

lemma keeps_trans [trans]: "keeps r r' \<Longrightarrow> keeps r' r'' \<Longrightarrow> keeps r r''"
  unfolding keeps_def by (metis grows_trans)

lemma keeps_metric [simp]:
  "keeps r (increment_metric m r') = keeps r r'" "keeps (increment_metric m r) r' = keeps r r'"
  "keeps r (fail_metric m r') = keeps r r'"
  by (simp_all add: keeps_def increment_metric_def fail_metric_def)

lemma keeps_state [simp]:
  "keeps r (r'\<lparr>rec_state := s\<rparr>) = keeps r r'" "keeps (r\<lparr>rec_state := s\<rparr>) r' = keeps r r'"
  "keeps r (r'\<lparr>rec_state := s, rec_trace := t\<rparr>) = keeps r (r'\<lparr>rec_trace := t\<rparr>)"
  by (simp_all add: keeps_def)

lemma delta_before_keeps [simp]: "keeps r (snd (delta_before K k m info po idx r))"
  by (simp add: delta_before_def Let_def split: option.split bval.split)

lemma keeps_cases:
  "(\<And>i. keeps r (snd (f i))) \<Longrightarrow> keeps r (snd d) \<Longrightarrow> keeps r (snd (case y of Some i \<Rightarrow> f i | None \<Rightarrow> d))"
  "keeps r (snd c) \<Longrightarrow> keeps r (snd d) \<Longrightarrow> keeps r (snd (if b then c else d))"
  "(\<And>i. keeps r (snd (g i))) \<Longrightarrow> keeps r (snd d) \<Longrightarrow> keeps r (snd (case x of VPageInfo i \<Rightarrow> g i | _ \<Rightarrow> d))"
  "(\<And>i. keeps r (snd (h i))) \<Longrightarrow> keeps r (snd d) \<Longrightarrow> keeps r (snd (case x of VMap i \<Rightarrow> h i | _ \<Rightarrow> d))"
  "(\<And>i. keeps r (snd (u i))) \<Longrightarrow> keeps r (snd d) \<Longrightarrow> keeps r (snd (case x of VUnwind i \<Rightarrow> u i | _ \<Rightarrow> d))"
  by (simp_all split: option.split bval.split)

lemma rec_trace_metric [simp]: "rec_trace (increment_metric m r) = rec_trace r"
  by (simp add: increment_metric_def)

lemma get_stack_delta_keeps: "keeps r (snd (get_stack_delta K k r))"
  unfolding get_stack_delta_def Let_def by (intro keeps_cases) simp_all

lemma resolve_unwind_mapping_keeps: "keeps r (snd (resolve_unwind_mapping K k u r))"
  by (simp add: resolve_unwind_mapping_def Let_def split: option.split bval.split prod.split if_split)

lemma get_next_interpreter_keeps: "keeps r (snd (get_next_interpreter K k r))"
  by (simp add: get_next_interpreter_def Let_def split: option.split bval.split if_split)

lemma get_next_unwinder_keeps: "keeps r (snd (get_next_unwinder_after_native_frame K k r))"
proof -
  obtain e u r1 where m: "resolve_unwind_mapping K k PROG_UNWIND_STOP r = ((e, u), r1)" by (metis prod.collapse)
  obtain u' r2 where i: "get_next_interpreter K k r1 = (u', r2)" by (metis prod.collapse)
  have "keeps r r1" "keeps r1 r2"
    using resolve_unwind_mapping_keeps [of r K k PROG_UNWIND_STOP] get_next_interpreter_keeps [of r1 K k] by (simp_all add: m i)
  then show ?thesis by (auto simp: get_next_unwinder_after_native_frame_def m i intro: keeps_trans)
qed

lemma frame_ok_keeps [simp]:
  "keeps r (snd (frame_ok r')) = keeps r r'" "keeps r (snd (err_native_pc_read r')) = keeps r r'"
  "keeps r (snd (nonleaf_frame_ok cfa r')) = keeps r r'" "keeps r (snd (read_pc_x86 mem cfa r')) = keeps r r'"
  by (simp_all add: frame_ok_def err_native_pc_read_def nonleaf_frame_ok_def read_pc_x86_def
        split: option.split list.split if_split)

lemma keeps_prod: "keeps r (snd p) \<Longrightarrow> (\<And>x r'. keeps r r' \<Longrightarrow> keeps r (snd (f x r'))) \<Longrightarrow> keeps r (snd (case p of (x, r') \<Rightarrow> f x r'))"
  by (simp add: case_prod_beta)

lemma unwind_command_x86_keeps:
  assumes "\<And>r. keeps r (snd (go r))"
  shows "keeps r (snd (unwind_command_x86 mem go d c r))"
  unfolding unwind_command_x86_def Let_def by (intro keeps_cases keeps_prod assms) simp_all

lemma unwind_command_arm_keeps:
  assumes "\<And>r. keeps r (snd (cg r))" "\<And>r. keeps r (snd (go r))"
  shows "keeps r (snd (unwind_command_arm pac mem cg go d c r))"
  unfolding unwind_command_arm_def Let_def by (intro keeps_cases keeps_prod assms) simp_all

lemma unwind_info_x86_keeps: "keeps r r' \<Longrightarrow> keeps r (snd (unwind_info_x86 mem info ad r'))"
  unfolding unwind_info_x86_def Let_def by (intro keeps_cases) simp_all

lemma unwind_info_arm_keeps: "keeps r r' \<Longrightarrow> keeps r (snd (unwind_info_arm pac mem info ad r'))"
  unfolding unwind_info_arm_def Let_def by (intro keeps_cases) (simp_all split: prod.split)

lemma unwind_one_frame_x86_keeps:
  assumes "\<And>r. keeps r (snd (go r))"
  shows "keeps r (snd (unwind_one_frame_x86 K k mem go d r))"
  unfolding unwind_one_frame_x86_def Let_def
  by (intro keeps_prod [OF get_stack_delta_keeps]) 
    (auto split: prod.split intro!: keeps_cases unwind_info_x86_keeps intro: keeps_trans unwind_command_x86_keeps [OF assms])

lemma unwind_one_frame_arm_keeps:
  assumes "\<And>r. keeps r (snd (cg r))" "\<And>r. keeps r (snd (go r))"
  shows "keeps r (snd (unwind_one_frame_arm K k pac mem cg go d r))"
  unfolding unwind_one_frame_arm_def Let_def
  by (intro keeps_prod [OF get_stack_delta_keeps]) 
    (auto split: prod.split intro!: keeps_cases unwind_info_arm_keeps intro: keeps_trans unwind_command_arm_keeps [OF assms])

lemma keeps_push_native:
  "push_native file line ra (s, rec_trace r) = (e, s', t') \<Longrightarrow> keeps r0 r \<Longrightarrow> keeps r0 (r\<lparr>rec_trace := t'\<rparr>)"
  by (auto simp: keeps_def dest: push_native_grows intro: grows_trans)

lemma morestack_caller_keeps: "keeps r (snd (morestack_caller K k a rd offs scratch r))"
proof -
  define s where "s = unwinder_mark_nonleaf_frame a (set_reg R_fp (load64 scratch (unat (sched_bp_off offs)))
    (set_reg R_pc (load64 scratch (unat (sched_pc_off offs)))
       (set_reg R_sp (load64 scratch (unat (sched_sp_off offs))) (rec_state r))))"
  obtain e u r1 where m: "resolve_unwind_mapping K k PROG_UNWIND_STOP (r\<lparr>rec_state := s\<rparr>) = ((e, u), r1)" by (metis prod.collapse)
  have r1: "keeps r r1" using resolve_unwind_mapping_keeps [of "r\<lparr>rec_state := s\<rparr>" K k PROG_UNWIND_STOP] by (simp add: m)
  show ?thesis
    unfolding morestack_caller_def Let_def s_def [symmetric] m split
    by (intro keeps_cases) (auto intro!: r1 keeps_cases intro: keeps_push_native split: arch.split prod.split option.split)
qed

lemma go_unwind_morestack_keeps: "keeps r (snd (go_unwind_morestack K k a rd tls scratch r))"
  unfolding go_unwind_morestack_def Let_def by (intro keeps_cases) (auto split: prod.split intro!: keeps_cases morestack_caller_keeps)

lemma asmcgocall_keeps [simp]:
  "keeps r (snd (asmcgocall_failure e r')) = keeps r r'" "keeps r (snd (asmcgocall_fp pac rd s r')) = keeps r r'"
  by (simp_all add: asmcgocall_failure_def asmcgocall_fp_def split: option.split)

lemma go_unwind_asmcgocall_keeps: "keeps r (snd (go_unwind_asmcgocall pac rd tls scratch r))"
  unfolding go_unwind_asmcgocall_def Let_def by (intro keeps_cases) (auto split: prod.split intro!: keeps_cases)

lemma unwind_one_frame_keeps: "keeps r (snd (unwind_one_frame E r))"
  unfolding unwind_one_frame_def Let_def
  by (auto split: arch.split intro: unwind_one_frame_x86_keeps unwind_one_frame_arm_keeps go_unwind_morestack_keeps
        go_unwind_asmcgocall_keeps)

lemma native_loop_keeps:
  assumes "\<And>r. keeps r (snd (f r))"
  shows "keeps r (snd (native_loop K k f n res r))"
proof (induction n arbitrary: res r)
  case (Suc n)
  define r0 where "r0 = increment_metric ''UnwindNativeAttempts'' r"
  define s where "s = rec_state r0"
  obtain e s' t' where p: "push_native (text_section_id s) (text_section_offset s) (return_address s) (s, rec_trace r0) = (e, s', t')"
    by (metis prod.collapse)
  define r1 where "r1 = r0\<lparr>rec_state := s', rec_trace := t'\<rparr>"
  obtain fr r2 where f: "f r1 = (fr, r2)" by fastforce
  obtain e' u r3 where g: "get_next_unwinder_after_native_frame K k r2 = ((e', u), r3)" by (metis prod.collapse)
  have "keeps r r1" unfolding r1_def using keeps_push_native [OF p] by (simp add: r0_def)
  moreover have "keeps r1 r2" "keeps r2 r3"
    using assms [of r1] get_next_unwinder_keeps [of r2 K k] by (simp_all add: f g)
  ultimately have k: "keeps r r1" "keeps r r2" "keeps r r3" by (blast intro: keeps_trans)+
  show ?case
    using k Suc.IH [where r = r3]
    by (auto simp: r0_def [symmetric] s_def [symmetric] p r1_def [symmetric] f g Let_def intro: keeps_trans)
qed simp

section \<open>Every chain of programs ends\<close>

lemma tail_call_counts:
  assumes "tail_call u r = (p, r')" "unat (tailCalls r) \<le> 29"
  shows "unat (tailCalls r') = unat (tailCalls r) + 1" "unat (tailCalls r) = 29 \<Longrightarrow> p = PROG_UNWIND_STOP"
    "rec_trace r' = rec_trace r"
proof -
  have "unat (tailCalls r + 1) = unat (tailCalls r) + 1" using assms(2) by (simp add: unat_add_less)
  then show "unat (tailCalls r') = unat (tailCalls r) + 1" "rec_trace r' = rec_trace r"
    using assms(1) by (auto simp: tail_call_def Let_def increment_metric_def split: if_split_asm)
  show "p = PROG_UNWIND_STOP" if "unat (tailCalls r) = 29"
    using assms(1) that by (auto simp: tail_call_def Let_def word_le_nat_alt split: if_split_asm)
qed

text \<open>A program that is not \<open>unwind_stop\<close> ends with a tail call from a record that it keeps.\<close>

definition program ::
  "'k prog_env \<Rightarrow> (nat \<Rightarrow> PerCPURecord \<Rightarrow> nat \<times> PerCPURecord) \<Rightarrow> nat \<Rightarrow> PerCPURecord \<Rightarrow> nat \<times> PerCPURecord" where
  "program E interp prog r =
     (if prog = PROG_UNWIND_NATIVE then unwind_native (pe_bpf E) (pe_kern E) (unwind_one_frame E) r
      else let (unwinder, r) = interp prog r in tail_call unwinder r)"

definition interp_ok :: "(nat \<Rightarrow> PerCPURecord \<Rightarrow> nat \<times> PerCPURecord) \<Rightarrow> bool" where
  "interp_ok interp \<longleftrightarrow> (\<forall>prog r. keeps r (snd (interp prog r)))"

lemma program_tail_call:
  assumes "interp_ok interp"
  obtains u r1 where "program E interp prog r = tail_call u r1" "keeps r r1"
proof (cases "prog = PROG_UNWIND_NATIVE")
  case True
  define N where "N = native_loop (pe_bpf E) (pe_kern E) (unwind_one_frame E) NATIVE_FRAMES_PER_PROGRAM (ERR_OK, PROG_UNWIND_STOP) r"
  obtain e u r1 where l: "N = ((e, u), r1)" by (metis prod.collapse)
  have "keeps r (snd N)" unfolding N_def by (rule native_loop_keeps [OF unwind_one_frame_keeps])
  moreover have "program E interp prog r = tail_call u (r1\<lparr>rec_state := (rec_state r1)\<lparr>unwind_error := e\<rparr>\<rparr>)"
    using True by (simp only: program_def unwind_native_def N_def [symmetric] l if_True simp_thms Let_def split)
  ultimately show ?thesis using that l by simp
next
  case False
  obtain u r1 where i: "interp prog r = (u, r1)" by fastforce
  have "keeps r r1" using assms i unfolding interp_ok_def by (metis snd_conv)
  then show ?thesis using that [of u r1] False i by (simp add: program_def)
qed

lemma run_programs_Suc:
  "run_programs E interp (Suc n) prog (r, ev) =
     (if \<not> pe_progs E prog then Some (Dropped, r, ev)
      else if prog = PROG_UNWIND_STOP then Some (unwind_stop E (r, ev))
      else run_programs E interp n (fst (program E interp prog r)) (snd (program E interp prog r), ev))"
  by (simp add: program_def case_prod_beta)

lemma run_programs_returns:
  assumes i: "interp_ok interp" and p: "prog = PROG_UNWIND_STOP \<or> unat (tailCalls r) \<le> 29"
    and n: "n > 0 \<and> (prog = PROG_UNWIND_STOP \<or> n + unat (tailCalls r) > 30)"
  shows "\<exists>out. run_programs E interp n prog (r, ev) = Some out"
  using p n
proof (induction n arbitrary: prog r)
  case (Suc n)
  obtain u r1 where u: "program E interp prog r = tail_call u r1" and k: "keeps r r1" by (rule program_tail_call [OF i])
  obtain p' r' where t: "tail_call u r1 = (p', r')" by fastforce
  show ?case
  proof (cases "prog = PROG_UNWIND_STOP")
    case False
    then have "unat (tailCalls r1) \<le> 29" using Suc.prems(1) k by (simp add: keeps_def)
    note c = tail_call_counts [OF t this]
    have "\<exists>out. run_programs E interp n p' (r', ev) = Some out"
      using c(1,2) Suc.prems False k by (intro Suc.IH) (auto simp: keeps_def)
    then show ?thesis unfolding run_programs_Suc u t using False by simp
  qed (simp add: run_programs_Suc del: split_paired_Ex)
qed simp

section \<open>Labels stay behind the frames\<close>

definition labelled :: "Trace \<Rightarrow> Trace \<Rightarrow> bool" where
  "labelled t t' \<longleftrightarrow> (\<exists>m e. t' = t\<lparr>variable_data := m, variable_data_end := e\<rparr> \<and>
     (\<forall>j < unat (variable_data_end t). m j = variable_data t j) \<and> unat (variable_data_end t) \<le> unat e \<and>
     (unat (variable_data_end t) \<le> 25216 \<longrightarrow> unat e \<le> 25216))"

lemma labelled_refl [simp]: "labelled t t"
  by (auto simp: labelled_def intro!: exI [of _ "variable_data t"] exI [of _ "variable_data_end t"])

lemma labelled_trans: "labelled t t' \<Longrightarrow> labelled t' t'' \<Longrightarrow> labelled t t''"
  unfolding labelled_def by (elim exE conjE, intro exI conjI) (assumption | simp)+

lemma golabel_push_labelled: "labelled t (snd (golabel_push rd k v t))"
proof (cases "reserve_variable_data t 64 0")
  case (Some i)
  have i: "i = variable_data_end t" "unat (variable_data_end t) + 64 \<le> 25216" using reserve_Some [OF Some] by simp_all
  then have e: "unat (variable_data_end t + 64) = unat (variable_data_end t) + 64" by (simp add: unat_add_less)
  have w: "labelled t (t\<lparr>variable_data := m\<rparr>)" if "\<forall>j < unat (variable_data_end t). m j = variable_data t j" for m
    using that unfolding labelled_def by (intro exI [of _ m] exI [of _ "variable_data_end t"]) simp
  have c: "labelled t (t\<lparr>variable_data := m, variable_data_end := variable_data_end t + 64\<rparr>)"
    if "\<forall>j < unat (variable_data_end t). m j = variable_data t j" for m
    using that i e unfolding labelled_def by (intro exI [of _ m] exI [of _ "variable_data_end t + 64"]) simp
  show ?thesis
    using w c by (simp add: golabel_push_def Some i(1) Let_def store_bytes_def commit_variable_data_def split: option.split)
qed (simp add: golabel_push_def)

lemma labelled_prod:
  "labelled t (snd p) \<Longrightarrow> (\<And>x t'. labelled t t' \<Longrightarrow> labelled t (snd (f x t'))) \<Longrightarrow> labelled t (snd (case p of (x, t') \<Rightarrow> f x t'))"
  by (simp add: case_prod_beta)

lemma push_labels_labelled: "labelled t0 t \<Longrightarrow> labelled t0 (snd (push_labels rd ls t))"
proof (induction rd ls t rule: push_labels.induct)
  case (2 rd k v ls t)
  have "labelled t0 (snd (golabel_push rd k v t))" using 2(2) golabel_push_labelled by (rule labelled_trans)
  then show ?case using 2(1) by (auto simp: Let_def split: prod.split)
qed simp

lemma bucket_loop_labelled: "labelled t0 t \<Longrightarrow> labelled t0 (snd (bucket_loop rd me b ls t))"
proof (induction rd me b ls t rule: bucket_loop.induct)
  case (2 rd me b i ls t)
  have "labelled t0 (snd (golabel_push rd (string_at (drop 8 b) i) (string_at (drop 136 b) i) t))"
    using 2(3) golabel_push_labelled by (rule labelled_trans)
  then show ?case using 2 by (auto simp: Let_def split: prod.split)
qed simp

lemma buckets_loop_labelled: "labelled t0 t \<Longrightarrow> labelled t0 (snd (buckets_loop rd me lb bc ls t))"
proof (induction ls arbitrary: t)
  case (Cons b ls)
  have "labelled t0 t'" if "bucket_loop rd me bk [0..<8] t = (x, t')" for bk x t'
    using bucket_loop_labelled [OF Cons.prems, of rd me bk "[0..<8]"] that by simp
  then show ?case using Cons by (auto simp: Let_def split: prod.split option.split)
qed simp

lemma add_golang_labels_labelled: "labelled (rec_trace r) (rec_trace (snd (add_golang_labels rd m r)))"
proof -
  have s: "labelled t (snd (go_labels_get_from_slice rd p t))" for p t
    by (simp add: go_labels_get_from_slice_def Let_def push_labels_labelled split: option.split)
  have m: "labelled t (snd (go_labels_get_from_map rd offs p t))" for offs p t
    by (simp add: go_labels_get_from_map_def buckets_loop_labelled split: option.split)
  show ?thesis
    using s m by (simp add: add_golang_labels_def Let_def case_prod_beta split: option.split)
qed

text \<open>The end of the labels is that of the data, or none were added.\<close>

lemma maybe_add_golang_labels_trace:
  obtains t where "labelled (rec_trace r) t"
    "rec_trace (maybe_add_golang_labels a rd tls off r) \<in> {rec_trace r, t\<lparr>golang_label_end := variable_data_end t\<rparr>}"
proof -
  define m where "m = go_get_m_ptr a rd tls (goOffsets r) (rec_state r)"
  define r0 where "r0 = increment_metric ''UnwindGoLabelsAttempts'' r"
  obtain ok r1 where l: "add_golang_labels rd m r0 = (ok, r1)" by fastforce
  have "labelled (rec_trace r) (rec_trace r1)"
    using add_golang_labels_labelled [of r0 rd m] unfolding l by (simp add: r0_def increment_metric_def)
  moreover have "rec_trace (maybe_add_golang_labels a rd tls off r)
      \<in> {rec_trace r, (rec_trace r1)\<lparr>golang_label_end := variable_data_end (rec_trace r1)\<rparr>}"
    unfolding maybe_add_golang_labels_def Let_def m_def [symmetric] r0_def [symmetric] l
    by (simp add: end_variable_data_def)
  ultimately show ?thesis by (rule that)
qed

section \<open>The parser accepts what is sent\<close>

lemma round_up_8:
  assumes "unat (e :: u16) = 8 * n" "8 * n \<le> 25216"
  shows "(e + 7) AND NOT 7 = e"
proof -
  have "unat (e + 7) = unat e + 7" using assms by (simp add: unat_add_less)
  moreover have "(8 * n + 7) mod 8 = 7" by presburger
  ultimately have "unat ((e + 7) AND NOT (mask 3)) = unat e" by (simp add: unat_and_not_mask assms(1))
  moreover have "(mask 3 :: u16) = 7" by (simp add: mask_eq_exp_minus_1)
  ultimately show ?thesis by (metis word_unat_eq_iff)
qed

text \<open>A section of words behind others.\<close>

lemma copyUint64_section:
  assumes "vd_raw vd = enc (pre @ ws) @ rest" "unat (vd_pos vd) = 8 * length pre" "length ws \<le> vd_dst vd"
    and "unat e = (if ws = [] \<and> z then 0 else 8 * length (pre @ ws))" "8 * length (pre @ ws) \<le> 25216"
  shows "\<exists>vd'. copyUint64 e vd = (Inr ws, vd') \<and> vd_raw vd' = vd_raw vd \<and> unat (vd_pos vd') = 8 * length (pre @ ws) \<and>
    vd_dst vd' = vd_dst vd - length ws"
proof (cases "e = 0")
  case True
  then have "ws = []" using assms(4) by (auto split: if_split_asm)
  then show ?thesis using assms True by (simp add: copyUint64_def decodeBytes_def)
next
  case False
  then have e: "unat e = 8 * length (pre @ ws)" using assms(4) by (auto simp: unat_eq_zero split: if_split_asm)
  have "drop (unat (vd_pos vd)) (take (unat e) (vd_raw vd)) = enc ws" by (simp add: e assms(1,2))
  moreover have "\<not> vd_pos vd > e" "unat e \<le> length (vd_raw vd)" by (simp_all add: word_less_nat_alt e assms(1,2))
  ultimately have "decodeBytes e vd = (Inr (Some (enc ws)), vd\<lparr>vd_pos := (e + 7) AND NOT 7\<rparr>)"
    using False by (simp add: decodeBytes_def)
  then show ?thesis
    using assms(3) e round_up_8 [OF e] assms(5) le_words_enc [of ws "[]"] by (simp add: copyUint64_def)
qed

lemma split_frames_concat:
  "(\<forall>f \<in> set fs. wf_frame f) \<Longrightarrow> split_frames (concat fs) = Ret fs"
proof (induction fs)
  case (Cons f fs)
  have f: "f \<noteq> []" "length f < 16" "EbpfFrame_Length f = Ret (of_nat (length f))" using Cons.prems by (simp_all add: wf_frame_def)
  have "ucast (drop_bit 52 (hd f)) AND (0xf :: u8) = of_nat (length f)"
    using f by (cases f) (auto simp: EbpfFrame_Length_def first_word_def)
  then have l: "unat (ucast (drop_bit 52 (hd f)) AND (0xf :: u8)) = length f"
    using unat_of_nat_less [of "length f", where 'a = 8] f(2) by simp
  show ?case
    using Cons f l by (subst split_frames.simps) (simp add: Let_def)
qed (simp add: split_frames.simps)

text \<open>The header \<open>h\<close> of a record whose frames are those of \<open>t\<close>, with labels behind them.\<close>

definition finished :: "Trace \<Rightarrow> Trace \<Rightarrow> bool" where
  "finished t h \<longleftrightarrow> same_sample t h \<and> context_value_end h = context_value_end t \<and> kernel_frame_end h = kernel_frame_end t \<and>
     frame_data_end h = variable_data_end t \<and> thread_label_end h = 0 \<and> golang_label_end h \<in> {0, variable_data_end h} \<and>
     num_frames h = num_frames t \<and> (\<forall>j < unat (variable_data_end t). variable_data h j = variable_data t j) \<and>
     unat (variable_data_end t) \<le> unat (variable_data_end h) \<and> unat (variable_data_end h) \<le> 25216"

definition describes :: "EbpfTrace \<Rightarrow> Trace \<Rightarrow> u64 list \<Rightarrow> u64 list \<Rightarrow> u64 list list \<Rightarrow> bool" where
  "describes tr t cs ks fs \<longleftrightarrow> et_PID tr = tr_pid t \<and> et_TID tr = tr_tid t \<and> et_KTime tr = tr_ktime t \<and> et_Comm tr = tr_comm t \<and>
     et_Origin tr = origin t \<and> et_ContextValues tr = cs \<and> et_KernelFrames tr = ks \<and> et_FrameData tr = concat fs \<and>
     et_NumFrames tr = of_nat (length fs)"

lemma load_finished:
  assumes b: "built t cs ks fs" and h: "finished t h" and o: "known_origin (origin h)"
  shows "\<exists>tr. loadBpfTrace known_origin dec (Some h) (map (variable_data h) [0..<unat (variable_data_end h)] @ pad) = Inr tr \<and>
    describes tr t cs ks fs"
proof -
  define raw where "raw = map (variable_data h) [0..<unat (variable_data_end h)]"
  define n where "n = unat (variable_data_end t)"
  have n: "n = 8 * length (cs @ ks @ concat fs)" "n \<le> 24576" "n \<le> unat (variable_data_end h)"
    using b h by (simp_all add: n_def built_def holds_def finished_def)
  have room: "length cs \<le> 3072" "length ks \<le> 3072 - length cs" "length (concat fs) \<le> 3072 - (length cs + length ks)"
    using n(1,2) by simp_all
  have "map (variable_data h) [0..<n] = map (variable_data t) [0..<n]" using h by (simp add: finished_def n_def)
  also have "\<dots> = enc (cs @ ks @ concat fs)" using b by (simp add: built_def holds_def n(1))
  finally have "map (variable_data h) [0..<n] = enc (cs @ ks @ concat fs)" .
  moreover have "raw = map (variable_data h) [0..<n] @ map (variable_data h) [n..<unat (variable_data_end h)]"
    unfolding raw_def map_append [symmetric] using upt_add_eq_append [of 0 n "unat (variable_data_end h) - n"] n(3) by simp
  ultimately obtain rest where raw: "raw = enc (cs @ ks @ concat fs) @ rest" by simp
  define vd where "vd = \<lparr>vd_raw = raw, vd_dst = 3072, vd_pos = (0 :: u16)\<rparr>"
  obtain vd1 where v1: "copyUint64 (context_value_end h) vd = (Inr cs, vd1)" "vd_raw vd1 = raw" "unat (vd_pos vd1) = 8 * length cs"
      "vd_dst vd1 = 3072 - length cs"
    using copyUint64_section [of vd "[]" cs "enc (ks @ concat fs) @ rest" "context_value_end h" False] b h n room
    by (auto simp: vd_def raw built_def finished_def)
  obtain vd2 where v2: "copyUint64 (kernel_frame_end h) vd1 = (Inr ks, vd2)" "vd_raw vd2 = raw" "unat (vd_pos vd2) = 8 * length (cs @ ks)"
      "vd_dst vd2 = 3072 - length (cs @ ks)"
    using copyUint64_section [of vd1 cs ks "enc (concat fs) @ rest" "kernel_frame_end h" True] b h n v1 room
    by (auto simp: raw built_def finished_def)
  obtain vd3 where v3: "copyUint64 (frame_data_end h) vd2 = (Inr (concat fs), vd3)" "vd_raw vd3 = raw"
      "unat (vd_pos vd3) = n"
    using copyUint64_section [of vd2 "cs @ ks" "concat fs" rest "frame_data_end h" False] b h n v2 room
    by (auto simp: raw finished_def n_def)
  have l: "\<exists>p vd4. decodeBytes (golang_label_end h) vd3 = (Inr p, vd4)"
    using h n v3(2,3) by (auto simp: decodeBytes_def finished_def word_less_nat_alt raw_def)
  have th: "decodeBytes (thread_label_end h) vd3 = (Inr None, vd3)" using h by (simp add: decodeBytes_def finished_def)
  have num: "num_frames h = of_nat (length fs)" using b h by (simp add: built_def finished_def)
  have take: "take (unat (variable_data_end h)) (raw @ pad) = raw" by (simp add: raw_def)
  have len: "(length (raw @ pad) < unat (variable_data_end h)) = False" by (simp add: raw_def)
  obtain p vd4 where l: "decodeBytes (golang_label_end h) vd3 = (Inr p, vd4)" using l by blast
  have s: "tr_pid h = tr_pid t" "tr_tid h = tr_tid t" "tr_ktime h = tr_ktime t" "tr_comm h = tr_comm t" "origin h = origin t"
    using h by (simp_all add: finished_def same_sample_def)
  show ?thesis
    unfolding raw_def [symmetric] loadBpfTrace_def option.case len if_False take Let_def vd_def [symmetric] v1(1) v2(1) v3(1) th l
      prod.case sum.case
    using o num s by (simp add: describes_def)
qed

section \<open>The last program sends the trace\<close>

lemma refine_keeps_error:
  "unwind_error s \<noteq> ERR_OK \<Longrightarrow> unwind_error (refine_missing_mapping_error en sh vma anon s) \<noteq> ERR_OK"
  by (simp add: refine_missing_mapping_error_def Let_def split: find_vma.split)

lemma stop_report_trace: "rec_trace (fst (stop_report E (r, ev))) = rec_trace r"
  by (simp add: stop_report_def Let_def split: prod.split)

lemma stop_error_built:
  assumes b: "built (rec_trace r) [] ks fs"
  obtains fs' where "built (rec_trace (stop_error E r)) [] ks (fs @ fs')" "same_sample (rec_trace r) (rec_trace (stop_error E r))"
    "ks = [] \<Longrightarrow> fs @ fs' \<noteq> []"
proof -
  define t where "t = (case pe_span E of None \<Rightarrow> rec_trace r
    | Some (trace_id, span) \<Rightarrow> (rec_trace r)\<lparr>tr_trace_id := trace_id, tr_span_id := span\<rparr>)"
  have t: "built t [] ks fs" "same_sample (rec_trace r) t"
    using b by (auto simp: t_def built_def holds_def same_sample_def split: option.split)
  define r1 where "r1 = r\<lparr>rec_trace := t\<rparr>"
  define r2 where "r2 = (if num_frames t = 0 \<and> kernel_frame_end t = 0
    then (let record = increment_metric ''ErrEmptyStack'' r1; s = rec_state record
          in if unwind_error s = ERR_OK then record\<lparr>rec_state := s\<lparr>unwind_error := ERR_EMPTY_STACK\<rparr>\<rparr> else record)
    else r1)"
  define s where "s = refine_missing_mapping_error (vma_lookup_enabled E) (vma_shape_available E) (pe_find_vma E)
    (usesAnonymousMappings r2) (rec_state r2)"
  have stop: "stop_error E r = (if unwind_error s \<noteq> ERR_OK then r2\<lparr>rec_state := s, rec_trace := push_abort (unwind_error s) t\<rparr>
      else r2\<lparr>rec_state := s\<rparr>)"
    unfolding stop_error_def s_def r2_def r1_def t_def Let_def ..
  have "rec_trace r2 = t" by (simp add: r2_def r1_def Let_def)
  then have tr: "rec_trace (stop_error E r) = (if unwind_error s = ERR_OK then t else push_abort (unwind_error s) t)"
    by (simp add: stop)
  have err: "unwind_error s \<noteq> ERR_OK" if "fs = []" "ks = []"
  proof -
    have "num_frames t = 0" "kernel_frame_end t = 0" using t(1) that by (simp_all add: built_def unat_eq_zero)
    then have "unwind_error (rec_state r2) \<noteq> ERR_OK" by (simp add: r2_def Let_def)
    then show ?thesis unfolding s_def by (rule refine_keeps_error)
  qed
  have g: "grows t (rec_trace (stop_error E r))" unfolding tr using push_abort_grows by simp
  obtain fs' where fs': "built (rec_trace (stop_error E r)) [] ks (fs @ fs')" "same_sample t (rec_trace (stop_error E r))"
    by (rule growsE [OF g t(1)])
  have "fs' \<noteq> []" if "fs = []" "ks = []"
  proof -
    have "variable_data_end t = 0" using t(1) that by (simp add: built_def holds_def unat_eq_zero)
    then have "num_frames (push_abort (unwind_error s) t) = num_frames t + 1"
      by (simp add: push_abort_def reserve_variable_data_def write_words_def commit_variable_data_def)
    then have "num_frames (rec_trace (stop_error E r)) = 1" using t(1) that err by (simp add: tr built_def)
    then show ?thesis using fs'(1) that by (auto simp: built_def)
  qed
  then show ?thesis using that [OF fs'(1) same_sample_trans [OF t(2) fs'(2)]] by blast
qed

text \<open>The record that the last program sends holds the frames of the trace, and at least one.\<close>

lemma unwind_stop_sends:
  assumes b: "built (rec_trace r) [] ks fs" and E: "\<not> pe_ringbuf_fails E" "\<not> filter_error_frames E"
  shows "\<exists>h r' ev' t fs'. unwind_stop E (r, ev) = (Sent h (map (variable_data h) [0..<unat (variable_data_end h)]), r', ev') \<and>
    built t [] ks (fs @ fs') \<and> finished t h \<and> same_sample (rec_trace r) t \<and> (ks = [] \<longrightarrow> fs @ fs' \<noteq> [])"
proof -
  obtain r1 ev1 where r1: "stop_report E (stop_error E r, ev) = (r1, ev1)" by fastforce
  define t where "t = rec_trace (stop_error E r)"
  obtain fs' where t: "built t [] ks (fs @ fs')" "same_sample (rec_trace r) t" "ks = [] \<Longrightarrow> fs @ fs' \<noteq> []"
    using stop_error_built [OF b, of E] unfolding t_def by blast
  have tr: "rec_trace r1 = t" using stop_report_trace [of E "stop_error E r" ev] by (simp add: r1 t_def)
  define r2 where "r2 = r1\<lparr>rec_trace := t\<lparr>frame_data_end := variable_data_end t\<rparr>\<rparr>"
  define r3 where "r3 = maybe_add_golang_labels (pe_arch E) (pe_rd E) (pe_tls E) (go_labels_disabled E) r2"
  define h where "h = (rec_trace r3)\<lparr>tr_cpu_id := pe_cpu E\<rparr>"
  obtain t' where t': "labelled (rec_trace r2) t'" "rec_trace r3 \<in> {rec_trace r2, t'\<lparr>golang_label_end := variable_data_end t'\<rparr>}"
    unfolding r3_def by (rule maybe_add_golang_labels_trace)
  have e: "unat (variable_data_end t) \<le> 24576" "thread_label_end t = 0" "golang_label_end t = 0"
    using t(1) by (simp_all add: built_def holds_def)
  have f: "finished t h"
    using t' e by (auto simp: h_def r2_def labelled_def finished_def same_sample_def)
  then have "send_trace E r3 = (Sent h (map (variable_data h) [0..<unat (variable_data_end h)]), r3\<lparr>rec_trace := h\<rparr>)"
    using E(1) by (simp add: send_trace_def h_def [symmetric] finished_def min_def)
  then have "unwind_stop E (r, ev) = (Sent h (map (variable_data h) [0..<unat (variable_data_end h)]), r3\<lparr>rec_trace := h\<rparr>, ev1)"
    using E(2) by (simp add: unwind_stop_def r1 tr end_variable_data_def r2_def [symmetric] r3_def [symmetric])
  then show ?thesis using t f by blast
qed

section \<open>From the interrupted process to user space\<close>

lemma run_programs_sends:
  assumes i: "interp_ok interp" and E: "\<not> pe_ringbuf_fails E" "\<not> filter_error_frames E" "\<And>p. pe_progs E p"
    and b: "built (rec_trace r) [] ks fs"
    and p: "prog = PROG_UNWIND_STOP \<or> unat (tailCalls r) \<le> 29"
    and n: "n > 0 \<and> (prog = PROG_UNWIND_STOP \<or> n + unat (tailCalls r) > 30)"
  shows "\<exists>h r' ev' t fs'. run_programs E interp n prog (r, ev) =
      Some (Sent h (map (variable_data h) [0..<unat (variable_data_end h)]), r', ev') \<and>
    built t [] ks (fs @ fs') \<and> finished t h \<and> same_sample (rec_trace r) t \<and> (ks = [] \<longrightarrow> fs @ fs' \<noteq> [])"
  using b p n
proof (induction n arbitrary: prog r fs)
  case (Suc n)
  obtain u r1 where u: "program E interp prog r = tail_call u r1" and k: "keeps r r1" by (rule program_tail_call [OF i])
  obtain p' r' where t: "tail_call u r1 = (p', r')" by fastforce
  show ?case
  proof (cases "prog = PROG_UNWIND_STOP")
    case True
    then show ?thesis using unwind_stop_sends [OF Suc.prems(1) E(1,2), of ev] E(3) by (simp add: run_programs_Suc)
  next
    case False
    then have "unat (tailCalls r1) \<le> 29" using Suc.prems(2) k by (simp add: keeps_def)
    note c = tail_call_counts [OF t this]
    obtain fs1 where b1: "built (rec_trace r1) [] ks (fs @ fs1)" and s1: "same_sample (rec_trace r) (rec_trace r1)"
      using growsE [OF _ Suc.prems(1)] k by (metis keeps_def)
    have "\<exists>h r'' ev' t fs'. run_programs E interp n p' (r', ev) =
        Some (Sent h (map (variable_data h) [0..<unat (variable_data_end h)]), r'', ev') \<and>
      built t [] ks ((fs @ fs1) @ fs') \<and> finished t h \<and> same_sample (rec_trace r') t \<and> (ks = [] \<longrightarrow> (fs @ fs1) @ fs' \<noteq> [])"
      using c Suc.prems(2,3) False k b1 by (intro Suc.IH) (auto simp: keeps_def)
    then show ?thesis
      unfolding run_programs_Suc u t c(3) append.assoc using False E(3) s1 by (auto intro: same_sample_trans)
  qed
qed simp

lemma get_usermode_regs_keeps: "get_usermode_regs pac ctx task r = (e, r') \<Longrightarrow> rec_trace r' = rec_trace r \<and> tailCalls r' = tailCalls r"
  by (auto simp: get_usermode_regs_def Let_def increment_metric_def split: option.split_asm if_split_asm prod.split_asm)

lemma unwind_trace_cases:
  assumes "tailCalls r = 0"
  obtains (calls) u r1 where "unwind_trace E True (r, ev) = (Some (fst (tail_call u r1)), snd (tail_call u r1), ev)"
      "tailCalls r1 = 0" "grows (push_kernel_frames (pe_kstack E) (rec_trace r)) (rec_trace r1)"
    | (unknown) r1 ev1 where "unwind_trace E True (r, ev) = (None, r1, ev1)"
      "pid_information (pe_bpf E) (pe_kern E) (tr_pid (rec_trace r)) = None"
proof -
  define t where "t = push_kernel_frames (pe_kstack E) (rec_trace r)"
  define r1 where "r1 = r\<lparr>rec_trace := t\<rparr>"
  have pid: "tr_pid t = tr_pid (rec_trace r)" by (simp add: t_def push_kernel_frames_def write_words_def commit_variable_data_def
      end_variable_data_def Let_def split: option.split)
  define r2 where "r2 = (case pe_go_procs E (tr_pid t) of None \<Rightarrow> r1 | Some offs \<Rightarrow> r1\<lparr>goOffsets := offs\<rparr>)"
  obtain e r3 where g: "get_usermode_regs (pe_pac E) (pe_ctx E) (pe_task_regs E) r2 = (e, r3)" by fastforce
  have r3: "rec_trace r3 = t" "tailCalls r3 = 0" and r1: "rec_trace r1 = t" "tailCalls r1 = 0"
    using get_usermode_regs_keeps [OF g] assms by (simp_all add: r2_def r1_def split: option.split_asm)
  define res where "res = (\<lambda>e u r'. let q = tail_call u (r'\<lparr>rec_state := (rec_state r')\<lparr>unwind_error := e\<rparr>\<rparr>)
    in (Some (fst q), snd q, ev))"
  have res: thesis if "unwind_trace E True (r, ev) = res e u r'" "tailCalls r' = 0" "grows t (rec_trace r')" for e u r'
    using calls that unfolding t_def [symmetric] res_def Let_def by simp
  note fold = unwind_trace_def t_def [symmetric] r1_def [symmetric] r2_def [symmetric] g r3 res_def case_prod_beta
  consider (idle) "tr_pid t = 0" | (regs) "tr_pid t \<noteq> 0" "e \<noteq> ERR_OK"
    | (new) "tr_pid t \<noteq> 0" "e = ERR_OK" "pid_information (pe_bpf E) (pe_kern E) (tr_pid t) = None"
    | (known) info where "tr_pid t \<noteq> 0" "e = ERR_OK" "pid_information (pe_bpf E) (pe_kern E) (tr_pid t) = Some info" by blast
  then show ?thesis
  proof cases
    case idle
    then show ?thesis by (intro res [of ERR_OK PROG_UNWIND_STOP r1]) (simp_all add: fold r1, simp add: Let_def)
  next
    case regs
    then show ?thesis
      by (intro res [of "if e = ERR_EMPTY_STACK then ERR_OK else e" PROG_UNWIND_STOP r3]) (simp_all add: fold r3, simp_all add: Let_def)
  next
    case new
    then have "fst (unwind_trace E True (r, ev)) = None" by (simp add: fold) (simp add: Let_def)
    then show ?thesis
      using new pid unknown [of "fst (snd (unwind_trace E True (r, ev)))" "snd (snd (unwind_trace E True (r, ev)))"]
      by (simp add: prod_eq_iff)
  next
    case known
    define r4 where "r4 = r3\<lparr>usesAnonymousMappings := pid_uses_anonymous_mappings info\<rparr>"
    obtain e' u r5 where n: "get_next_unwinder_after_native_frame (pe_bpf E) (pe_kern E) r4 = ((e', u), r5)" by (metis prod.collapse)
    have "keeps r4 r5" using get_next_unwinder_keeps [of r4 "pe_bpf E" "pe_kern E"] by (simp add: n)
    then have "tailCalls r5 = 0" "grows t (rec_trace r5)" using r3 by (simp_all add: keeps_def r4_def)
    then show ?thesis
      by (intro res [of e' u r5]) (simp_all add: known fold r4_def [symmetric] n, simp add: Let_def)
  qed
qed

lemma prepare_trace_built:
  assumes "prepare_trace E orig pid tid ts r = Some r'"
  shows "built (rec_trace r') [] [] []" "tailCalls r' = 0" "tr_pid (rec_trace r') = pid" "tr_tid (rec_trace r') = tid"
    "origin (rec_trace r') = orig" "tr_ktime (rec_trace r') = ts"
  using assms
  by (auto simp: prepare_trace_def get_pristine_per_cpu_record_def Let_def built_def holds_def increment_metric_def
        split: if_split_asm option.split_asm)

text \<open>
  C27: Capturing a trace always ends: whatever the unwinders find, the limit on tail calls ends the chain of
  programs, and the number of programs that \<open>collect_trace\<close> allows for is never used up.  The unwinders of the
  interpreters only have to leave the count of tail calls alone and to add whole frames.
\<close>

theorem collect_trace_returns:
  assumes "interp_ok interp"
  shows "\<exists>out. collect_trace E interp orig pid tid ts st = Some out"
proof -
  obtain r ev where st: "st = (r, ev)" by fastforce
  show ?thesis
  proof (cases "prepare_trace E orig pid tid ts r")
    case (Some r1)
    note r1 = prepare_trace_built [OF Some]
    from r1(2) show ?thesis
    proof (cases rule: unwind_trace_cases [of r1 E ev])
      case (calls u r2)
      obtain p r3 where t: "tail_call u r2 = (p, r3)" by fastforce
      have "unat (tailCalls r3) = 1" using tail_call_counts [OF t] calls(2) by simp
      then show ?thesis
        using run_programs_returns [OF assms, of p r3 30 E ev] by (simp add: collect_trace_def st Some calls(1) t del: split_paired_Ex)
    qed (simp add: collect_trace_def st Some)
  qed (simp add: collect_trace_def st)
qed

text \<open>A process that is known to the trie, on a kernel with all programs loaded.\<close>

lemma lpm_lookup_exact: "t bs = Some v \<Longrightarrow> lpm_lookup t bs = Some v"
  by (simp add: lpm_lookup_def)

definition example_env :: "ram prog_env" where
  "example_env = \<lparr>pe_bpf = ram_bpf,
     pe_kern = ram_put PidPageToMappingInfo (KPid \<lparr>PrefixLen = 96, Pid = ReverseBytes32 7, pp_Page = 0\<rparr>)
       (Some (VMapping \<lparr>File_id = 0, Bias_and_unwind_program = 0\<rparr>)) ram_empty,
     pe_arch = X86_64, pe_pac = 0, pe_rd = \<lambda>a n. None, pe_tls = None, pe_scratch = \<lambda>i. 0,
     pe_ctx = PtX86 \<lparr>x_ip = 0x401000, x_sp = 0x7000, x_bp = 0, x_ax = 0, x_di = 0, x_r8 = 0, x_r9 = 0, x_r11 = 0, x_r13 = 0,
       x_r15 = 0, x_cs = 51, x_ss = 43, x_orig_ax = 0\<rparr>,
     pe_task_regs = None, pe_kstack = Some [0xffffffff81000000], pe_comm = None, pe_cpu = 0, pe_start_boottime = None,
     pe_span = None, pe_go_procs = Map.empty, pe_progs = \<lambda>p. True, pe_ringbuf_fails = False,
     pe_events = \<lparr>boot_ns = 0, reported_fails = False, pid_events_fails = False, inhibit_fails = False\<rparr>,
     filter_min_process_age_ns = 0, filter_error_frames = False, go_labels_disabled = False, vma_lookup_enabled = False,
     vma_shape_available = False, pe_find_vma = VMA_FAILED\<rparr>"

lemma example_env_known: "pid_information (pe_bpf example_env) (pe_kern example_env) 7 \<noteq> None"
  by (simp add: pid_information_def example_env_def ram_bpf_def ram_look_def lpm_lookup_exact)

text \<open>An interpreter unwinder that asks for the end of the trace.\<close>

definition stop_interp :: "nat \<Rightarrow> PerCPURecord \<Rightarrow> nat \<times> PerCPURecord" where
  "stop_interp prog r = (PROG_UNWIND_STOP, r)"

lemma stop_interp_ok: "interp_ok stop_interp"
  by (simp add: interp_ok_def stop_interp_def)

theorem collect_trace_returns_witness:
  "\<exists>out. collect_trace example_env stop_interp 1 7 7 1000 (example_record 0, no_events) = Some out"
  using collect_trace_returns [OF stop_interp_ok] by blast



end
