(* ===== verification/ProcMaps.thy ===== *)
theory ProcMaps
  imports Libpf
begin

text \<open>
  The reading of a process's mappings: \<open>RawMapping\<close> and its predicates (\<open>src/process/types.go\<close>), the field
  splitters of \<open>src/stringutil\<close>, and the parser of \<open>/proc/PID/maps\<close> (\<open>src/process/process.go\<close>).

  A file is its contents and the error that ends its reading, if any.  The device number that
  \<open>golang.org/x/sys/unix\<close> composes is the parameter \<open>Mkdev\<close>.
\<close>

section \<open>Mappings\<close>

record RawMapping =
  rm_Vaddr :: u64
  rm_Length :: u64
  rm_Flags :: u32
  rm_FileOffset :: u64
  rm_Device :: u64
  rm_Inode :: u64
  rm_Path :: string

abbreviation (input) elf_PF_X :: u32 where "elf_PF_X \<equiv> 1"
abbreviation (input) elf_PF_W :: u32 where "elf_PF_W \<equiv> 2"
abbreviation (input) elf_PF_R :: u32 where "elf_PF_R \<equiv> 4"
abbreviation (input) VdsoPathName :: string where "VdsoPathName \<equiv> ''linux-vdso.1.so''"

definition HasPrefix :: "string \<Rightarrow> string \<Rightarrow> bool" where
  "HasPrefix s p \<longleftrightarrow> take (length p) s = p"

definition HasSuffix :: "string \<Rightarrow> string \<Rightarrow> bool" where
  "HasSuffix s p \<longleftrightarrow> length p \<le> length s \<and> drop (length s - length p) s = p"

definition IsExecutable :: "RawMapping \<Rightarrow> bool" where
  "IsExecutable m \<longleftrightarrow> rm_Flags m AND elf_PF_X = elf_PF_X"

definition IsPrctlNamed :: "RawMapping \<Rightarrow> bool" where
  "IsPrctlNamed m \<longleftrightarrow> HasPrefix (rm_Path m) ''[anon:''"

definition IsMemFD :: "RawMapping \<Rightarrow> bool" where
  "IsMemFD m \<longleftrightarrow> HasPrefix (rm_Path m) ''/memfd:''"

definition IsVDSO :: "RawMapping \<Rightarrow> bool" where
  "IsVDSO m \<longleftrightarrow> rm_Path m = VdsoPathName"

definition IsFileBacked :: "RawMapping \<Rightarrow> bool" where
  "IsFileBacked m \<longleftrightarrow> rm_Path m \<noteq> '''' \<and> \<not> IsVDSO m \<and> \<not> IsMemFD m \<and> \<not> IsPrctlNamed m"

definition IsAnonymous :: "RawMapping \<Rightarrow> bool" where
  "IsAnonymous m \<longleftrightarrow> \<not> IsFileBacked m \<and> \<not> IsVDSO m"

definition RawMapping_GetOnDiskFileIdentifier :: "RawMapping \<Rightarrow> OnDiskFileIdentifier" where
  "RawMapping_GetOnDiskFileIdentifier m = \<lparr>DeviceID = rm_Device m, InodeNum = rm_Inode m\<rparr>"

section \<open>Strings\<close>

definition asciiSpace :: "char \<Rightarrow> bool" where
  "asciiSpace c \<longleftrightarrow> c \<in> {CHR 0x09, CHR 0x0A, CHR 0x0B, CHR 0x0C, CHR 0x0D, CHR 0x20}"

text \<open>The fields that are filled in; their number is the result of the source.\<close>

fun FieldsN :: "string \<Rightarrow> nat \<Rightarrow> string list" where
  "FieldsN s 0 = []"
| "FieldsN s (Suc 0) = (let rest = dropWhile asciiSpace s in if rest = [] then [] else [rest])"
| "FieldsN s (Suc (Suc n)) =
     (let rest = dropWhile asciiSpace s; field = takeWhile (\<lambda>c. \<not> asciiSpace c) rest
      in if field = [] then [] else field # FieldsN (dropWhile (\<lambda>c. \<not> asciiSpace c) rest) (Suc n))"

fun Index :: "string \<Rightarrow> string \<Rightarrow> nat option" where
  "Index s sep =
     (if HasPrefix s sep then Some 0
      else case s of [] \<Rightarrow> None | c # s \<Rightarrow> map_option Suc (Index s sep))"

declare Index.simps [simp del]

fun SplitN :: "string \<Rightarrow> string \<Rightarrow> nat \<Rightarrow> string list" where
  "SplitN s sep 0 = []"
| "SplitN s sep (Suc 0) = [s]"
| "SplitN s sep (Suc (Suc n)) =
     (if s = [] then [s]
      else case Index s sep of
        None \<Rightarrow> [s]
      | Some fieldEnd \<Rightarrow> take fieldEnd s # SplitN (drop (fieldEnd + length sep) s) sep (Suc n))"

text \<open>\<open>strconv.ParseUint\<close> for a base other than zero; every error is \<open>None\<close>.\<close>

definition digit_value :: "char \<Rightarrow> nat" where
  "digit_value c =
     (let n = of_char c :: nat
      in if 48 \<le> n \<and> n \<le> 57 then n - 48
         else if 97 \<le> n \<and> n \<le> 122 then n - 97 + 10
         else if 65 \<le> n \<and> n \<le> 90 then n - 65 + 10
         else 255)"

definition ParseUint :: "string \<Rightarrow> nat \<Rightarrow> nat \<Rightarrow> nat option" where
  "ParseUint s base bitSize =
     (if s = [] \<or> (\<exists>c \<in> set s. digit_value c \<ge> base) then None
      else let v = foldl (\<lambda>v c. v * base + digit_value c) 0 s in if v < 2 ^ bitSize then Some v else None)"

definition TrimSuffix :: "string \<Rightarrow> string \<Rightarrow> string" where
  "TrimSuffix s suffix = (if HasSuffix s suffix then take (length s - length suffix) s else s)"

section \<open>Parsing a line\<close>

definition trimMappingPath :: "string \<Rightarrow> string" where
  "trimMappingPath path =
     (let path = TrimSuffix path '' (deleted)'' in if path = ''/dev/zero'' then [] else path)"

datatype line_result = ParseError | Ignored | Mapped RawMapping

text \<open>The path of a line, with the device and inode it has; \<open>None\<close> for a pseudo-file.\<close>

definition mapping_path :: "u64 \<Rightarrow> u64 \<Rightarrow> string \<Rightarrow> (string \<times> u64 \<times> u64) option" where
  "mapping_path device inode fieldValue =
     (if inode = 0
      then (if fieldValue = ''[vdso]'' then Some (VdsoPathName, 0, 50)
            else if fieldValue = [] then Some ([], device, inode)
            else if HasPrefix fieldValue ''[anon:'' then Some (trimMappingPath fieldValue, device, inode)
            else None)
      else Some (trimMappingPath fieldValue, device, inode))"

definition maps_flags :: "string \<Rightarrow> u32" where
  "maps_flags s =
     (if s ! 0 = CHR ''r'' then elf_PF_R else 0) OR (if s ! 1 = CHR ''w'' then elf_PF_W else 0) OR
     (if s ! 2 = CHR ''x'' then elf_PF_X else 0)"

definition path_anonymous :: "string \<Rightarrow> bool" where
  "path_anonymous path \<longleftrightarrow>
     IsAnonymous \<lparr>rm_Vaddr = 0, rm_Length = 0, rm_Flags = 0, rm_FileOffset = 0, rm_Device = 0, rm_Inode = 0, rm_Path = path\<rparr>"

text \<open>The body of the loop of \<open>iterateMappings\<close>; the sixth field is empty when the line has five.\<close>

definition parse_line :: "(u32 \<Rightarrow> u32 \<Rightarrow> u64) \<Rightarrow> string \<Rightarrow> line_result" where
  "parse_line Mkdev line =
     (let fields = FieldsN line 6
      in if length fields < 5 then ParseError
         else
           let addrs = SplitN (fields ! 0) ''-'' 2; devs = SplitN (fields ! 3) '':'' 2;
               fieldValue = (if length fields < 6 then [] else fields ! 5)
           in if length addrs < 2 \<or> length (fields ! 1) < 3 then ParseError
              else case ParseUint (fields ! 4) 10 64 of None \<Rightarrow> ParseError | Some inode \<Rightarrow>
                if length devs < 2 then ParseError
                else case ParseUint (devs ! 0) 16 32 of None \<Rightarrow> ParseError | Some major \<Rightarrow>
                case ParseUint (devs ! 1) 16 32 of None \<Rightarrow> ParseError | Some minor \<Rightarrow>
                case mapping_path (Mkdev (of_nat major) (of_nat minor)) (of_nat inode) fieldValue of None \<Rightarrow> Ignored
                | Some (path, device, inode) \<Rightarrow>
                    let flags = maps_flags (fields ! 1)
                    in if flags AND (elf_PF_R OR elf_PF_X) = 0 \<and> \<not> path_anonymous path then Ignored
                       else case ParseUint (addrs ! 0) 16 64 of None \<Rightarrow> ParseError | Some vaddr \<Rightarrow>
                         case ParseUint (addrs ! 1) 16 64 of None \<Rightarrow> ParseError | Some vend \<Rightarrow>
                         case ParseUint (fields ! 2) 16 64 of None \<Rightarrow> ParseError | Some fileOffset \<Rightarrow>
                           Mapped \<lparr>rm_Vaddr = of_nat vaddr, rm_Length = of_nat vend - of_nat vaddr, rm_Flags = flags,
                             rm_FileOffset = of_nat fileOffset, rm_Device = device, rm_Inode = inode, rm_Path = path\<rparr>)"

section \<open>Iterating over the mappings\<close>

datatype maps_error = ErrCallbackStopped | ErrTooLong | ErrNoMappings | MapsPermission | MapsNotExist | MapsESRCH | MapsOther

type_synonym maps_file = "string \<times> maps_error option"

text \<open>
  The lines that \<open>bufio.Scanner\<close> yields with a buffer of 8192 bytes, and whether a line was too long.  A
  last line needs no line feed, a carriage return at the end of a line is dropped.
\<close>

definition drop_cr :: "string \<Rightarrow> string" where
  "drop_cr line = (if line \<noteq> [] \<and> last line = CHR 0x0D then butlast line else line)"

function scan_lines :: "nat \<Rightarrow> string \<Rightarrow> string list \<times> bool" where
  "scan_lines maxTokenSize s =
     (if s = [] then ([], False)
      else
        let line = takeWhile (\<lambda>c. c \<noteq> CHR 0x0A) s
        in if length line \<ge> maxTokenSize then ([], True)
           else let (lines, long) = scan_lines maxTokenSize (drop (length line + 1) s) in (drop_cr line # lines, long))"
  by pat_completeness auto
termination
  by (relation "measure (\<lambda>(_, s). length s)") auto

declare scan_lines.simps [simp del]

fun iterate_lines ::
  "(u32 \<Rightarrow> u32 \<Rightarrow> u64) \<Rightarrow> (RawMapping \<Rightarrow> 's \<Rightarrow> bool \<times> 's) \<Rightarrow> string list \<Rightarrow> u32 \<Rightarrow> 's \<Rightarrow> (u32 \<times> bool) \<times> 's" where
  "iterate_lines Mkdev callback [] numParseErrors s = ((numParseErrors, False), s)"
| "iterate_lines Mkdev callback (line # lines) numParseErrors s =
     (case parse_line Mkdev line of
        ParseError \<Rightarrow> iterate_lines Mkdev callback lines (numParseErrors + 1) s
      | Ignored \<Rightarrow> iterate_lines Mkdev callback lines numParseErrors s
      | Mapped m \<Rightarrow>
          (let (continue, s) = callback m s
           in if continue then iterate_lines Mkdev callback lines numParseErrors s else ((numParseErrors, True), s)))"

definition iterateMappings ::
  "(u32 \<Rightarrow> u32 \<Rightarrow> u64) \<Rightarrow> (RawMapping \<Rightarrow> 's \<Rightarrow> bool \<times> 's) \<Rightarrow> maps_file \<Rightarrow> 's \<Rightarrow> (u32 \<times> maps_error option) \<times> 's" where
  "iterateMappings Mkdev callback mapsFile s =
     (let (lines, long) = scan_lines 8192 (fst mapsFile);
          ((numParseErrors, stopped), s) = iterate_lines Mkdev callback lines 0 s
      in ((numParseErrors, if stopped then Some ErrCallbackStopped else if long then Some ErrTooLong else snd mapsFile), s))"

text \<open>
  \<open>IterateMappings\<close>; the files of the process and of the thread are what opening them yields.  The flag of
  the state is \<open>gotMappings\<close>; the last result is the new value of \<open>mainThreadExit\<close>.
\<close>

definition IterateMappings ::
  "(u32 \<Rightarrow> u32 \<Rightarrow> u64) \<Rightarrow> maps_error + maps_file \<Rightarrow> maps_error + maps_file \<Rightarrow> bool \<Rightarrow>
     (RawMapping \<Rightarrow> 's \<Rightarrow> bool \<times> 's) \<Rightarrow> bool \<Rightarrow> 's \<Rightarrow> (u32 \<times> maps_error option) \<times> bool \<times> 's" where
  "IterateMappings Mkdev maps task_maps main_thread callback mainThreadExit s =
     (case maps of
        Inl err \<Rightarrow> ((0, Some err), mainThreadExit, s)
      | Inr mapsFile \<Rightarrow>
          let tracked = (\<lambda>m (got :: bool, s). let (continue, s) = callback m s in (continue, True, s));
              ((numParseErrors, err), gotMappings, s) = iterateMappings Mkdev tracked mapsFile (False, s)
          in if err \<noteq> None then ((numParseErrors, err), mainThreadExit, s)
             else if gotMappings then ((numParseErrors, None), mainThreadExit, s)
             else if main_thread then ((numParseErrors, Some ErrNoMappings), True, s)
             else case task_maps of
               Inl _ \<Rightarrow> ((numParseErrors, Some ErrNoMappings), True, s)
             | Inr mapsFileAlt \<Rightarrow>
                 let ((altErrors, err), gotMappings, s) = iterateMappings Mkdev tracked mapsFileAlt (gotMappings, s)
                 in if err \<noteq> None \<or> \<not> gotMappings then ((altErrors, Some ErrNoMappings), True, s)
                    else ((numParseErrors, None), True, s))"

end
