(* ===== verification/ProcInfo.thy ===== *)
theory ProcInfo
  imports ExecInfo ProcMaps Pfelf
begin

text \<open>
  The process manager, \<open>src/processmanager/processinfo.go\<close> with the types of \<open>types.go\<close>: what it knows of each
  process, the mappings it publishes to the kernel, and the interpreters attached to a process, with the
  instances for several interpreters in one executable (\<open>src/interpreter/multi.go\<close>).

  The eBPF handler is the one inside the manager of executables, which both use.  Parameters are what the
  manager asks of a process (\<open>proc\<close>), the operations of interpreters (\<open>interp_ops\<close>) and probes, and the
  third-party cache of ELF information.  Each operation is one step; a Go map that is iterated over is a
  list in the order in which Go visits it.
\<close>

section \<open>Types\<close>

record Mapping =
  m_Vaddr :: u64
  m_Length :: u64
  m_Device :: u64
  m_Inode :: u64
  m_Frame :: FrameMappingData

record TSDInfo =
  tsd_Offset :: u16
  tsd_Multiplier :: u8
  tsd_Indirect :: u8
  tsd_KeyLimit :: u16
  tsd_BlockEntries :: u8
  tsd_DataOffset :: u8

record DTVInfo =
  dtv_Offset :: u16
  dtv_Multiplier :: u8

record libc_info =
  TSDInfo :: TSDInfo
  DTVInfo :: DTVInfo

definition zero_TSDInfo :: TSDInfo where
  "zero_TSDInfo = \<lparr>tsd_Offset = 0, tsd_Multiplier = 0, tsd_Indirect = 0, tsd_KeyLimit = 0, tsd_BlockEntries = 0, tsd_DataOffset = 0\<rparr>"

definition zero_DTVInfo :: DTVInfo where
  "zero_DTVInfo = \<lparr>dtv_Offset = 0, dtv_Multiplier = 0\<rparr>"

definition LibcInfo_IsEqual :: "libc_info \<Rightarrow> libc_info \<Rightarrow> bool" where
  "LibcInfo_IsEqual l other \<longleftrightarrow> TSDInfo l = TSDInfo other \<and> DTVInfo l = DTVInfo other"

definition LibcInfo_Merge :: "libc_info \<Rightarrow> libc_info \<Rightarrow> libc_info" where
  "LibcInfo_Merge l other =
     (let l = (if TSDInfo l = zero_TSDInfo then l\<lparr>TSDInfo := TSDInfo other\<rparr> else l)
      in if DTVInfo l = zero_DTVInfo then l\<lparr>DTVInfo := DTVInfo other\<rparr> else l)"

text \<open>The metadata \<open>'m\<close> and the process context \<open>'x\<close> of a process are opaque.\<close>

record ('m, 'x) processInfo =
  pi_meta :: 'm
  processContext :: 'x
  mappings :: "Mapping list"
  libcInfo :: "libc_info option"

datatype elf_error = ElfNotExist | NotELF | ElfOther

record elfInfo =
  elf_err :: "elf_error option"
  lastModified :: int
  mappingFile :: FrameMappingFileData
  addressMapper :: "addressMapperPHDR list"

text \<open>The third-party cache of ELF information.\<close>

record 'h elf_lru =
  el_Get :: "'h \<Rightarrow> OnDiskFileIdentifier \<Rightarrow> elfInfo option \<times> 'h"
  el_Add :: "'h \<Rightarrow> OnDiskFileIdentifier \<Rightarrow> elfInfo \<Rightarrow> 'h"

section \<open>Interpreters\<close>

text \<open>The operations of the data \<open>'d\<close> and the instances \<open>'i\<close> of single interpreters; \<open>True\<close> is an error.\<close>

record ('k, 'd, 'i) interp_ops =
  io_Attach :: "'d \<Rightarrow> u32 \<Rightarrow> u64 \<Rightarrow> 'k ebpfMapsImpl \<Rightarrow> (unit + 'i option) \<times> 'k ebpfMapsImpl"
  io_Detach :: "'i \<Rightarrow> u32 \<Rightarrow> 'k ebpfMapsImpl \<Rightarrow> bool \<times> 'k ebpfMapsImpl"
  io_UsesAnonymousMappings :: "'i \<Rightarrow> bool"
  io_SynchronizeMappings :: "'i \<Rightarrow> RawMapping list \<Rightarrow> 'k ebpfMapsImpl \<Rightarrow> (bool \<times> 'i) \<times> 'k ebpfMapsImpl"
  io_UpdateLibcInfo :: "'i \<Rightarrow> u32 \<Rightarrow> libc_info \<Rightarrow> 'k ebpfMapsImpl \<Rightarrow> (bool \<times> 'i) \<times> 'k ebpfMapsImpl"

datatype 'i interpInstance = Instance 'i | MultiInstance "'i list"

text \<open>The loop of \<open>MultiData.Attach\<close>: the instances, and whether an attempt failed.\<close>

fun attach_all ::
  "('k, 'd, 'i) interp_ops \<Rightarrow> u32 \<Rightarrow> u64 \<Rightarrow> 'd list \<Rightarrow> 'k ebpfMapsImpl \<Rightarrow> ('i list \<times> bool) \<times> 'k ebpfMapsImpl" where
  "attach_all I pid bias [] eb = (([], False), eb)"
| "attach_all I pid bias (d # ds) eb =
     (let (res, eb) = io_Attach I d pid bias eb;
          ((instances, errs), eb) = attach_all I pid bias ds eb
      in case res of
           Inl _ \<Rightarrow> ((instances, True), eb)
         | Inr None \<Rightarrow> ((instances, errs), eb)
         | Inr (Some instance) \<Rightarrow> ((instance # instances, errs), eb))"

fun Attach ::
  "('k, 'd, 'i) interp_ops \<Rightarrow> 'd interpData \<Rightarrow> u32 \<Rightarrow> u64 \<Rightarrow> 'k ebpfMapsImpl \<Rightarrow>
     (unit + 'i interpInstance option) \<times> 'k ebpfMapsImpl" where
  "Attach I (Data d) pid bias eb = (let (res, eb) = io_Attach I d pid bias eb in (map_sum id (map_option Instance) res, eb))"
| "Attach I (MultiData ds) pid bias eb =
     (let ((instances, errs), eb) = attach_all I pid bias ds eb
      in if instances = [] then (if errs then Inl () else Inr None, eb) else (Inr (Some (MultiInstance instances)), eb))"

text \<open>A method of every instance of a list, with the errors joined.\<close>

fun each_instance ::
  "('i \<Rightarrow> 'k ebpfMapsImpl \<Rightarrow> (bool \<times> 'i) \<times> 'k ebpfMapsImpl) \<Rightarrow> 'i list \<Rightarrow> 'k ebpfMapsImpl \<Rightarrow> (bool \<times> 'i list) \<times> 'k ebpfMapsImpl" where
  "each_instance f [] eb = ((False, []), eb)"
| "each_instance f (i # is) eb =
     (let ((err, i), eb) = f i eb; ((errs, is), eb) = each_instance f is eb in ((err \<or> errs, i # is), eb))"

fun on_instance ::
  "('i \<Rightarrow> 'k ebpfMapsImpl \<Rightarrow> (bool \<times> 'i) \<times> 'k ebpfMapsImpl) \<Rightarrow> 'i interpInstance \<Rightarrow> 'k ebpfMapsImpl \<Rightarrow>
     (bool \<times> 'i interpInstance) \<times> 'k ebpfMapsImpl" where
  "on_instance f (Instance i) eb = (let ((err, i), eb) = f i eb in ((err, Instance i), eb))"
| "on_instance f (MultiInstance is) eb = (let ((err, is), eb) = each_instance f is eb in ((err, MultiInstance is), eb))"

definition Detach ::
  "('k, 'd, 'i) interp_ops \<Rightarrow> 'i interpInstance \<Rightarrow> u32 \<Rightarrow> 'k ebpfMapsImpl \<Rightarrow> bool \<times> 'k ebpfMapsImpl" where
  "Detach I instance pid eb =
     (let ((err, _), eb) = on_instance (\<lambda>i eb. let (err, eb) = io_Detach I i pid eb in ((err, i), eb)) instance eb in (err, eb))"

fun UsesAnonymousMappings :: "('k, 'd, 'i) interp_ops \<Rightarrow> 'i interpInstance \<Rightarrow> bool" where
  "UsesAnonymousMappings I (Instance i) \<longleftrightarrow> io_UsesAnonymousMappings I i"
| "UsesAnonymousMappings I (MultiInstance is) \<longleftrightarrow> (\<exists>i \<in> set is. io_UsesAnonymousMappings I i)"

definition SynchronizeMappings ::
  "('k, 'd, 'i) interp_ops \<Rightarrow> RawMapping list \<Rightarrow> 'i interpInstance \<Rightarrow> 'k ebpfMapsImpl \<Rightarrow>
     (bool \<times> 'i interpInstance) \<times> 'k ebpfMapsImpl" where
  "SynchronizeMappings I ms = on_instance (\<lambda>i. io_SynchronizeMappings I i ms)"

definition UpdateLibcInfo ::
  "('k, 'd, 'i) interp_ops \<Rightarrow> u32 \<Rightarrow> libc_info \<Rightarrow> 'i interpInstance \<Rightarrow> 'k ebpfMapsImpl \<Rightarrow>
     (bool \<times> 'i interpInstance) \<times> 'k ebpfMapsImpl" where
  "UpdateLibcInfo I pid info = on_instance (\<lambda>i. io_UpdateLibcInfo I i pid info)"

section \<open>The process manager\<close>

text \<open>
  A process without interpreters has the empty list; \<open>None\<close> is an instance that an attachment returned as
  \<open>nil\<close>.  Probes are named by their position among the registered ones.
\<close>

record ('c, 'k, 'e, 'd, 'i, 'm, 'x, 'h) ProcessManager =
  interpreterTracerEnabled :: bool
  pm_eim :: "('c, 'k, 'e, 'd, libc_info) ExecutableInfoManager"
  interpreters :: "u32 \<Rightarrow> (OnDiskFileIdentifier \<times> 'i interpInstance option) list"
  pidToProcessInfo :: "u32 \<rightharpoonup> ('m, 'x) processInfo"
  exitEvents :: "u32 \<rightharpoonup> int"
  elfInfoCache :: 'h
  pidPageToMappingInfoSize :: u64
  attachedProbes :: "u32 \<Rightarrow> nat list"
  reportedExecutables :: "FrameMappingFileData list"
  elfInfoCacheHit :: u64
  elfInfoCacheMiss :: u64
  numProcAttempts :: u32
  numProcParseErrors :: u32
  errProcNotExist :: u32
  errProcESRCH :: u32
  errProcPerm :: u32

definition ProcessManager_New ::
  "('c, 'k, 'e, 'd, libc_info) ExecutableInfoManager \<Rightarrow> 'h \<Rightarrow> ('c, 'k, 'e, 'd, 'i, 'm, 'x, 'h) ProcessManager" where
  "ProcessManager_New em cache = \<lparr>interpreterTracerEnabled = NumInterpreterLoaders em > 0, pm_eim = em,
     interpreters = \<lambda>pid. [], pidToProcessInfo = Map.empty, exitEvents = Map.empty, elfInfoCache = cache,
     pidPageToMappingInfoSize = 0, attachedProbes = \<lambda>pid. [], reportedExecutables = [], elfInfoCacheHit = 0, elfInfoCacheMiss = 0,
     numProcAttempts = 0, numProcParseErrors = 0, errProcNotExist = 0, errProcESRCH = 0, errProcPerm = 0\<rparr>"

text \<open>What the manager asks of a process: \<open>pr_maps\<close> is what \<open>IterateMappings\<close> passes to the callback and returns.\<close>

record ('e, 'm) proc =
  pr_PID :: u32
  pr_Exe :: string
  pr_Meta :: 'm
  pr_maps :: "RawMapping list \<times> u32 \<times> maps_error option"
  pr_LastModified :: "RawMapping \<Rightarrow> int"
  pr_GetELF :: "RawMapping \<Rightarrow> elf_error + File"
  pr_FileID :: "RawMapping \<Rightarrow> elf_error + FileID128"
  pr_elfRef :: "RawMapping \<Rightarrow> 'e"

text \<open>The other parameters of the manager; a probe has \<open>Match\<close> and \<open>Attach\<close>, \<open>True\<close> being an error of the latter.\<close>

record ('c, 'k, 'e, 'd, 'i, 'm, 'x, 'h) pm_env =
  en_bpf :: "'k bpf"
  en_deferred :: "'c fileID_lru"
  en_eim :: "('e, File, libc_info) env"
  en_interp :: "('k, 'd, 'i) interp_ops"
  en_elf :: "'h elf_lru"
  en_BuildIDs :: "File \<Rightarrow> string \<times> string"
  en_pageMask :: u64
  en_probes :: "((RawMapping \<Rightarrow> bool) \<times> (RawMapping \<Rightarrow> FileID128 \<Rightarrow> bool)) list"
  en_Executable :: "'m \<Rightarrow> string"
  en_noContext :: 'x
  en_Resolve :: "u64 \<Rightarrow> 'x \<Rightarrow> 'm \<Rightarrow> 'x"
  en_now :: int

abbreviation dummyPrefix :: Prefix where
  "dummyPrefix \<equiv> \<lparr>Key = 0, Length = 64\<rparr>"

definition pm_ebpf :: "('c, 'k, 'e, 'd, 'i, 'm, 'x, 'h) ProcessManager \<Rightarrow> 'k ebpfMapsImpl" where
  "pm_ebpf pm = ebpf (state (pm_eim pm))"

definition set_ebpf ::
  "'k ebpfMapsImpl \<Rightarrow> ('c, 'k, 'e, 'd, 'i, 'm, 'x, 'h) ProcessManager \<Rightarrow> ('c, 'k, 'e, 'd, 'i, 'm, 'x, 'h) ProcessManager" where
  "set_ebpf eb pm = pm\<lparr>pm_eim := (pm_eim pm)\<lparr>state := (state (pm_eim pm))\<lparr>ebpf := eb\<rparr>\<rparr>\<rparr>"

text \<open>A method of every attached instance in turn; a call on \<open>nil\<close> panics.\<close>

fun call_instances ::
  "('i interpInstance \<Rightarrow> 'k ebpfMapsImpl \<Rightarrow> (bool \<times> 'i interpInstance) \<times> 'k ebpfMapsImpl) \<Rightarrow>
     (OnDiskFileIdentifier \<times> 'i interpInstance option) list \<Rightarrow> 'k ebpfMapsImpl \<Rightarrow>
     ((OnDiskFileIdentifier \<times> 'i interpInstance option) list \<times> 'k ebpfMapsImpl) run" where
  "call_instances f [] eb = Ret ([], eb)"
| "call_instances f ((oid, i) # is) eb =
     (case i of
        None \<Rightarrow> Panic
      | Some i \<Rightarrow>
          (let ((_, i), eb) = f i eb in run_bind (call_instances f is eb) (\<lambda>(is, eb). Ret ((oid, Some i) # is, eb))))"

definition call_all ::
  "('i interpInstance \<Rightarrow> 'k ebpfMapsImpl \<Rightarrow> (bool \<times> 'i interpInstance) \<times> 'k ebpfMapsImpl) \<Rightarrow> u32 \<Rightarrow>
     ('c, 'k, 'e, 'd, 'i, 'm, 'x, 'h) ProcessManager \<Rightarrow> ('c, 'k, 'e, 'd, 'i, 'm, 'x, 'h) ProcessManager run" where
  "call_all f pid pm =
     run_bind (call_instances f (interpreters pm pid) (pm_ebpf pm)) (\<lambda>(is, eb).
       Ret (set_ebpf eb (pm\<lparr>interpreters := (interpreters pm)(pid := is)\<rparr>)))"

definition assignLibcInfo ::
  "('k, 'd, 'i) interp_ops \<Rightarrow> u32 \<Rightarrow> libc_info option \<Rightarrow> ('c, 'k, 'e, 'd, 'i, 'm, 'x, 'h) ProcessManager \<Rightarrow>
     ('c, 'k, 'e, 'd, 'i, 'm, 'x, 'h) ProcessManager run" where
  "assignLibcInfo I pid new_libcInfo pm =
     (case new_libcInfo of
        None \<Rightarrow> Ret pm
      | Some newLibcInfo \<Rightarrow>
          (case pidToProcessInfo pm pid of
             None \<Rightarrow> Ret pm
           | Some info \<Rightarrow>
               let merged = (case libcInfo info of
                     None \<Rightarrow> Some newLibcInfo
                   | Some old \<Rightarrow> if LibcInfo_IsEqual old newLibcInfo then None else Some (LibcInfo_Merge old newLibcInfo))
               in case merged of
                    None \<Rightarrow> Ret pm
                  | Some newLibcInfo \<Rightarrow>
                      call_all (UpdateLibcInfo I pid newLibcInfo) pid
                        (pm\<lparr>pidToProcessInfo := (pidToProcessInfo pm)(pid \<mapsto> info\<lparr>libcInfo := Some newLibcInfo\<rparr>)\<rparr>)))"

definition getLibcInfo :: "u32 \<Rightarrow> ('c, 'k, 'e, 'd, 'i, 'm, 'x, 'h) ProcessManager \<Rightarrow> libc_info option" where
  "getLibcInfo pid pm = (case pidToProcessInfo pm pid of None \<Rightarrow> None | Some info \<Rightarrow> libcInfo info)"

text \<open>The result tells whether the process has an entry.\<close>

definition getOrCreateProcessInfo ::
  "('c, 'k, 'e, 'd, 'i, 'm, 'x, 'h) pm_env \<Rightarrow> ('e, 'm) proc \<Rightarrow> ('c, 'k, 'e, 'd, 'i, 'm, 'x, 'h) ProcessManager \<Rightarrow>
     (bool \<times> ('c, 'k, 'e, 'd, 'i, 'm, 'x, 'h) ProcessManager) run" where
  "getOrCreateProcessInfo E pr pm =
     (let pid = pr_PID pr
      in if pidToProcessInfo pm pid \<noteq> None then Ret (True, pm)
         else run_bind (UpdatePidPageMappingInfo (en_bpf E) pid dummyPrefix 0 0 (pm_ebpf pm)) (\<lambda>(err, eb).
           if err \<noteq> None then Ret (False, set_ebpf eb pm)
           else Ret (True, (set_ebpf eb pm)\<lparr>pidPageToMappingInfoSize := pidPageToMappingInfoSize pm + 1,
             pidToProcessInfo := (pidToProcessInfo pm)(pid \<mapsto>
               \<lparr>pi_meta = pr_Meta pr, processContext = en_noContext E, mappings = [], libcInfo = None\<rparr>)\<rparr>)))"

definition assignInterpreter ::
  "u32 \<Rightarrow> OnDiskFileIdentifier \<Rightarrow> 'i interpInstance option \<Rightarrow> ('c, 'k, 'e, 'd, 'i, 'm, 'x, 'h) ProcessManager \<Rightarrow>
     ('c, 'k, 'e, 'd, 'i, 'm, 'x, 'h) ProcessManager" where
  "assignInterpreter pid key instance pm =
     pm\<lparr>interpreters := (interpreters pm)(pid := (key, instance) # filter (\<lambda>(k, _). k \<noteq> key) (interpreters pm pid))\<rparr>"

definition updatePIDAnonymousMappingInterest ::
  "'k bpf \<Rightarrow> u32 \<Rightarrow> bool \<Rightarrow> ('c, 'k, 'e, 'd, 'i, 'm, 'x, 'h) ProcessManager \<Rightarrow>
     ('c, 'k, 'e, 'd, 'i, 'm, 'x, 'h) ProcessManager run" where
  "updatePIDAnonymousMappingInterest K pid enabled pm =
     run_bind (UpdatePidPageMappingInfo K pid dummyPrefix (if enabled then 1 else 0) 0 (pm_ebpf pm))
       (\<lambda>(err, eb). Ret (set_ebpf eb pm))"

text \<open>The result is \<open>Inl\<close> for an error, else whether anonymous mappings are wanted.\<close>

definition handleNewInterpreter ::
  "('k, 'd, 'i) interp_ops \<Rightarrow> u32 \<Rightarrow> u64 \<Rightarrow> OnDiskFileIdentifier \<Rightarrow> 'd interpData \<Rightarrow> bool \<Rightarrow>
     ('c, 'k, 'e, 'd, 'i, 'm, 'x, 'h) ProcessManager \<Rightarrow> ((unit + bool) \<times> ('c, 'k, 'e, 'd, 'i, 'm, 'x, 'h) ProcessManager) run" where
  "handleNewInterpreter I pid bias oid data anonymousMappingsWanted pm =
     (if oid \<in> fst ` set (interpreters pm pid) then Ret (Inr anonymousMappingsWanted, pm)
      else
        let (res, eb) = Attach I data pid bias (pm_ebpf pm); pm = set_ebpf eb pm
        in case res of
             Inl _ \<Rightarrow> Ret (Inl (), pm)
           | Inr None \<Rightarrow>
               (let pm = assignInterpreter pid oid None pm
                in if getLibcInfo pid pm \<noteq> None \<or> \<not> anonymousMappingsWanted then Panic else Ret (Inr True, pm))
           | Inr (Some instance) \<Rightarrow>
               (let ((_, instance), eb) = (case getLibcInfo pid pm of
                      None \<Rightarrow> ((False, instance), eb)
                    | Some libc \<Rightarrow> UpdateLibcInfo I pid libc instance eb)
                in Ret (Inr (anonymousMappingsWanted \<or> UsesAnonymousMappings I instance),
                     set_ebpf eb (assignInterpreter pid oid (Some instance) pm))))"

section \<open>Mappings\<close>

text \<open>The loop over the probes, from number \<open>i\<close> on.\<close>

fun attachProbesForMapping ::
  "((RawMapping \<Rightarrow> bool) \<times> (RawMapping \<Rightarrow> FileID128 \<Rightarrow> bool)) list \<Rightarrow> nat \<Rightarrow> u32 \<Rightarrow> RawMapping \<Rightarrow> FileID128 \<Rightarrow> ('c, 'k, 'e, 'd, 'i, 'm, 'x, 'h) ProcessManager \<Rightarrow> ('c, 'k, 'e, 'd, 'i, 'm, 'x, 'h) ProcessManager" where
  "attachProbesForMapping [] i pid m fileID pm = pm"
| "attachProbesForMapping ((Match, attach) # ps) i pid m fileID pm =
     attachProbesForMapping ps (Suc i) pid m fileID
       (if \<not> Match m \<or> attach m fileID then pm
        else pm\<lparr>attachedProbes := (attachedProbes pm)(pid := List.insert i (attachedProbes pm pid))\<rparr>)"

text \<open>\<open>path.Base\<close>: the last element of a path without trailing slashes.\<close>

definition path_Base :: "string \<Rightarrow> string" where
  "path_Base path =
     (let p = rev (dropWhile (\<lambda>c. c = CHR ''/'') (rev path))
      in if path = [] then ''.'' else if p = [] then ''/'' else rev (takeWhile (\<lambda>c. c \<noteq> CHR ''/'') (rev p)))"

definition noFile :: FrameMappingFileData where
  "noFile = \<lparr>mf_FileID = NewFileID 0 0, mf_FileName = [], mf_GnuBuildID = [], mf_GoBuildID = []\<rparr>"

definition getELFInfo ::
  "('c, 'k, 'e, 'd, 'i, 'm, 'x, 'h) pm_env \<Rightarrow> ('e, 'm) proc \<Rightarrow> RawMapping \<Rightarrow> ('c, 'k, 'e, 'd, 'i, 'm, 'x, 'h) ProcessManager \<Rightarrow> elfInfo \<times> ('c, 'k, 'e, 'd, 'i, 'm, 'x, 'h) ProcessManager" where
  "getELFInfo E pr mapping pm =
     (let key = RawMapping_GetOnDiskFileIdentifier mapping;
          modified = pr_LastModified pr mapping;
          (cached, cache) = el_Get (en_elf E) (elfInfoCache pm) key;
          pm = pm\<lparr>elfInfoCache := cache\<rparr>;
          slow =
            (let pm = pm\<lparr>elfInfoCacheMiss := elfInfoCacheMiss pm + 1\<rparr>;
                 add = (\<lambda>info pm. pm\<lparr>elfInfoCache := el_Add (en_elf E) (elfInfoCache pm) key info\<rparr>);
                 info = \<lparr>elf_err = None, lastModified = modified, mappingFile = noFile, addressMapper = []\<rparr>
             in case (case pr_GetELF pr mapping of
                        Inl err \<Rightarrow> Inl err
                      | Inr ef \<Rightarrow> (case pr_FileID pr mapping of Inl err \<Rightarrow> Inl err | Inr fileID \<Rightarrow> Inr (ef, fileID))) of
                  Inl err \<Rightarrow>
                    (let info = info\<lparr>elf_err := Some err\<rparr> in (info, if err \<noteq> ElfNotExist then add info pm else pm))
                | Inr (ef, fileID) \<Rightarrow>
                    (let baseName = path_Base (rm_Path mapping);
                         baseName = (if baseName = ''/'' then ''<anonymous-blob>'' else baseName);
                         info = info\<lparr>mappingFile := \<lparr>mf_FileID = fileID, mf_FileName = baseName,
                             mf_GnuBuildID = fst (en_BuildIDs E ef), mf_GoBuildID = snd (en_BuildIDs E ef)\<rparr>,
                           addressMapper := GetAddressMapper ef\<rparr>
                     in (info, (add info pm)\<lparr>reportedExecutables := mappingFile info # reportedExecutables pm\<rparr>)))
      in case cached of
           Some info \<Rightarrow>
             (if lastModified info = modified then (info, pm\<lparr>elfInfoCacheHit := elfInfoCacheHit pm + 1\<rparr>) else slow)
         | None \<Rightarrow> slow)"

definition mapping_fileID :: "Mapping \<Rightarrow> u64" where
  "mapping_fileID m = FileIDFromLibpf (mf_FileID (fm_File (m_Frame m)))"

definition mapping_prefixes :: "Mapping \<Rightarrow> (lpm_error + Prefix list) run" where
  "mapping_prefixes m = (let mf = m_Frame m in CalculatePrefixList (m_Vaddr m) (m_Vaddr m + fm_End mf - fm_Start mf))"

text \<open>The loop over the prefixes; the result is the number of entries added.\<close>

fun add_prefixes ::
  "'k bpf \<Rightarrow> u32 \<Rightarrow> u64 \<Rightarrow> u64 \<Rightarrow> Prefix list \<Rightarrow> u64 \<Rightarrow> 'k ebpfMapsImpl \<Rightarrow> (u64 \<times> 'k ebpfMapsImpl) run" where
  "add_prefixes K pid fileID bias [] added eb = Ret (added, eb)"
| "add_prefixes K pid fileID bias (prefix # prefixes) added eb =
     run_bind (UpdatePidPageMappingInfo K pid prefix fileID bias eb)
       (\<lambda>(err, eb). if err \<noteq> None then Ret (added, eb) else add_prefixes K pid fileID bias prefixes (added + 1) eb)"

definition processNewMapping :: "'k bpf \<Rightarrow> u32 \<Rightarrow> Mapping \<Rightarrow> ('c, 'k, 'e, 'd, 'i, 'm, 'x, 'h) ProcessManager \<Rightarrow> (u64 \<times> ('c, 'k, 'e, 'd, 'i, 'm, 'x, 'h) ProcessManager) run" where
  "processNewMapping K pid m pm =
     run_bind (mapping_prefixes m) (\<lambda>res. case res of
       Inl _ \<Rightarrow> Ret (0, pm)
     | Inr prefixes \<Rightarrow>
         run_bind (add_prefixes K pid (mapping_fileID m) (m_Vaddr m - fm_Start (m_Frame m)) prefixes 0 (pm_ebpf pm))
           (\<lambda>(added, eb). Ret (added, set_ebpf eb pm)))"

definition processRemovedMapping :: "('c, 'k, 'e, 'd, 'i, 'm, 'x, 'h) pm_env \<Rightarrow> u32 \<Rightarrow> Mapping \<Rightarrow> ('c, 'k, 'e, 'd, 'i, 'm, 'x, 'h) ProcessManager \<Rightarrow> (u64 \<times> ('c, 'k, 'e, 'd, 'i, 'm, 'x, 'h) ProcessManager) run" where
  "processRemovedMapping E pid m pm =
     run_bind (mapping_prefixes m) (\<lambda>res. case res of
       Inl _ \<Rightarrow> Ret (0, pm)
     | Inr prefixes \<Rightarrow>
         run_bind (DeletePidPageMappingInfo (en_bpf E) pid prefixes (pm_ebpf pm)) (\<lambda>((deleted, err), eb).
           let pm = set_ebpf eb pm
           in Ret (deleted, pm\<lparr>pm_eim := snd (DecRef (en_now E) (mapping_fileID m) (pm_eim pm))\<rparr>)))"

text \<open>The loop over the interpreters: those that stay, and whether one of them uses anonymous mappings.\<close>

fun remove_interpreters ::
  "('k, 'd, 'i) interp_ops \<Rightarrow> u32 \<Rightarrow> OnDiskFileIdentifier list \<Rightarrow> (OnDiskFileIdentifier \<times> 'i interpInstance option) list \<Rightarrow>
     bool \<Rightarrow> 'k ebpfMapsImpl \<Rightarrow> ((bool \<times> (OnDiskFileIdentifier \<times> 'i interpInstance option) list) \<times> 'k ebpfMapsImpl) run" where
  "remove_interpreters I pid valid [] wanted eb = Ret ((wanted, []), eb)"
| "remove_interpreters I pid valid ((key, i) # is) wanted eb =
     (if key \<in> set valid
      then (if \<not> wanted \<and> i = None then Panic
            else run_bind (remove_interpreters I pid valid is
                (wanted \<or> (case i of None \<Rightarrow> False | Some i \<Rightarrow> UsesAnonymousMappings I i)) eb)
              (\<lambda>((wanted, is), eb). Ret ((wanted, (key, i) # is), eb)))
      else case i of
        None \<Rightarrow> Panic
      | Some i \<Rightarrow> (let (err, eb) = Detach I i pid eb in remove_interpreters I pid valid is wanted eb))"

definition processRemovedInterpreters ::
  "('k, 'd, 'i) interp_ops \<Rightarrow> u32 \<Rightarrow> OnDiskFileIdentifier list \<Rightarrow> ('c, 'k, 'e, 'd, 'i, 'm, 'x, 'h) ProcessManager \<Rightarrow> (bool \<times> ('c, 'k, 'e, 'd, 'i, 'm, 'x, 'h) ProcessManager) run" where
  "processRemovedInterpreters I pid interpretersValid pm =
     (if \<not> interpreterTracerEnabled pm then Ret (False, pm)
      else run_bind (remove_interpreters I pid interpretersValid (interpreters pm pid) False (pm_ebpf pm))
        (\<lambda>((wanted, is), eb). Ret (wanted, set_ebpf eb (pm\<lparr>interpreters := (interpreters pm)(pid := is)\<rparr>))))"

datatype mapping_error = MappingELF elf_error | ErrInvalidVirtualAddress | MappingExe mgr_error

definition newFrameMapping ::
  "('c, 'k, 'e, 'd, 'i, 'm, 'x, 'h) pm_env \<Rightarrow> ('e, 'm) proc \<Rightarrow> RawMapping \<Rightarrow> bool \<Rightarrow> ('c, 'k, 'e, 'd, 'i, 'm, 'x, 'h) ProcessManager \<Rightarrow>
     (((mapping_error + FrameMappingData) \<times> bool) \<times> ('c, 'k, 'e, 'd, 'i, 'm, 'x, 'h) ProcessManager) run" where
  "newFrameMapping E pr m anonymousMappingsWanted pm =
     (let (info, pm) = getELFInfo E pr m pm
      in case elf_err info of
           Some err \<Rightarrow> Ret ((Inl (MappingELF err), anonymousMappingsWanted), pm)
         | None \<Rightarrow>
             (case FileOffsetToVirtualAddress (en_pageMask E) (addressMapper info) (rm_FileOffset m) of
                None \<Rightarrow> Ret ((Inl ErrInvalidVirtualAddress, anonymousMappingsWanted), pm)
              | Some elfSpaceVA \<Rightarrow>
                  run_bind (AddOrIncRef (en_bpf E) (en_deferred E) (en_eim E) (FileIDFromLibpf (mf_FileID (mappingFile info)))
                      (pr_elfRef pr m) (pm_eim pm)) (\<lambda>(res, mgr).
                    let pm = pm\<lparr>pm_eim := mgr\<rparr>
                    in case res of
                         Inl err \<Rightarrow> Ret ((Inl (MappingExe err), anonymousMappingsWanted), pm)
                       | Inr ei \<Rightarrow>
                           run_bind (assignLibcInfo (en_interp E) (pr_PID pr) (LibcInfo ei) pm) (\<lambda>pm.
                             run_bind (case ei_Data ei of
                                 None \<Rightarrow> Ret (Inr anonymousMappingsWanted, pm)
                               | Some data \<Rightarrow> handleNewInterpreter (en_interp E) (pr_PID pr) (rm_Vaddr m - elfSpaceVA)
                                   (RawMapping_GetOnDiskFileIdentifier m) data anonymousMappingsWanted pm) (\<lambda>(res, pm).
                               Ret ((Inr \<lparr>fm_File = mappingFile info, fm_Start = elfSpaceVA, fm_End = elfSpaceVA + rm_Length m,
                                     fm_FileOffset = rm_FileOffset m\<rparr>,
                                   case res of Inl _ \<Rightarrow> anonymousMappingsWanted | Inr w \<Rightarrow> w),
                                 attachProbesForMapping (en_probes E) 0 (pr_PID pr) m (mf_FileID (mappingFile info)) pm))))))"

definition compareMapping :: "Mapping \<Rightarrow> Mapping \<Rightarrow> int" where
  "compareMapping a b =
     (let aFid = mapping_fileID a; bFid = mapping_fileID b
      in if aFid \<noteq> bFid then (if aFid < bFid then - 1 else 1)
         else if m_Vaddr a < m_Vaddr b then - 1
         else if m_Vaddr a > m_Vaddr b then 1
         else 0)"

text \<open>\<open>slices.SortFunc\<close> with \<open>compareMapping\<close>; the order of equal elements is not specified there.\<close>

fun insert_mapping :: "Mapping \<Rightarrow> Mapping list \<Rightarrow> Mapping list" where
  "insert_mapping m [] = [m]"
| "insert_mapping m (m' # ms) = (if compareMapping m m' \<le> 0 then m # m' # ms else m' # insert_mapping m ms)"

definition sort_mappings :: "Mapping list \<Rightarrow> Mapping list" where
  "sort_mappings ms = foldr insert_mapping ms []"

section \<open>Exits\<close>

text \<open>The loops over mappings: the numbers of changed entries are added up.\<close>

fun remove_mappings :: "('c, 'k, 'e, 'd, 'i, 'm, 'x, 'h) pm_env \<Rightarrow> u32 \<Rightarrow> Mapping list \<Rightarrow> u64 \<Rightarrow> ('c, 'k, 'e, 'd, 'i, 'm, 'x, 'h) ProcessManager \<Rightarrow> (u64 \<times> ('c, 'k, 'e, 'd, 'i, 'm, 'x, 'h) ProcessManager) run" where
  "remove_mappings E pid [] n pm = Ret (n, pm)"
| "remove_mappings E pid (m # ms) n pm =
     run_bind (processRemovedMapping E pid m pm) (\<lambda>(deleted, pm). remove_mappings E pid ms (n + deleted) pm)"

fun add_mappings :: "'k bpf \<Rightarrow> u32 \<Rightarrow> Mapping list \<Rightarrow> u64 \<Rightarrow> ('c, 'k, 'e, 'd, 'i, 'm, 'x, 'h) ProcessManager \<Rightarrow> (u64 \<times> ('c, 'k, 'e, 'd, 'i, 'm, 'x, 'h) ProcessManager) run" where
  "add_mappings K pid [] n pm = Ret (n, pm)"
| "add_mappings K pid (m # ms) n pm =
     run_bind (processNewMapping K pid m pm) (\<lambda>(added, pm). add_mappings K pid ms (n + added) pm)"

definition shrink_size :: "u64 \<Rightarrow> ('c, 'k, 'e, 'd, 'i, 'm, 'x, 'h) ProcessManager \<Rightarrow> ('c, 'k, 'e, 'd, 'i, 'm, 'x, 'h) ProcessManager" where
  "shrink_size n pm = pm\<lparr>pidPageToMappingInfoSize := pidPageToMappingInfoSize pm - min (pidPageToMappingInfoSize pm) n\<rparr>"

definition remove_reported :: "'k bpf \<Rightarrow> u32 \<Rightarrow> ('c, 'k, 'e, 'd, 'i, 'm, 'x, 'h) ProcessManager \<Rightarrow> ('c, 'k, 'e, 'd, 'i, 'm, 'x, 'h) ProcessManager run" where
  "remove_reported K pid pm = run_bind (RemoveReportedPID K pid (pm_ebpf pm)) (\<lambda>eb. Ret (set_ebpf eb pm))"

text \<open>The deferred call of \<open>RemoveReportedPID\<close> is last on every path.\<close>

definition processPIDExit :: "('c, 'k, 'e, 'd, 'i, 'm, 'x, 'h) pm_env \<Rightarrow> u32 \<Rightarrow> ('c, 'k, 'e, 'd, 'i, 'm, 'x, 'h) ProcessManager \<Rightarrow> ('c, 'k, 'e, 'd, 'i, 'm, 'x, 'h) ProcessManager run" where
  "processPIDExit E pid pm =
     (case pidToProcessInfo pm pid of
        None \<Rightarrow> remove_reported (en_bpf E) pid pm
      | Some info \<Rightarrow>
          (if exitEvents pm pid \<noteq> None then remove_reported (en_bpf E) pid pm
           else
             let pm = pm\<lparr>exitEvents := (exitEvents pm)(pid \<mapsto> en_now E)\<rparr>
             in run_bind (DeletePidPageMappingInfo (en_bpf E) pid [dummyPrefix] (pm_ebpf pm)) (\<lambda>((deleted, err), eb).
                  run_bind (remove_mappings E pid (mappings info) deleted (set_ebpf eb pm)) (\<lambda>(deleted, pm).
                    run_bind (processRemovedInterpreters (en_interp E) pid [] (shrink_size deleted pm)) (\<lambda>(_, pm).
                      remove_reported (en_bpf E) pid (pm\<lparr>attachedProbes := (attachedProbes pm)(pid := [])\<rparr>))))))"

section \<open>Synchronising a process\<close>

definition isInterpreterMapping :: "RawMapping \<Rightarrow> bool" where
  "isInterpreterMapping m \<longleftrightarrow> IsAnonymous m \<and> (IsExecutable m \<or> IsPrctlNamed m) \<or> HasSuffix (rm_Path m) ''.dll''"

definition IsContextMapping :: "bool \<Rightarrow> string \<Rightarrow> bool" where
  "IsContextMapping isExecutable mappingPath \<longleftrightarrow>
     \<not> isExecutable \<and> mappingPath \<in> {''/memfd:OTEL_CTX'', ''/memfd:OTEL_CTX (deleted)'', ''[anon:OTEL_CTX]'', ''[anon_shmem:OTEL_CTX]''}"

record interpreterMappingCollector =
  collected :: "RawMapping list"
  pending :: "RawMapping list"

definition collector_add :: "RawMapping \<Rightarrow> bool \<Rightarrow> interpreterMappingCollector \<Rightarrow> interpreterMappingCollector" where
  "collector_add m collect c =
     (if \<not> isInterpreterMapping m then c
      else if collect then c\<lparr>collected := collected c @ [m]\<rparr>
      else c\<lparr>pending := pending c @ [m]\<rparr>)"

definition collector_enable :: "interpreterMappingCollector \<Rightarrow> interpreterMappingCollector" where
  "collector_enable c = (if pending c = [] then c else \<lparr>collected = collected c @ pending c, pending = []\<rparr>)"

text \<open>The variables the callback of \<open>SynchronizeProcess\<close> updates.\<close>

record sync =
  mpRemove :: "Mapping list"
  sy_mappings :: "Mapping list"
  mpAdd :: "Mapping list"
  interpretersValid :: "OnDiskFileIdentifier list"
  interpreterMappings :: interpreterMappingCollector
  collectAnonymousMappings :: bool
  contextMappingAddr :: u64

text \<open>The Go map from addresses to old mappings: of mappings with the same address the last one remains.\<close>

definition remove_table :: "Mapping list \<Rightarrow> Mapping list" where
  "remove_table ms = fold (\<lambda>m t. m # filter (\<lambda>m'. m_Vaddr m' \<noteq> m_Vaddr m) t) ms []"

definition old_mapping :: "RawMapping \<Rightarrow> sync \<Rightarrow> Mapping option" where
  "old_mapping m sy =
     List.find (\<lambda>old. m_Vaddr old = rm_Vaddr m \<and> m_Length old = rm_Length m \<and> m_Device old = rm_Device m \<and>
       m_Inode old = rm_Inode m) (mpRemove sy)"

definition publish :: "RawMapping \<Rightarrow> FrameMappingData \<Rightarrow> bool \<Rightarrow> sync \<Rightarrow> sync" where
  "publish m fm isNew sy =
     (let mapping = \<lparr>m_Vaddr = rm_Vaddr m, m_Length = rm_Length m, m_Device = rm_Device m, m_Inode = rm_Inode m, m_Frame = fm\<rparr>
      in sy\<lparr>interpretersValid := RawMapping_GetOnDiskFileIdentifier m # interpretersValid sy,
            sy_mappings := sy_mappings sy @ [mapping], mpAdd := mpAdd sy @ (if isNew then [mapping] else [])\<rparr>)"

text \<open>What the callback notes of every mapping: the mapping of the process context and those of interpreters.\<close>

definition note_mapping :: "RawMapping \<Rightarrow> sync \<Rightarrow> sync" where
  "note_mapping m sy =
     (let sy = (if IsContextMapping (IsExecutable m) (rm_Path m) then sy\<lparr>contextMappingAddr := rm_Vaddr m\<rparr> else sy)
      in sy\<lparr>interpreterMappings := collector_add m (collectAnonymousMappings sy) (interpreterMappings sy)\<rparr>)"

definition sync_mapping :: "('c, 'k, 'e, 'd, 'i, 'm, 'x, 'h) pm_env \<Rightarrow> ('e, 'm) proc \<Rightarrow> RawMapping \<Rightarrow> sync \<times> ('c, 'k, 'e, 'd, 'i, 'm, 'x, 'h) ProcessManager \<Rightarrow> (sync \<times> ('c, 'k, 'e, 'd, 'i, 'm, 'x, 'h) ProcessManager) run" where
  "sync_mapping E pr m st =
     (let (sy, pm) = st; sy = note_mapping m sy
      in if \<not> (IsExecutable m \<and> \<not> IsAnonymous m) then Ret (sy, pm)
         else case old_mapping m sy of
           Some old \<Rightarrow>
             Ret (publish m (m_Frame old) False (sy\<lparr>mpRemove := filter (\<lambda>m'. m_Vaddr m' \<noteq> rm_Vaddr m) (mpRemove sy)\<rparr>), pm)
         | None \<Rightarrow>
             run_bind (newFrameMapping E pr m (collectAnonymousMappings sy) pm) (\<lambda>((res, collect), pm).
               let sy = sy\<lparr>collectAnonymousMappings := collect,
                     interpreterMappings := (if \<not> collectAnonymousMappings sy \<and> collect
                       then collector_enable (interpreterMappings sy) else interpreterMappings sy)\<rparr>
               in case res of
                    Inl _ \<Rightarrow> Ret (sy, pm)
                  | Inr fm \<Rightarrow> Ret (publish m fm True sy, pm)))"

fun sync_mappings :: "('c, 'k, 'e, 'd, 'i, 'm, 'x, 'h) pm_env \<Rightarrow> ('e, 'm) proc \<Rightarrow> RawMapping list \<Rightarrow> sync \<times> ('c, 'k, 'e, 'd, 'i, 'm, 'x, 'h) ProcessManager \<Rightarrow> (sync \<times> ('c, 'k, 'e, 'd, 'i, 'm, 'x, 'h) ProcessManager) run" where
  "sync_mappings E pr [] st = Ret st"
| "sync_mappings E pr (m # ms) st = run_bind (sync_mapping E pr m st) (sync_mappings E pr ms)"

text \<open>The loop that asks the attached interpreters for anonymous mappings, up to the first that wants them.\<close>

fun any_uses :: "('k, 'd, 'i) interp_ops \<Rightarrow> (OnDiskFileIdentifier \<times> 'i interpInstance option) list \<Rightarrow> bool run" where
  "any_uses I [] = Ret False"
| "any_uses I ((key, i) # is) =
     (case i of None \<Rightarrow> Panic | Some i \<Rightarrow> if UsesAnonymousMappings I i then Ret True else any_uses I is)"

text \<open>The part of \<open>SynchronizeProcess\<close> behind the iteration over the mappings.\<close>

definition sync_publish ::
  "('c, 'k, 'e, 'd, 'i, 'm, 'x, 'h) pm_env \<Rightarrow> ('e, 'm) proc \<Rightarrow> ('m, 'x) processInfo \<Rightarrow> bool \<Rightarrow> sync \<times> ('c, 'k, 'e, 'd, 'i, 'm, 'x, 'h) ProcessManager \<Rightarrow> ('c, 'k, 'e, 'd, 'i, 'm, 'x, 'h) ProcessManager run" where
  "sync_publish E pr info previousAnonymousMappingsWanted st =
     (let (sy, pm) = st; pid = pr_PID pr;
          updateProcessMeta = (pr_Exe pr \<noteq> [] \<and> pr_Exe pr \<noteq> en_Executable E (pi_meta info));
          meta = (if updateProcessMeta then pr_Meta pr else pi_meta info);
          oldProcessContext = (if updateProcessMeta then en_noContext E else processContext info)
      in run_bind (remove_mappings E pid (mpRemove sy) 0 pm) (\<lambda>(numChanges, pm).
         run_bind (processRemovedInterpreters (en_interp E) pid (interpretersValid sy) (shrink_size numChanges pm)) (\<lambda>(wanted, pm).
         run_bind (if wanted \<noteq> previousAnonymousMappingsWanted
             then updatePIDAnonymousMappingInterest (en_bpf E) pid wanted pm else Ret pm) (\<lambda>pm.
         run_bind (add_mappings (en_bpf E) pid (mpAdd sy) 0 pm) (\<lambda>(numChanges, pm).
           let pm = pm\<lparr>pidPageToMappingInfoSize := pidPageToMappingInfoSize pm + numChanges\<rparr>
           in run_bind (getOrCreateProcessInfo E pr pm) (\<lambda>(ok, pm).
                let pm = (case pidToProcessInfo pm pid of
                      None \<Rightarrow> pm
                    | Some info \<Rightarrow> pm\<lparr>pidToProcessInfo := (pidToProcessInfo pm)(pid \<mapsto>
                        info\<lparr>mappings := sort_mappings (sy_mappings sy), pi_meta := if updateProcessMeta then meta else pi_meta info,
                          processContext := en_Resolve E (contextMappingAddr sy) oldProcessContext meta\<rparr>)\<rparr>)
                in run_bind (call_all (SynchronizeMappings (en_interp E) (collected (interpreterMappings sy))) pid pm) (\<lambda>pm.
                     if mappings info = [] then remove_reported (en_bpf E) pid pm else Ret pm)))))))"

definition SynchronizeProcess :: "('c, 'k, 'e, 'd, 'i, 'm, 'x, 'h) pm_env \<Rightarrow> ('e, 'm) proc \<Rightarrow> ('c, 'k, 'e, 'd, 'i, 'm, 'x, 'h) ProcessManager \<Rightarrow> ('c, 'k, 'e, 'd, 'i, 'm, 'x, 'h) ProcessManager run" where
  "SynchronizeProcess E pr pm =
     (let pid = pr_PID pr
      in if exitEvents pm pid \<noteq> None then remove_reported (en_bpf E) pid pm
         else run_bind (getOrCreateProcessInfo E pr pm) (\<lambda>(ok, pm).
           case pidToProcessInfo pm pid of
             None \<Rightarrow> Ret pm
           | Some info \<Rightarrow>
               run_bind (any_uses (en_interp E) (interpreters pm pid)) (\<lambda>collect.
                 let sy = \<lparr>mpRemove = remove_table (mappings info), sy_mappings = [], mpAdd = [], interpretersValid = [],
                       interpreterMappings = \<lparr>collected = [], pending = []\<rparr>, collectAnonymousMappings = collect,
                       contextMappingAddr = 0\<rparr>;
                     (ms, numErrors, err) = pr_maps pr
                 in run_bind (sync_mappings E pr ms (sy, pm\<lparr>numProcAttempts := numProcAttempts pm + 1\<rparr>)) (\<lambda>(sy, pm).
                      let pm = pm\<lparr>numProcParseErrors := numProcParseErrors pm + numErrors\<rparr>
                      in case err of
                           None \<Rightarrow> sync_publish E pr info collect (sy, pm)
                         | Some ErrCallbackStopped \<Rightarrow> sync_publish E pr info collect (sy, pm)
                         | Some MapsPermission \<Rightarrow> Ret (pm\<lparr>errProcPerm := errProcPerm pm + 1\<rparr>)
                         | Some ErrNoMappings \<Rightarrow> remove_reported (en_bpf E) pid pm
                         | Some MapsNotExist \<Rightarrow> processPIDExit E pid (pm\<lparr>errProcNotExist := errProcNotExist pm + 1\<rparr>)
                         | Some MapsESRCH \<Rightarrow> processPIDExit E pid (pm\<lparr>errProcESRCH := errProcESRCH pm + 1\<rparr>)
                         | Some ErrTooLong \<Rightarrow> processPIDExit E pid pm
                         | Some MapsOther \<Rightarrow> processPIDExit E pid pm))))"

fun exit_all :: "('c, 'k, 'e, 'd, 'i, 'm, 'x, 'h) pm_env \<Rightarrow> u32 list \<Rightarrow> ('c, 'k, 'e, 'd, 'i, 'm, 'x, 'h) ProcessManager \<Rightarrow> ('c, 'k, 'e, 'd, 'i, 'm, 'x, 'h) ProcessManager run" where
  "exit_all E [] pm = Ret pm"
| "exit_all E (pid # pids) pm = run_bind (processPIDExit E pid pm) (exit_all E pids)"

text \<open>\<open>pids\<close> are the known processes in the order of Go's map, \<open>live\<close> is \<open>isPIDLive\<close>.\<close>

definition CleanupPIDs :: "('c, 'k, 'e, 'd, 'i, 'm, 'x, 'h) pm_env \<Rightarrow> (u32 \<Rightarrow> bool) \<Rightarrow> u32 list \<Rightarrow> ('c, 'k, 'e, 'd, 'i, 'm, 'x, 'h) ProcessManager \<Rightarrow> ('c, 'k, 'e, 'd, 'i, 'm, 'x, 'h) ProcessManager run" where
  "CleanupPIDs E live pids pm = exit_all E (filter (\<lambda>pid. \<not> live pid) pids) pm"

section \<open>Traces\<close>

definition metaForPID :: "u32 \<Rightarrow> ('c, 'k, 'e, 'd, 'i, 'm, 'x, 'h) ProcessManager \<Rightarrow> ('m \<times> 'x) option" where
  "metaForPID pid pm = map_option (\<lambda>info. (pi_meta info, processContext info)) (pidToProcessInfo pm pid)"

definition findMappingForTrace :: "u32 \<Rightarrow> u64 \<Rightarrow> u64 \<Rightarrow> ('c, 'k, 'e, 'd, 'i, 'm, 'x, 'h) ProcessManager \<Rightarrow> FrameMappingData option" where
  "findMappingForTrace pid fid addr pm =
     (case pidToProcessInfo pm pid of
        None \<Rightarrow> None
      | Some info \<Rightarrow>
          (let maps = mappings info;
               i = Search_loop 0 (length maps) (\<lambda>i. let entry = maps ! i; entryFid = mapping_fileID entry
                 in if entryFid \<noteq> fid then entryFid \<ge> fid else fm_Start (m_Frame entry) \<ge> addr)
           in if i = 0 then None
              else let entry = maps ! (i - 1); fm = m_Frame entry
                   in if mapping_fileID entry = fid \<and> fm_Start fm \<le> addr \<and> addr < fm_End fm then Some fm else None))"

text \<open>\<open>pids\<close> are the processes with exit events, in the order of Go's map.\<close>

fun ProcessedUntil :: "('c, 'k, 'e, 'd, 'i, 'm, 'x, 'h) pm_env \<Rightarrow> int \<Rightarrow> u32 list \<Rightarrow> ('c, 'k, 'e, 'd, 'i, 'm, 'x, 'h) ProcessManager \<Rightarrow> ('c, 'k, 'e, 'd, 'i, 'm, 'x, 'h) ProcessManager run" where
  "ProcessedUntil E traceCaptureKTime [] pm = Ret pm"
| "ProcessedUntil E traceCaptureKTime (pid # pids) pm =
     (case exitEvents pm pid of
        None \<Rightarrow> ProcessedUntil E traceCaptureKTime pids pm
      | Some pidExitKTime \<Rightarrow>
          if pidExitKTime > traceCaptureKTime then ProcessedUntil E traceCaptureKTime pids pm
          else run_bind (remove_interpreters (en_interp E) pid [] (interpreters pm pid) False (pm_ebpf pm)) (\<lambda>(_, eb).
            ProcessedUntil E traceCaptureKTime pids ((set_ebpf eb pm)\<lparr>pidToProcessInfo := (pidToProcessInfo pm)(pid := None),
              interpreters := (interpreters pm)(pid := []), exitEvents := (exitEvents pm)(pid := None)\<rparr>)))"

end
