(* ===== verification/ProcProps.thy ===== *)
theory ProcProps
  imports ProcInfo ExecInfoProps
begin

text \<open>
  Properties of the process manager: the search of the mapping of a frame, the references that published
  mappings hold on executables, and the life of a process from its first sample to its exit.
\<close>

section \<open>The mapping of a frame\<close>

text \<open>
  The mappings of a process as the search expects them: ordered by file and by start address in the
  file, the mappings of a file apart from each other.
\<close>

definition search_before :: "Mapping \<Rightarrow> Mapping \<Rightarrow> bool" where
  "search_before a b \<longleftrightarrow> mapping_fileID a < mapping_fileID b \<or>
     mapping_fileID a = mapping_fileID b \<and> fm_End (m_Frame a) \<le> fm_Start (m_Frame b)"

definition search_order :: "Mapping list \<Rightarrow> bool" where
  "search_order ms \<longleftrightarrow> sorted_wrt search_before ms \<and> (\<forall>m \<in> set ms. fm_Start (m_Frame m) < fm_End (m_Frame m))"

text \<open>The predicate of the search: the entry is not below the address.\<close>

definition not_below :: "u64 \<Rightarrow> u64 \<Rightarrow> Mapping \<Rightarrow> bool" where
  "not_below fid addr m \<longleftrightarrow> (if mapping_fileID m \<noteq> fid then mapping_fileID m \<ge> fid else fm_Start (m_Frame m) \<ge> addr)"

lemma pair_order_mono:
  fixes af bf fid as ae bs addr :: "'a::linorder"
  assumes "af < bf \<or> af = bf \<and> ae \<le> bs" "as < ae" "if af \<noteq> fid then af \<ge> fid else as \<ge> addr"
  shows "if bf \<noteq> fid then bf \<ge> fid else bs \<ge> addr"
  using assms by (cases "af = fid"; cases "bf = fid") auto

lemma not_below_mono:
  "search_before a b \<Longrightarrow> fm_Start (m_Frame a) < fm_End (m_Frame a) \<Longrightarrow> not_below fid addr a \<Longrightarrow> not_below fid addr b"
  unfolding search_before_def not_below_def by (rule pair_order_mono)

lemma findMapping_search:
  assumes "pidToProcessInfo pm pid = Some info"
  shows "findMappingForTrace pid fid addr pm =
    (let maps = mappings info; i = Search_loop 0 (length maps) (\<lambda>i. not_below fid addr (maps ! i))
     in if i = 0 then None
        else let fm = m_Frame (maps ! (i - 1))
             in if mapping_fileID (maps ! (i - 1)) = fid \<and> fm_Start fm \<le> addr \<and> addr < fm_End fm then Some fm else None)"
  by (simp add: findMappingForTrace_def assms Let_def not_below_def cong: if_cong)

text \<open>The entry before the result of the search is the last one below the address.\<close>

lemma search_last:
  assumes o: "search_order maps" and j: "j < length maps" "\<not> not_below fid addr (maps ! j)"
    and next_entry: "\<And>i. j < i \<Longrightarrow> i < length maps \<Longrightarrow> not_below fid addr (maps ! i)"
  shows "Search_loop 0 (length maps) (\<lambda>i. not_below fid addr (maps ! i)) = Suc j"
proof -
  let ?f = "\<lambda>i. not_below fid addr (maps ! i)"
  have mono: "?f i'" if "i \<le> i'" "i' < length maps" "?f i" for i i'
  proof (cases "i = i'")
    case False
    then have "search_before (maps ! i) (maps ! i')" "fm_Start (m_Frame (maps ! i)) < fm_End (m_Frame (maps ! i))"
      using o that by (auto simp: search_order_def sorted_wrt_iff_nth_less)
    then show ?thesis using that(3) not_below_mono by blast
  qed (use that in simp)
  have s: "?f h \<longleftrightarrow> Search_loop 0 (length maps) ?f \<le> h" if "h < length maps" for h
    using mono that by (rule Search_loop_monotone)
  have "\<not> Search_loop 0 (length maps) ?f \<le> j" using s j by blast
  moreover have "Search_loop 0 (length maps) ?f \<le> Suc j"
  proof (cases "Suc j < length maps")
    case True
    then show ?thesis using s [of "Suc j"] next_entry [of "Suc j"] by simp
  next
    case False
    then show ?thesis using Search_loop_bounds(2) [of 0 "length maps" ?f] j(1) by simp
  qed
  ultimately show ?thesis by simp
qed


text \<open>A process with two mappings of a file.\<close>

definition example_mapping :: "u64 \<Rightarrow> u64 \<Rightarrow> u64 \<Rightarrow> Mapping" where
  "example_mapping vaddr start len = \<lparr>m_Vaddr = vaddr, m_Length = len, m_Device = 1, m_Inode = 2,
     m_Frame = \<lparr>fm_File = \<lparr>mf_FileID = NewFileID 5 6, mf_FileName = ''a'', mf_GnuBuildID = [], mf_GoBuildID = []\<rparr>,
       fm_Start = start, fm_End = start + len, fm_FileOffset = start\<rparr>\<rparr>"

lemma example_mapping_fields [simp]:
  "m_Vaddr (example_mapping v s l) = v" "fm_Start (m_Frame (example_mapping v s l)) = s"
  "fm_End (m_Frame (example_mapping v s l)) = s + l" "mapping_fileID (example_mapping v s l) = 5"
  by (simp_all add: example_mapping_def mapping_fileID_def FileIDFromLibpf_def NewFileID_def New128_def)

definition example_pm ::
  "(u32 \<rightharpoonup> (unit, unit) processInfo) \<Rightarrow> (u64 list, ram, unit, unit, unit, unit, unit, unit) ProcessManager" where
  "example_pm infos = (ProcessManager_New (NewExecutableInfoManager [] (example_handler ram_empty) []) ())
     \<lparr>pidToProcessInfo := infos\<rparr>"

definition example_info :: "(unit, unit) processInfo" where
  "example_info = \<lparr>pi_meta = (), processContext = (),
     mappings = [example_mapping 0x401000 0x1000 0x1000, example_mapping 0x403000 0x3000 0x1000], libcInfo = None\<rparr>"


end
