(* ===== verification/ProcRefs.thy ===== *)
theory ProcRefs
  imports ProcProps
begin

text \<open>
  Runs of the process manager: any sequence of synchronisations, process exits, clean-ups and
  \<open>ProcessedUntil\<close> calls.  What an exited process was is known until its traces are processed, and every
  mapping of a live process holds a reference on its executable.
\<close>

section \<open>What the operations leave alone\<close>

definition maps_of :: "('c, 'k, 'e, 'd, 'i, 'm, 'x, 'h) ProcessManager \<Rightarrow> u32 \<Rightarrow> Mapping list" where
  "maps_of pm pid = (case pidToProcessInfo pm pid of None \<Rightarrow> [] | Some info \<Rightarrow> mappings info)"

abbreviation tables_of :: "('c, 'k, 'e, 'd, 'i, 'm, 'x, 'h) ProcessManager \<Rightarrow> ('k, 'e, 'd, libc_info) executableInfoManagerState" where
  "tables_of pm \<equiv> state (pm_eim pm)"

text \<open>Only what is known of one process changes, and not its mappings.\<close>

definition within :: "u32 \<Rightarrow> ('c, 'k, 'e, 'd, 'i, 'm, 'x, 'h) ProcessManager \<Rightarrow> ('c, 'k, 'e, 'd, 'i, 'm, 'x, 'h) ProcessManager \<Rightarrow> bool" where
  "within pid a b \<longleftrightarrow> exitEvents b = exitEvents a \<and> (\<forall>q. q \<noteq> pid \<longrightarrow> pidToProcessInfo b q = pidToProcessInfo a q) \<and>
     maps_of b pid = maps_of a pid"

text \<open>Neither do the tables of executables.\<close>

definition quiet :: "u32 \<Rightarrow> ('c, 'k, 'e, 'd, 'i, 'm, 'x, 'h) ProcessManager \<Rightarrow> ('c, 'k, 'e, 'd, 'i, 'm, 'x, 'h) ProcessManager \<Rightarrow> bool" where
  "quiet pid a b \<longleftrightarrow> within pid a b \<and> same_tables (tables_of a) (tables_of b)"

lemma within_refl [simp]: "within pid a a"
  by (simp add: within_def)

lemma within_trans [trans]: "within pid a b \<Longrightarrow> within pid b c \<Longrightarrow> within pid a c"
  by (simp add: within_def)

lemma quiet_refl [simp]: "quiet pid a a"
  by (simp add: quiet_def)

lemma quiet_trans [trans]: "quiet pid a b \<Longrightarrow> quiet pid b c \<Longrightarrow> quiet pid a c"
  unfolding quiet_def by (blast intro: within_trans same_tables_trans)

lemma quiet_within: "quiet pid a b \<Longrightarrow> within pid a b"
  by (simp add: quiet_def)

lemma quiet_set_ebpf [simp]: "quiet pid a (set_ebpf eb a)"
  by (simp add: quiet_def within_def set_ebpf_def same_tables_def maps_of_def)

text \<open>Updates of other fields.\<close>

lemma quiet_fields [simp]:
  "quiet pid a (b\<lparr>interpreters := is\<rparr>) = quiet pid a b" "quiet pid a (b\<lparr>elfInfoCache := c\<rparr>) = quiet pid a b"
  "quiet pid a (b\<lparr>pidPageToMappingInfoSize := n\<rparr>) = quiet pid a b" "quiet pid a (b\<lparr>attachedProbes := ps\<rparr>) = quiet pid a b"
  "quiet pid a (b\<lparr>reportedExecutables := rs\<rparr>) = quiet pid a b" "quiet pid a (b\<lparr>elfInfoCacheHit := n\<rparr>) = quiet pid a b"
  "quiet pid a (b\<lparr>elfInfoCacheMiss := n\<rparr>) = quiet pid a b" "quiet pid a (b\<lparr>numProcAttempts := i\<rparr>) = quiet pid a b"
  "quiet pid a (b\<lparr>numProcParseErrors := i\<rparr>) = quiet pid a b" "quiet pid a (b\<lparr>errProcNotExist := i\<rparr>) = quiet pid a b"
  "quiet pid a (b\<lparr>errProcESRCH := i\<rparr>) = quiet pid a b" "quiet pid a (b\<lparr>errProcPerm := i\<rparr>) = quiet pid a b"
  by (simp_all add: quiet_def within_def maps_of_def)

lemma quiet_fields_left [simp]:
  "quiet pid (a\<lparr>pidPageToMappingInfoSize := n\<rparr>) b = quiet pid a b" "quiet pid (a\<lparr>attachedProbes := ps\<rparr>) b = quiet pid a b"
  "quiet pid (a\<lparr>numProcAttempts := i\<rparr>) b = quiet pid a b" "quiet pid (a\<lparr>numProcParseErrors := i\<rparr>) b = quiet pid a b"
  "quiet pid (a\<lparr>errProcNotExist := i\<rparr>) b = quiet pid a b" "quiet pid (a\<lparr>errProcESRCH := i\<rparr>) b = quiet pid a b"
  by (simp_all add: quiet_def within_def maps_of_def)

lemma quiet_set_ebpf_trans: "quiet pid a b \<Longrightarrow> quiet pid a (set_ebpf eb b)"
  by (rule quiet_trans [OF _ quiet_set_ebpf])

lemma quiet_info:
  "quiet pid (a\<lparr>pidToProcessInfo := (pidToProcessInfo a)(pid \<mapsto> info')\<rparr>) b \<Longrightarrow> pidToProcessInfo a pid = Some info \<Longrightarrow>
   mappings info' = mappings info \<Longrightarrow> quiet pid a b"
  by (simp add: quiet_def within_def maps_of_def)

lemma call_all_quiet: "call_all f pid pm = Ret pm' \<Longrightarrow> quiet pid pm pm'"
  by (auto simp: call_all_def run_elims simp del: run_bind_eq_Ret intro: quiet_set_ebpf_trans)

lemma assignLibcInfo_quiet: "assignLibcInfo I pid libc pm = Ret pm' \<Longrightarrow> quiet pid pm pm'"
  by (auto simp: assignLibcInfo_def Let_def run_elims simp del: run_bind_eq_Ret
      dest!: call_all_quiet elim!: quiet_info)

lemma assignInterpreter_quiet: "quiet pid a b \<Longrightarrow> quiet pid a (assignInterpreter pid' oid i b)"
  by (simp add: assignInterpreter_def)

lemma handleNewInterpreter_quiet: "handleNewInterpreter I pid bias oid d w pm = Ret (r, pm') \<Longrightarrow> quiet pid pm pm'"
  by (auto simp: handleNewInterpreter_def Let_def case_prod_beta run_elims simp del: run_bind_eq_Ret
      intro!: quiet_set_ebpf_trans assignInterpreter_quiet)

lemma attachProbes_quiet [simp]: "quiet pid a (attachProbesForMapping ps i pid' m f b) = quiet pid a b"
  by (induction ps arbitrary: i b) (auto split: if_split_asm)

lemma getELFInfo_quiet: "getELFInfo E pr m pm = (info, pm') \<Longrightarrow> quiet pid pm pm'"
  by (auto simp: getELFInfo_def Let_def split: prod.split_asm option.split_asm sum.split_asm if_split_asm)

lemma processNewMapping_quiet: "processNewMapping K pid m pm = Ret (n, pm') \<Longrightarrow> quiet q pm pm'"
  by (auto simp: processNewMapping_def run_elims simp del: run_bind_eq_Ret)

lemma add_mappings_quiet: "add_mappings K pid ms n pm = Ret (n', pm') \<Longrightarrow> quiet q pm pm'"
proof (induction ms arbitrary: n pm)
  case (Cons m ms)
  then show ?case
    by (auto simp: run_elims simp del: run_bind_eq_Ret dest!: processNewMapping_quiet [where q = q] intro: quiet_trans)
qed simp

lemma processRemovedInterpreters_quiet: "processRemovedInterpreters I pid valid pm = Ret (w, pm') \<Longrightarrow> quiet q pm pm'"
  by (auto simp: processRemovedInterpreters_def run_elims simp del: run_bind_eq_Ret intro: quiet_set_ebpf_trans)

lemma updatePIDAnonymousMappingInterest_quiet: "updatePIDAnonymousMappingInterest K pid w pm = Ret pm' \<Longrightarrow> quiet q pm pm'"
  by (auto simp: updatePIDAnonymousMappingInterest_def run_elims simp del: run_bind_eq_Ret)

lemma remove_reported_quiet: "remove_reported K pid pm = Ret pm' \<Longrightarrow> quiet q pm pm'"
  by (auto simp: remove_reported_def run_elims simp del: run_bind_eq_Ret)

lemma getOrCreateProcessInfo_quiet: "getOrCreateProcessInfo E pr pm = Ret (r, pm') \<Longrightarrow> quiet (pr_PID pr) pm pm'"
  by (auto simp: getOrCreateProcessInfo_def Let_def run_elims simp del: run_bind_eq_Ret)
    (auto simp: quiet_def within_def maps_of_def set_ebpf_def same_tables_def)

section \<open>References of mappings\<close>

abbreviation refs_of :: "('c, 'k, 'e, 'd, 'i, 'm, 'x, 'h) ProcessManager \<Rightarrow> u64 \<Rightarrow> nat" where
  "refs_of pm \<equiv> rc_of (tables_of pm)"

text \<open>How many mappings of a list belong to a file.\<close>

definition maps_file :: "u64 \<Rightarrow> Mapping list \<Rightarrow> nat" where
  "maps_file f ms = count_list (map mapping_fileID ms) f"

lemma maps_file_simps [simp]:
  "maps_file f [] = 0" "maps_file f (m # ms) = (if mapping_fileID m = f then 1 else 0) + maps_file f ms"
  "maps_file f (ms @ ms') = maps_file f ms + maps_file f ms'"
  by (simp_all add: maps_file_def count_list_append)

lemma maps_file_filter: "maps_file f (filter P ms) \<le> maps_file f ms"
  by (induction ms) auto

lemma maps_file_insert: "maps_file f (insert_mapping m ms) = maps_file f (m # ms)"
  by (induction ms) auto

lemma maps_file_sort [simp]: "maps_file f (sort_mappings ms) = maps_file f ms"
  unfolding sort_mappings_def by (induction ms) (simp_all add: maps_file_insert)

lemma maps_file_remove_table: "maps_file f (remove_table ms) \<le> maps_file f ms"
proof -
  have "maps_file f (fold (\<lambda>m t. m # filter (\<lambda>m'. m_Vaddr m' \<noteq> m_Vaddr m) t) ms acc) \<le> maps_file f acc + maps_file f ms" for acc
  proof (induction ms arbitrary: acc)
    case (Cons m ms)
    have "maps_file f (filter (\<lambda>m'. m_Vaddr m' \<noteq> m_Vaddr m) acc) \<le> maps_file f acc" by (rule maps_file_filter)
    then show ?case using Cons [of "m # filter (\<lambda>m'. m_Vaddr m' \<noteq> m_Vaddr m) acc"] by simp
  qed simp
  from this [of "[]"] show ?thesis by (simp add: remove_table_def)
qed

lemma quiet_refs:
  assumes "quiet pid a b"
  shows "refs_of b = refs_of a" "unused_inv (tables_of b) = unused_inv (tables_of a)"
  using assms same_tables_inv [of "tables_of a" "tables_of b"] by (simp_all add: quiet_def)

text \<open>Removing mappings gives back at most one reference per mapping.\<close>

lemma processRemovedMapping_cases:
  assumes "processRemovedMapping E pid m pm = Ret (n, pm')"
  obtains "pm' = pm"
  | eb r mgr where "DecRef (en_now E) (mapping_fileID m) (pm_eim (set_ebpf eb pm)) = (r, mgr)" "pm' = (set_ebpf eb pm)\<lparr>pm_eim := mgr\<rparr>"
  using assms by (auto simp: processRemovedMapping_def Let_def run_elims simp del: run_bind_eq_Ret) (metis prod.collapse)

lemma processRemovedMapping_within:
  assumes "processRemovedMapping E pid m pm = Ret (n, pm')"
  shows "within q pm pm'"
  using assms by (cases rule: processRemovedMapping_cases) (simp_all add: within_def maps_of_def set_ebpf_def)

lemma remove_mappings_within: "remove_mappings E pid ms n pm = Ret (n', pm') \<Longrightarrow> within q pm pm'"
proof (induction ms arbitrary: n pm)
  case (Cons m ms)
  then obtain d pm1 where "processRemovedMapping E pid m pm = Ret (d, pm1)"
    and "remove_mappings E pid ms (n + d) pm1 = Ret (n', pm')" by auto
  then show ?case using Cons.IH within_trans [OF processRemovedMapping_within] by blast
qed simp

lemma processRemovedMapping_refs:
  assumes "processRemovedMapping E pid m pm = Ret (n, pm')" "unused_inv (tables_of pm)"
  shows "unused_inv (tables_of pm') \<and> refs_of pm' f \<le> refs_of pm f \<and> refs_of pm f \<le> refs_of pm' f + maps_file f [m]"
  using assms(1)
proof (cases rule: processRemovedMapping_cases)
  case (2 eb r mgr)
  have q: "quiet pid pm (set_ebpf eb pm)" by simp
  have "unused_inv (tables_of (set_ebpf eb pm))" using assms(2) quiet_refs(2) [OF q] by simp
  note DecRef_inv [OF 2(1) this]
  then show ?thesis using 2(2) quiet_refs(1) [OF q] by (auto split: if_split_asm)
qed (use assms(2) in simp)

lemma remove_mappings_refs:
  "remove_mappings E pid ms n pm = Ret (n', pm') \<Longrightarrow> unused_inv (tables_of pm) \<Longrightarrow>
   unused_inv (tables_of pm') \<and> refs_of pm' f \<le> refs_of pm f \<and> refs_of pm f \<le> refs_of pm' f + maps_file f ms"
proof (induction ms arbitrary: n pm)
  case (Cons m ms)
  then obtain d pm1 where s: "processRemovedMapping E pid m pm = Ret (d, pm1)"
    and r: "remove_mappings E pid ms (n + d) pm1 = Ret (n', pm')" by auto
  show ?case using processRemovedMapping_refs [OF s Cons.prems(2), of f] Cons.IH [OF r] by auto
qed simp

text \<open>Every mapping that comes into being holds one reference.\<close>

lemma AddOrIncRef_inv:
  assumes "AddOrIncRef K L E f elf m = Ret (r, m')" "unused_inv (state m)" "rc_of (state m) f + 1 < 2 ^ 64"
  shows "unused_inv (state m') \<and>
    rc_of (state m') = (case r of Inr _ \<Rightarrow> (rc_of (state m))(f := rc_of (state m) f + 1) | Inl _ \<Rightarrow> rc_of (state m))"
proof -
  obtain r1 m1 where f: "AddOrIncRef_fast L f m = (r1, m1)" by (metis prod.exhaust)
  note fast = AddOrIncRef_fast_inv [OF f assms(2,3)]
  show ?thesis
  proof (cases r1)
    case (Some r')
    then show ?thesis using assms(1) f fast by (auto simp: AddOrIncRef_def split: sum.split_asm)
  next
    case None
    then have "unused_inv (state m1)" "rc_of (state m1) = rc_of (state m)" using fast by simp_all
    then show ?thesis
      using assms(1,3) f None AddOrIncRef_insert_inv [of K L f elf _ _ m1 r m']
      by (auto simp: AddOrIncRef_def split: sum.split sum.split_asm prod.split_asm)
  qed
qed

lemma newFrameMapping_parts:
  assumes "newFrameMapping E pr m w pm = Ret ((res, w'), pm')"
  obtains err where "res = Inl err" "quiet (pr_PID pr) pm pm'"
  | a f r mgr where "quiet (pr_PID pr) pm a"
      "AddOrIncRef (en_bpf E) (en_deferred E) (en_eim E) f (pr_elfRef pr m) (pm_eim a) = Ret (r, mgr)"
      "quiet (pr_PID pr) (a\<lparr>pm_eim := mgr\<rparr>) pm'"
      "case r of Inl _ \<Rightarrow> (\<exists>err. res = Inl err) | Inr _ \<Rightarrow> (\<exists>fm. res = Inr fm \<and> FileIDFromLibpf (mf_FileID (fm_File fm)) = f)"
proof -
  let ?pid = "pr_PID pr"
  obtain info pm1 where e: "getELFInfo E pr m pm = (info, pm1)" by (metis prod.exhaust)
  note q1 = getELFInfo_quiet [OF e, of ?pid]
  show thesis
  proof (cases "elf_err info = None \<and> FileOffsetToVirtualAddress (en_pageMask E) (addressMapper info) (rm_FileOffset m) \<noteq> None")
    case False
    then have "(\<exists>err. res = Inl err) \<and> pm' = pm1" using assms e by (auto simp: newFrameMapping_def split: option.split_asm)
    then show thesis using q1 that(1) by auto
  next
    case True
    let ?fid = "FileIDFromLibpf (mf_FileID (mappingFile info))"
    obtain r mgr where a: "AddOrIncRef (en_bpf E) (en_deferred E) (en_eim E) ?fid (pr_elfRef pr m) (pm_eim pm1) = Ret (r, mgr)"
      using assms e True by (auto simp: newFrameMapping_def)
    show thesis
    proof (cases r)
      case (Inl err)
      then have "(\<exists>err. res = Inl err) \<and> pm' = pm1\<lparr>pm_eim := mgr\<rparr>" using assms e True a by (auto simp: newFrameMapping_def)
      then show thesis using that(2) [OF q1 a] Inl by simp
    next
      case (Inr ei)
      obtain y where y: "FileOffsetToVirtualAddress (en_pageMask E) (addressMapper info) (rm_FileOffset m) = Some y"
        using True by auto
      obtain pm2 rr pm3 where l: "assignLibcInfo (en_interp E) ?pid (LibcInfo ei) (pm1\<lparr>pm_eim := mgr\<rparr>) = Ret pm2"
        and h: "(case ei_Data ei of None \<Rightarrow> Ret (Inr w, pm2) | Some d \<Rightarrow> handleNewInterpreter (en_interp E) ?pid (rm_Vaddr m - y)
          (RawMapping_GetOnDiskFileIdentifier m) d w pm2) = Ret (rr, pm3)"
        and pm': "pm' = attachProbesForMapping (en_probes E) 0 ?pid m (mf_FileID (mappingFile info)) pm3"
        and res: "res = Inr \<lparr>fm_File = mappingFile info, fm_Start = y, fm_End = y + rm_Length m, fm_FileOffset = rm_FileOffset m\<rparr>"
        using assms e True a y Inr by (auto simp: newFrameMapping_def)
      have q: "quiet ?pid pm2 pm3" using h handleNewInterpreter_quiet by (cases "ei_Data ei") auto
      have "quiet ?pid (pm1\<lparr>pm_eim := mgr\<rparr>) pm'"
        unfolding pm' attachProbes_quiet by (rule quiet_trans [OF assignLibcInfo_quiet [OF l] q])
      then show thesis using that(2) [OF q1 a] Inr res by simp
    qed
  qed
qed

lemma newFrameMapping_within:
  assumes "newFrameMapping E pr m w pm = Ret ((res, w'), pm')"
  shows "within (pr_PID pr) pm pm'"
  using assms
proof (cases rule: newFrameMapping_parts)
  case (2 a f r mgr)
  have "within (pr_PID pr) pm (a\<lparr>pm_eim := mgr\<rparr>)" using 2(1) by (simp add: quiet_def within_def maps_of_def)
  then show ?thesis using quiet_within [OF 2(3)] by (rule within_trans)
qed (rule quiet_within)

lemma newFrameMapping_refs:
  assumes "newFrameMapping E pr m w pm = Ret ((res, w'), pm')" "unused_inv (tables_of pm)" "\<And>f. refs_of pm f + 1 < 2 ^ 64"
  shows "unused_inv (tables_of pm') \<and>
    refs_of pm' f = refs_of pm f + (case res of Inl _ \<Rightarrow> 0 | Inr fm \<Rightarrow> if FileIDFromLibpf (mf_FileID (fm_File fm)) = f then 1 else 0)"
  using assms(1)
proof (cases rule: newFrameMapping_parts)
  case (1 err)
  then show ?thesis using quiet_refs [OF 1(2)] assms(2) by simp
next
  case (2 a f' r mgr)
  have inv: "unused_inv (tables_of a)" "refs_of a = refs_of pm" using quiet_refs [OF 2(1)] assms(2) by simp_all
  then have "refs_of a f' + 1 < 2 ^ 64" using assms(3) by simp
  note add = AddOrIncRef_inv [OF 2(2) inv(1) this]
  then show ?thesis using inv 2(4) quiet_refs [OF 2(3)] by (auto split: sum.split_asm)
qed

text \<open>
  One mapping of a synchronisation: references grow by as much as the mappings that are published or
  still to be removed.
\<close>

definition sync_maps :: "u64 \<Rightarrow> sync \<Rightarrow> nat" where
  "sync_maps f sy = maps_file f (sy_mappings sy) + maps_file f (mpRemove sy)"

lemma old_mapping_maps:
  assumes "old_mapping m sy = Some old"
  shows "maps_file f (filter (\<lambda>m'. m_Vaddr m' \<noteq> rm_Vaddr m) (mpRemove sy)) + maps_file f [old] \<le> maps_file f (mpRemove sy)"
proof -
  have "old \<in> set (mpRemove sy)" "m_Vaddr old = rm_Vaddr m"
    using assms by (auto simp: old_mapping_def find_Some_iff)
  then show ?thesis
  proof (induction "mpRemove sy" arbitrary: sy)
    case (Cons m' ms)
    have "maps_file f (filter (\<lambda>m'. m_Vaddr m' \<noteq> rm_Vaddr m) ms) \<le> maps_file f ms" by (rule maps_file_filter)
    moreover have "old \<in> set ms \<Longrightarrow> maps_file f (filter (\<lambda>m'. m_Vaddr m' \<noteq> rm_Vaddr m) ms) + maps_file f [old] \<le> maps_file f ms"
      using Cons.hyps(1) [of "undefined\<lparr>mpRemove := ms\<rparr>"] Cons.prems by simp
    ultimately show ?case using Cons.prems unfolding Cons.hyps(2) [symmetric] by auto
  qed simp
qed

lemma publish_maps:
  "maps_file f (sy_mappings (publish m fm isNew sy)) =
     maps_file f (sy_mappings sy) + (if FileIDFromLibpf (mf_FileID (fm_File fm)) = f then 1 else 0)"
  "mpRemove (publish m fm isNew sy) = mpRemove sy"
  by (simp_all add: publish_def mapping_fileID_def Let_def)

lemma note_mapping_maps [simp]:
  "mpRemove (note_mapping m sy) = mpRemove sy" "sy_mappings (note_mapping m sy) = sy_mappings sy"
  by (simp_all add: note_mapping_def Let_def)

lemma sync_mapping_within:
  assumes "sync_mapping E pr m (sy, pm) = Ret (sy', pm')"
  shows "within (pr_PID pr) pm pm'"
  using assms unfolding sync_mapping_def Let_def
  by (auto simp: run_elims simp del: run_bind_eq_Ret split del: if_split dest!: newFrameMapping_within)

lemma sync_mappings_within: "sync_mappings E pr ms (sy, pm) = Ret (sy', pm') \<Longrightarrow> within (pr_PID pr) pm pm'"
proof (induction ms arbitrary: sy pm)
  case (Cons m ms)
  then obtain sy1 pm1 where "sync_mapping E pr m (sy, pm) = Ret (sy1, pm1)"
    and "sync_mappings E pr ms (sy1, pm1) = Ret (sy', pm')" by auto
  then show ?case using Cons.IH within_trans [OF sync_mapping_within] by blast
qed simp

lemma sync_mapping_refs:
  assumes "sync_mapping E pr m (sy, pm) = Ret (sy', pm')" "unused_inv (tables_of pm)" "\<And>f. refs_of pm f + 1 < 2 ^ 64"
  shows "unused_inv (tables_of pm') \<and> refs_of pm f \<le> refs_of pm' f \<and>
    refs_of pm' f \<le> refs_of pm f + 1 \<and> sync_maps f sy' + refs_of pm f \<le> sync_maps f sy + refs_of pm' f"
proof -
  define sy1 where "sy1 = note_mapping m sy"
  have sy1: "sync_maps f sy1 = sync_maps f sy" by (simp add: sy1_def sync_maps_def)
  note s = assms(1) [unfolded sync_mapping_def Let_def prod.case, folded sy1_def]
  show ?thesis
  proof (cases "IsExecutable m \<and> \<not> IsAnonymous m")
    case False
    then show ?thesis using s assms(2) sy1 by auto
  next
    case True
    show ?thesis
    proof (cases "old_mapping m sy1")
      case (Some old)
      then have "sync_maps f sy' \<le> sync_maps f sy1" "pm' = pm"
        using s True old_mapping_maps [OF Some, of f] by (auto simp: sync_maps_def publish_maps mapping_fileID_def)
      then show ?thesis using assms(2) sy1 by simp
    next
      case None
      consider err c where "newFrameMapping E pr m (collectAnonymousMappings sy1) pm = Ret ((Inl err, c), pm')" "sync_maps f sy' = sync_maps f sy1"
        | fm c where "newFrameMapping E pr m (collectAnonymousMappings sy1) pm = Ret ((Inr fm, c), pm')"
          "sync_maps f sy' = sync_maps f sy1 + (if FileIDFromLibpf (mf_FileID (fm_File fm)) = f then 1 else 0)"
        using s True None by (auto simp: sync_maps_def publish_maps run_elims simp del: run_bind_eq_Ret split del: if_split)
      then show ?thesis using newFrameMapping_refs [OF _ assms(2,3), of E pr m _ _ _ pm' f] sy1 by cases fastforce+
    qed
  qed
qed

lemma sync_mappings_refs:
  "sync_mappings E pr ms (sy, pm) = Ret (sy', pm') \<Longrightarrow> unused_inv (tables_of pm) \<Longrightarrow> (\<And>f. refs_of pm f + length ms < 2 ^ 64) \<Longrightarrow>
   unused_inv (tables_of pm') \<and> (\<forall>f. refs_of pm f \<le> refs_of pm' f \<and> refs_of pm' f \<le> refs_of pm f + length ms \<and>
     sync_maps f sy' + refs_of pm f \<le> sync_maps f sy + refs_of pm' f)"
proof (induction ms arbitrary: sy pm)
  case (Cons m ms)
  then obtain sy1 pm1 where s: "sync_mapping E pr m (sy, pm) = Ret (sy1, pm1)"
    and r: "sync_mappings E pr ms (sy1, pm1) = Ret (sy', pm')" by auto
  have b: "refs_of pm f + 1 < 2 ^ 64" for f using Cons.prems(3) [of f] by simp
  note 1 = sync_mapping_refs [OF s Cons.prems(2) b]
  have "refs_of pm1 f + length ms < 2 ^ 64" for f using Cons.prems(3) [of f] 1 [of f] by simp
  note 2 = Cons.IH [OF r _ this]
  have "refs_of pm f \<le> refs_of pm' f \<and> refs_of pm' f \<le> refs_of pm f + length (m # ms) \<and>
    sync_maps f sy' + refs_of pm f \<le> sync_maps f sy + refs_of pm' f" for f
  proof -
    have "refs_of pm1 f \<le> refs_of pm' f" "refs_of pm' f \<le> refs_of pm1 f + length ms" "sync_maps f sy' + refs_of pm1 f \<le> sync_maps f sy1 + refs_of pm' f"
      using 1 2 by blast+
    then show ?thesis using 1 [of f] by simp
  qed
  then show ?case using 1 2 by blast
qed simp

section \<open>Runs of the process manager\<close>

text \<open>The mappings of live processes that belong to a file.\<close>

definition published :: "('c, 'k, 'e, 'd, 'i, 'm, 'x, 'h) ProcessManager \<Rightarrow> u64 \<Rightarrow> nat" where
  "published pm f = (\<Sum>pid \<in> UNIV. if exitEvents pm pid = None then maps_file f (maps_of pm pid) else 0)"

text \<open>The references grow at least by as much as the published mappings, and by at most \<open>n\<close>.\<close>

definition balanced :: "nat \<Rightarrow> ('c, 'k, 'e, 'd, 'i, 'm, 'x, 'h) ProcessManager \<Rightarrow> ('c, 'k, 'e, 'd, 'i, 'm, 'x, 'h) ProcessManager \<Rightarrow> bool" where
  "balanced n a b \<longleftrightarrow> unused_inv (tables_of b) \<and>
     (\<forall>f. refs_of b f \<le> refs_of a f + n \<and> published b f + refs_of a f \<le> published a f + refs_of b f)"

text \<open>Nothing changes but one process.\<close>

definition others_kept :: "u32 \<Rightarrow> ('c, 'k, 'e, 'd, 'i, 'm, 'x, 'h) ProcessManager \<Rightarrow> ('c, 'k, 'e, 'd, 'i, 'm, 'x, 'h) ProcessManager \<Rightarrow> bool" where
  "others_kept pid a b \<longleftrightarrow> (\<forall>q. q \<noteq> pid \<longrightarrow> exitEvents b q = exitEvents a q \<and> pidToProcessInfo b q = pidToProcessInfo a q)"

lemma within_others: "within pid a b \<Longrightarrow> others_kept pid a b"
  by (simp add: within_def others_kept_def)

lemma others_trans [trans]: "others_kept pid a b \<Longrightarrow> others_kept pid b c \<Longrightarrow> others_kept pid a c"
  by (simp add: others_kept_def)

lemma published_at:
  "published pm f = (if exitEvents pm pid = None then maps_file f (maps_of pm pid) else 0) +
     (\<Sum>q \<in> UNIV - {pid}. if exitEvents pm q = None then maps_file f (maps_of pm q) else 0)"
  unfolding published_def by (rule sum.remove) auto

lemma others_published:
  assumes "others_kept pid a b"
  shows "published b f + (if exitEvents a pid = None then maps_file f (maps_of a pid) else 0) =
    published a f + (if exitEvents b pid = None then maps_file f (maps_of b pid) else 0)"
proof -
  have "(\<Sum>q \<in> UNIV - {pid}. if exitEvents b q = None then maps_file f (maps_of b q) else 0) =
    (\<Sum>q \<in> UNIV - {pid}. if exitEvents a q = None then maps_file f (maps_of a q) else 0)"
    using assms by (intro sum.cong) (auto simp: others_kept_def maps_of_def)
  then show ?thesis unfolding published_at [of _ f pid] by simp
qed

lemma within_published: "within pid a b \<Longrightarrow> published b = published a"
proof
  fix f
  assume w: "within pid a b"
  then show "published b f = published a f"
    using others_published [OF within_others [OF w], of f] by (simp add: within_def split: if_split_asm)
qed

lemma quiet_balanced: "quiet pid a b \<Longrightarrow> unused_inv (tables_of a) \<Longrightarrow> balanced n a b"
  using quiet_refs [of pid a b] within_published [of pid a b] by (simp add: balanced_def quiet_def)

lemma balanced_trans:
  assumes "balanced n a b" "balanced k b c"
  shows "balanced (n + k) a c"
proof -
  have "refs_of c f \<le> refs_of a f + (n + k) \<and> published c f + refs_of a f \<le> published a f + refs_of c f" for f
  proof -
    have "refs_of b f \<le> refs_of a f + n" "published b f + refs_of a f \<le> published a f + refs_of b f"
      "refs_of c f \<le> refs_of b f + k" "published c f + refs_of b f \<le> published b f + refs_of c f"
      using assms by (simp_all add: balanced_def)
    then show ?thesis by linarith
  qed
  then show ?thesis using assms(2) by (simp add: balanced_def)
qed

lemma balanced_inv: "balanced n a b \<Longrightarrow> unused_inv (tables_of b)"
  by (simp add: balanced_def)

subsection \<open>Exits\<close>

lemma processPIDExit_new:
  assumes "processPIDExit E pid pm = Ret pm'" "pidToProcessInfo pm pid = Some info" "exitEvents pm pid = None"
  obtains a b n n' where "quiet pid (pm\<lparr>exitEvents := (exitEvents pm)(pid \<mapsto> en_now E)\<rparr>) a"
    "remove_mappings E pid (mappings info) n a = Ret (n', b)" "quiet pid b pm'"
proof -
  let ?pm1 = "pm\<lparr>exitEvents := (exitEvents pm)(pid \<mapsto> en_now E)\<rparr>"
  obtain eb n n' b w c where "remove_mappings E pid (mappings info) n (set_ebpf eb ?pm1) = Ret (n', b)"
    "processRemovedInterpreters (en_interp E) pid [] (shrink_size n' b) = Ret (w, c)"
    "remove_reported (en_bpf E) pid (c\<lparr>attachedProbes := (attachedProbes c)(pid := [])\<rparr>) = Ret pm'"
    using assms by (auto simp: processPIDExit_def Let_def)
  moreover from this have "quiet pid b c" "quiet pid c pm'"
    by (auto simp: shrink_size_def dest!: processRemovedInterpreters_quiet [where q = pid] remove_reported_quiet [where q = pid])
  ultimately show thesis using that quiet_set_ebpf quiet_trans by blast
qed

lemma processPIDExit_old:
  assumes "processPIDExit E pid pm = Ret pm'" "pidToProcessInfo pm pid = None \<or> exitEvents pm pid \<noteq> None"
  shows "quiet q pm pm'"
  using assms remove_reported_quiet [where q = q] by (auto simp: processPIDExit_def split: option.split_asm if_split_asm)

lemma processPIDExit_others:
  assumes "processPIDExit E pid pm = Ret pm'"
  shows "others_kept pid pm pm'"
proof (cases "pidToProcessInfo pm pid = None \<or> exitEvents pm pid \<noteq> None")
  case True
  show ?thesis by (rule within_others [OF quiet_within [OF processPIDExit_old [OF assms True]]])
next
  case False
  then obtain info where i: "pidToProcessInfo pm pid = Some info" "exitEvents pm pid = None" by auto
  have o: "others_kept pid pm (pm\<lparr>exitEvents := (exitEvents pm)(pid \<mapsto> en_now E)\<rparr>)" by (simp add: others_kept_def)
  show ?thesis
    using assms i
    by (rule processPIDExit_new) (blast intro: within_others [OF quiet_within] within_others [OF remove_mappings_within] others_trans o)
qed

lemma processPIDExit_refs:
  assumes "processPIDExit E pid pm = Ret pm'" "unused_inv (tables_of pm)"
  shows "balanced 0 pm pm'"
proof (cases "pidToProcessInfo pm pid = None \<or> exitEvents pm pid \<noteq> None")
  case True
  show ?thesis using processPIDExit_old [OF assms(1) True] assms(2) by (rule quiet_balanced)
next
  case False
  then obtain info where i: "pidToProcessInfo pm pid = Some info" "exitEvents pm pid = None" by auto
  let ?pm1 = "pm\<lparr>exitEvents := (exitEvents pm)(pid \<mapsto> en_now E)\<rparr>"
  obtain a b n n' where q: "quiet pid ?pm1 a" "quiet pid b pm'"
    and r: "remove_mappings E pid (mappings info) n a = Ret (n', b)"
    using assms(1) i by (rule processPIDExit_new)
  have inv: "unused_inv (tables_of a)" using quiet_refs(2) [OF q(1)] assms(2) by simp
  note rm = remove_mappings_refs [OF r inv]
  have w: "within pid ?pm1 pm'"
    using quiet_within [OF q(1)] quiet_within [OF q(2)] remove_mappings_within [OF r] by (blast intro: within_trans)
  have rc: "refs_of a = refs_of pm" "refs_of pm' = refs_of b" using quiet_refs(1) [OF q(1)] quiet_refs(1) [OF q(2)] by simp_all
  have "exitEvents pm' pid \<noteq> None" using w by (simp add: within_def)
  then have pub: "published pm' f + maps_file f (mappings info) = published pm f" for f
    using others_published [OF processPIDExit_others [OF assms(1)], of f] i by (auto simp: maps_of_def)
  have "refs_of pm' f \<le> refs_of pm f + 0 \<and> published pm' f + refs_of pm f \<le> published pm f + refs_of pm' f" for f
    using rm [of f] pub [of f] rc by simp
  then show ?thesis using quiet_refs(2) [OF q(2)] rm unfolding balanced_def by blast
qed

subsection \<open>Synchronisation\<close>

text \<open>The last part publishes the mappings and gives back the references of those that are gone.\<close>

lemma sync_publish_parts:
  assumes "sync_publish E pr info w (sy, pm) = Ret pm'"
  obtains n a b where "remove_mappings E (pr_PID pr) (mpRemove sy) 0 pm = Ret (n, a)" "quiet (pr_PID pr) a b"
    "quiet (pr_PID pr) (case pidToProcessInfo b (pr_PID pr) of None \<Rightarrow> b
       | Some info' \<Rightarrow> b\<lparr>pidToProcessInfo := (pidToProcessInfo b)(pr_PID pr \<mapsto> info'\<lparr>mappings := sort_mappings (sy_mappings sy)\<rparr>)\<rparr>) pm'"
proof -
  let ?pid = "pr_PID pr"
  obtain n a w1 b1 b2 n2 b3 ok b4 b5 c1 meta ctx where 1: "remove_mappings E ?pid (mpRemove sy) 0 pm = Ret (n, a)"
    and 2: "processRemovedInterpreters (en_interp E) ?pid (interpretersValid sy) (shrink_size n a) = Ret (w1, b1)"
    and 3: "(if w1 \<noteq> w then updatePIDAnonymousMappingInterest (en_bpf E) ?pid w1 b1 else Ret b1) = Ret b2"
    and 4: "add_mappings (en_bpf E) ?pid (mpAdd sy) 0 b2 = Ret (n2, b3)"
    and 5: "getOrCreateProcessInfo E pr (b3\<lparr>pidPageToMappingInfoSize := pidPageToMappingInfoSize b3 + n2\<rparr>) = Ret (ok, b4)"
    and 6: "b5 = (case pidToProcessInfo b4 ?pid of None \<Rightarrow> b4
       | Some info \<Rightarrow> b4\<lparr>pidToProcessInfo := (pidToProcessInfo b4)(?pid \<mapsto> info\<lparr>mappings := sort_mappings (sy_mappings sy),
           pi_meta := meta info, processContext := ctx\<rparr>)\<rparr>)"
    and 7: "call_all (SynchronizeMappings (en_interp E) (collected (interpreterMappings sy))) ?pid b5 = Ret c1"
    and 8: "(if mappings info = [] then remove_reported (en_bpf E) ?pid c1 else Ret c1) = Ret pm'"
    using assms by (auto simp: sync_publish_def Let_def)
  have "quiet ?pid a b1" using processRemovedInterpreters_quiet [OF 2, of ?pid] by (simp add: shrink_size_def)
  moreover have "quiet ?pid b1 b2" using 3 updatePIDAnonymousMappingInterest_quiet [of "en_bpf E" ?pid w1 b1 b2 ?pid] by (simp split: if_split_asm)
  moreover have "quiet ?pid b2 b3" by (rule add_mappings_quiet [OF 4])
  moreover have "quiet ?pid b3 b4" using getOrCreateProcessInfo_quiet [OF 5] by simp
  ultimately have q: "quiet ?pid a b4" by (blast intro: quiet_trans)
  let ?b = "case pidToProcessInfo b4 ?pid of None \<Rightarrow> b4
       | Some info' \<Rightarrow> b4\<lparr>pidToProcessInfo := (pidToProcessInfo b4)(?pid \<mapsto> info'\<lparr>mappings := sort_mappings (sy_mappings sy)\<rparr>)\<rparr>"
  have "quiet ?pid ?b b5" unfolding 6 by (auto simp: quiet_def within_def maps_of_def split: option.split)
  moreover have "quiet ?pid b5 c1" by (rule call_all_quiet [OF 7])
  moreover have "quiet ?pid c1 pm'" using 8 remove_reported_quiet [of "en_bpf E" ?pid c1 pm' ?pid] by (simp split: if_split_asm)
  ultimately have "quiet ?pid ?b pm'" by (blast intro: quiet_trans)
  then show thesis using that 1 q by blast
qed

lemma sync_publish_others:
  assumes "sync_publish E pr info w (sy, pm) = Ret pm'"
  shows "others_kept (pr_PID pr) pm pm'"
proof -
  let ?pid = "pr_PID pr"
  obtain n a b where r: "remove_mappings E ?pid (mpRemove sy) 0 pm = Ret (n, a)" and q1: "quiet ?pid a b"
    and q2: "quiet ?pid (case pidToProcessInfo b ?pid of None \<Rightarrow> b
       | Some info' \<Rightarrow> b\<lparr>pidToProcessInfo := (pidToProcessInfo b)(?pid \<mapsto> info'\<lparr>mappings := sort_mappings (sy_mappings sy)\<rparr>)\<rparr>) pm'"
    (is "quiet _ ?b _") using assms(1) by (rule sync_publish_parts)
  have "others_kept ?pid b ?b" by (simp add: others_kept_def split: option.split)
  then show ?thesis
    using within_others [OF remove_mappings_within [OF r]] within_others [OF quiet_within [OF q1]] within_others [OF quiet_within [OF q2]]
    by (blast intro: others_trans)
qed

lemma sync_publish_refs:
  assumes "sync_publish E pr info w (sy, pm) = Ret pm'" "unused_inv (tables_of pm)" "exitEvents pm (pr_PID pr) = None"
    "\<And>f. sync_maps f sy + rc0 f \<le> maps_file f (maps_of pm (pr_PID pr)) + refs_of pm f"
  shows "unused_inv (tables_of pm') \<and> refs_of pm' f \<le> refs_of pm f \<and> published pm' f + rc0 f \<le> published pm f + refs_of pm' f"
proof -
  let ?pid = "pr_PID pr"
  obtain n a b where r: "remove_mappings E ?pid (mpRemove sy) 0 pm = Ret (n, a)" and q1: "quiet ?pid a b"
    and q2: "quiet ?pid (case pidToProcessInfo b ?pid of None \<Rightarrow> b
       | Some info' \<Rightarrow> b\<lparr>pidToProcessInfo := (pidToProcessInfo b)(?pid \<mapsto> info'\<lparr>mappings := sort_mappings (sy_mappings sy)\<rparr>)\<rparr>) pm'"
    (is "quiet _ ?b _") using assms(1) by (rule sync_publish_parts)
  note rm = remove_mappings_refs [OF r assms(2), of f]
  have rc: "refs_of b = refs_of a" "unused_inv (tables_of b)" using quiet_refs [OF q1] rm by auto
  have "refs_of ?b = refs_of b" "unused_inv (tables_of ?b) = unused_inv (tables_of b)" by (simp_all split: option.split)
  then have rc': "refs_of pm' = refs_of a" "unused_inv (tables_of pm')" using quiet_refs [OF q2] rc by simp_all
  have "maps_file f (maps_of ?b ?pid) \<le> maps_file f (sy_mappings sy)" by (simp add: maps_of_def split: option.split)
  moreover have "maps_of pm' ?pid = maps_of ?b ?pid" using q2 by (simp add: quiet_def within_def)
  ultimately have m: "maps_file f (maps_of pm' ?pid) \<le> maps_file f (sy_mappings sy)" by simp
  have "published pm' f + maps_file f (maps_of pm ?pid) \<le> published pm f + maps_file f (maps_of pm' ?pid)"
    using others_published [OF sync_publish_others [OF assms(1)], of f] assms(3) by (simp split: if_split_asm)
  then show ?thesis using rc' rm m assms(4) [of f] by (simp add: sync_maps_def)
qed

lemma sync_publish_balanced:
  assumes "sync_publish E pr info w (sy, c) = Ret pm'" "balanced n pm c" "within (pr_PID pr) pm c" "exitEvents c (pr_PID pr) = None"
    "\<And>f. sync_maps f sy + refs_of pm f \<le> maps_file f (maps_of c (pr_PID pr)) + refs_of c f"
  shows "balanced n pm pm'"
proof -
  note pub = sync_publish_refs [OF assms(1) balanced_inv [OF assms(2)] assms(4,5)]
  have "refs_of pm' f \<le> refs_of pm f + n \<and> published pm' f + refs_of pm f \<le> published pm f + refs_of pm' f" for f
  proof -
    have "refs_of c f \<le> refs_of pm f + n" using assms(2) by (simp add: balanced_def)
    then show ?thesis using pub [of f] within_published [OF assms(3)] by simp
  qed
  then show ?thesis using pub [of 0] unfolding balanced_def by blast
qed

text \<open>The ways a synchronisation goes after the mappings are read.\<close>

lemma SynchronizeProcess_exited:
  "SynchronizeProcess E pr pm = Ret pm' \<Longrightarrow> exitEvents pm (pr_PID pr) \<noteq> None \<Longrightarrow> quiet q pm pm'"
  using remove_reported_quiet by (auto simp: SynchronizeProcess_def)

lemma SynchronizeProcess_parts:
  assumes "SynchronizeProcess E pr pm = Ret pm'" "exitEvents pm (pr_PID pr) = None"
  obtains "quiet (pr_PID pr) pm pm'"
  | a info w sy0 sy b where "quiet (pr_PID pr) pm a" "pidToProcessInfo a (pr_PID pr) = Some info"
      "sy_mappings sy0 = []" "mpRemove sy0 = remove_table (mappings info)"
      "sync_mappings E pr (fst (pr_maps pr)) (sy0, a) = Ret (sy, b)"
      "(\<exists>c. quiet (pr_PID pr) b c \<and> sync_publish E pr info w (sy, c) = Ret pm') \<or> quiet (pr_PID pr) b pm' \<or>
       (\<exists>c. quiet (pr_PID pr) b c \<and> processPIDExit E (pr_PID pr) c = Ret pm')"
proof -
  let ?pid = "pr_PID pr"
  obtain ok a where c: "getOrCreateProcessInfo E pr pm = Ret (ok, a)"
    using assms by (auto simp: SynchronizeProcess_def Let_def)
  note q = getOrCreateProcessInfo_quiet [OF c]
  show thesis
  proof (cases "pidToProcessInfo a ?pid")
    case None
    then show thesis using assms c q that(1) by (simp add: SynchronizeProcess_def)
  next
    case (Some info)
    obtain w where w: "any_uses (en_interp E) (interpreters a ?pid) = Ret w"
      using assms c Some by (auto simp: SynchronizeProcess_def Let_def)
    let ?sy0 = "\<lparr>mpRemove = remove_table (mappings info), sy_mappings = [], mpAdd = [], interpretersValid = [],
      interpreterMappings = \<lparr>collected = [], pending = []\<rparr>, collectAnonymousMappings = w, contextMappingAddr = 0\<rparr>"
    let ?a = "a\<lparr>numProcAttempts := numProcAttempts a + 1\<rparr>"
    obtain ms ne err where m: "pr_maps pr = (ms, ne, err)" by (metis prod.exhaust)
    obtain sy b where s: "sync_mappings E pr ms (?sy0, ?a) = Ret (sy, b)"
      using assms c Some w m by (auto simp: SynchronizeProcess_def Let_def)
    let ?b = "b\<lparr>numProcParseErrors := numProcParseErrors b + ne\<rparr>"
    have "(\<exists>c. quiet ?pid b c \<and> sync_publish E pr info w (sy, c) = Ret pm') \<or> quiet ?pid b pm' \<or>
       (\<exists>c. quiet ?pid b c \<and> processPIDExit E ?pid c = Ret pm')"
      using assms c Some w m s remove_reported_quiet [of "en_bpf E" ?pid ?b pm' ?pid]
      by (auto simp: SynchronizeProcess_def Let_def split: option.split_asm maps_error.split_asm intro: exI [of _ ?b])
    then show thesis using that(2) [of ?a info ?sy0 sy b w] q Some s m by simp
  qed
qed

text \<open>A process that has exited stays as it is.\<close>

definition exit_kept :: "u32 \<Rightarrow> ('c, 'k, 'e, 'd, 'i, 'm, 'x, 'h) ProcessManager \<Rightarrow> ('c, 'k, 'e, 'd, 'i, 'm, 'x, 'h) ProcessManager \<Rightarrow> bool" where
  "exit_kept pid a b \<longleftrightarrow> (exitEvents a pid \<noteq> None \<longrightarrow>
     exitEvents b pid = exitEvents a pid \<and> pidToProcessInfo b pid = pidToProcessInfo a pid)"

lemma quiet_exit_kept: "(\<And>q. quiet q a b) \<Longrightarrow> exit_kept pid a b"
proof -
  assume "\<And>q. quiet q a b"
  then have "quiet (pid + 1) a b" .
  then show ?thesis by (simp add: exit_kept_def quiet_def within_def)
qed

lemma SynchronizeProcess_kept:
  assumes "SynchronizeProcess E pr pm = Ret pm'"
  shows "exit_kept pid pm pm'"
proof (cases "exitEvents pm (pr_PID pr) = None")
  case False
  show ?thesis by (rule quiet_exit_kept) (rule SynchronizeProcess_exited [OF assms False])
next
  case True
  let ?pid = "pr_PID pr"
  have "others_kept ?pid pm pm'"
    using assms True
  proof (cases rule: SynchronizeProcess_parts)
    case 1
    then show ?thesis by (rule within_others [OF quiet_within])
  next
    case (2 a info w sy0 sy b)
    have "others_kept ?pid pm b"
      using within_others [OF quiet_within [OF 2(1)]] within_others [OF sync_mappings_within [OF 2(5)]] by (rule others_trans)
    then show ?thesis
      using 2(6) by (blast intro: others_trans within_others quiet_within sync_publish_others processPIDExit_others)
  qed
  then show ?thesis using True by (cases "pid = ?pid") (simp_all add: exit_kept_def others_kept_def)
qed

lemma SynchronizeProcess_refs:
  assumes "SynchronizeProcess E pr pm = Ret pm'" "unused_inv (tables_of pm)"
    "\<And>f. refs_of pm f + length (fst (pr_maps pr)) < 2 ^ 64"
  shows "balanced (length (fst (pr_maps pr))) pm pm'"
proof (cases "exitEvents pm (pr_PID pr) = None")
  case False
  show ?thesis using SynchronizeProcess_exited [OF assms(1) False] assms(2) by (rule quiet_balanced)
next
  case True
  let ?pid = "pr_PID pr" and ?n = "length (fst (pr_maps pr))"
  show ?thesis
    using assms(1) True
  proof (cases rule: SynchronizeProcess_parts)
    case 1
    then show ?thesis using assms(2) by (rule quiet_balanced)
  next
    case (2 a info w sy0 sy b)
    have a: "unused_inv (tables_of a)" "refs_of a = refs_of pm" using quiet_refs [OF 2(1)] assms(2) by simp_all
    then have "refs_of a f + ?n < 2 ^ 64" for f using assms(3) by simp
    note sm = sync_mappings_refs [OF 2(5) a(1) this]
    note wb = sync_mappings_within [OF 2(5)]
    have w: "within ?pid pm b" using quiet_within [OF 2(1)] wb by (rule within_trans)
    have ma: "maps_of b ?pid = mappings info" using wb 2(2) by (auto simp: within_def maps_of_def)
    have lim: "sync_maps f sy + refs_of pm f \<le> maps_file f (mappings info) + refs_of b f" for f
    proof -
      have "sync_maps f sy + refs_of a f \<le> sync_maps f sy0 + refs_of b f" using sm by blast
      then show ?thesis using 2(3,4) a(2) maps_file_remove_table [of f "mappings info"] by (simp add: sync_maps_def)
    qed
    have bb: "balanced ?n pm b" unfolding balanced_def using sm a(2) within_published [OF w] by auto
    have "\<exists>c. quiet ?pid b c \<and> (pm' = c \<or> sync_publish E pr info w (sy, c) = Ret pm' \<or> processPIDExit E ?pid c = Ret pm')"
      using 2(6) by blast
    then obtain c where q: "quiet ?pid b c" and
      r: "pm' = c \<or> sync_publish E pr info w (sy, c) = Ret pm' \<or> processPIDExit E ?pid c = Ret pm'" by blast
    have cc: "balanced ?n pm c" using balanced_trans [OF bb quiet_balanced [OF q balanced_inv [OF bb], of 0]] by simp
    have wc: "within ?pid pm c" by (rule within_trans [OF w quiet_within [OF q]])
    have x: "exitEvents c ?pid = None" using wc True by (simp add: within_def)
    have "maps_of c ?pid = mappings info" using ma quiet_within [OF q] by (simp add: within_def)
    then have "sync_maps f sy + refs_of pm f \<le> maps_file f (maps_of c ?pid) + refs_of c f" for f
      using lim [of f] quiet_refs(1) [OF q] by simp
    note sync_publish_balanced [OF _ cc wc x this]
    then show ?thesis using r cc balanced_trans [OF cc processPIDExit_refs [OF _ balanced_inv [OF cc]]] by auto
  qed
qed

subsection \<open>Clean-ups\<close>

lemma exit_kept_trans: "exit_kept pid a b \<Longrightarrow> exit_kept pid b c \<Longrightarrow> exit_kept pid a c"
  by (auto simp: exit_kept_def)

lemma processPIDExit_kept:
  assumes "processPIDExit E q pm = Ret pm'"
  shows "exit_kept pid pm pm'"
proof (cases "pid = q \<and> exitEvents pm q \<noteq> None")
  case True
  then show ?thesis using processPIDExit_old [OF assms] by (intro quiet_exit_kept) blast
next
  case False
  then show ?thesis
    using processPIDExit_others [OF assms] by (cases "pid = q") (simp_all add: exit_kept_def others_kept_def)
qed

lemma exit_all_kept: "exit_all E pids pm = Ret pm' \<Longrightarrow> exit_kept pid pm pm'"
proof (induction pids arbitrary: pm)
  case (Cons q pids)
  then obtain pm1 where "processPIDExit E q pm = Ret pm1" "exit_all E pids pm1 = Ret pm'" by auto
  then show ?case using Cons.IH processPIDExit_kept exit_kept_trans by blast
qed (simp add: exit_kept_def)

lemma exit_all_refs: "exit_all E pids pm = Ret pm' \<Longrightarrow> unused_inv (tables_of pm) \<Longrightarrow> balanced 0 pm pm'"
proof (induction pids arbitrary: pm)
  case (Cons q pids)
  then obtain pm1 where p: "processPIDExit E q pm = Ret pm1" and r: "exit_all E pids pm1 = Ret pm'" by auto
  note b = processPIDExit_refs [OF p Cons.prems(2)]
  show ?case using balanced_trans [OF b Cons.IH [OF r balanced_inv [OF b]]] by simp
qed (simp add: balanced_def)

text \<open>One turn of the loop of \<open>ProcessedUntil\<close>.\<close>

lemma ProcessedUntil_turn:
  assumes "ProcessedUntil E t (q # pids) pm = Ret pm'"
  obtains "ProcessedUntil E t pids pm = Ret pm'" "\<And>t'. exitEvents pm q = Some t' \<Longrightarrow> t < t'"
  | a t' where "exitEvents pm q = Some t'" "t' \<le> t" "ProcessedUntil E t pids a = Ret pm'" "same_tables (tables_of pm) (tables_of a)"
      "pidToProcessInfo a = (pidToProcessInfo pm)(q := None)" "exitEvents a = (exitEvents pm)(q := None)"
proof (cases "\<exists>t'. exitEvents pm q = Some t' \<and> t' \<le> t")
  case False
  then have "ProcessedUntil E t pids pm = Ret pm'" "\<And>t'. exitEvents pm q = Some t' \<Longrightarrow> t < t'"
    using assms by (auto split: option.split_asm if_split_asm)
  then show thesis by (rule that(1))
next
  case True
  then obtain t' where t': "exitEvents pm q = Some t'" "t' \<le> t" by blast
  then obtain eb where r: "ProcessedUntil E t pids ((set_ebpf eb pm)\<lparr>pidToProcessInfo := (pidToProcessInfo pm)(q := None),
      interpreters := (interpreters pm)(q := []), exitEvents := (exitEvents pm)(q := None)\<rparr>) = Ret pm'"
    using assms by auto
  show thesis by (rule that(2) [OF t' r]) (simp_all add: set_ebpf_def same_tables_def)
qed

lemma forget_refs:
  assumes "exitEvents pm q = Some t" "same_tables (tables_of pm) (tables_of a)" "unused_inv (tables_of pm)"
    "pidToProcessInfo a = (pidToProcessInfo pm)(q := None)" "exitEvents a = (exitEvents pm)(q := None)"
  shows "balanced 0 pm a"
proof -
  have "others_kept q pm a" using assms(4,5) by (simp add: others_kept_def)
  note others_published [OF this]
  then have "published a f = published pm f" for f using assms(1,4,5) by (simp add: maps_of_def)
  then show ?thesis using same_tables_inv [OF assms(2)] assms(3) by (simp add: balanced_def)
qed

lemma ProcessedUntil_refs: "ProcessedUntil E t pids pm = Ret pm' \<Longrightarrow> unused_inv (tables_of pm) \<Longrightarrow> balanced 0 pm pm'"
proof (induction pids arbitrary: pm)
  case (Cons q pids)
  show ?case
    using Cons.prems(1)
  proof (cases rule: ProcessedUntil_turn)
    case 1
    then show ?thesis using Cons.IH Cons.prems(2) by blast
  next
    case (2 a t')
    note b = forget_refs [OF 2(1,4) Cons.prems(2) 2(5,6)]
    show ?thesis using balanced_trans [OF b Cons.IH [OF 2(3) balanced_inv [OF b]]] by simp
  qed
qed (simp add: balanced_def)

lemma ProcessedUntil_later:
  "ProcessedUntil E t pids pm = Ret pm' \<Longrightarrow> exitEvents pm pid = Some t' \<Longrightarrow> t < t' \<Longrightarrow>
   exitEvents pm' pid = Some t' \<and> pidToProcessInfo pm' pid = pidToProcessInfo pm pid"
proof (induction pids arbitrary: pm)
  case (Cons q pids)
  show ?case
    using Cons.prems(1)
    by (cases rule: ProcessedUntil_turn; cases "pid = q") (use Cons.IH Cons.prems(2,3) in auto)
qed simp

lemma ProcessedUntil_none:
  "ProcessedUntil E t pids pm = Ret pm' \<Longrightarrow> exitEvents pm pid = None \<Longrightarrow>
   exitEvents pm' pid = None \<and> pidToProcessInfo pm' pid = pidToProcessInfo pm pid"
proof (induction pids arbitrary: pm)
  case (Cons q pids)
  show ?case
    using Cons.prems(1) by (cases rule: ProcessedUntil_turn; cases "pid = q") (use Cons.IH Cons.prems(2) in auto)
qed simp

lemma ProcessedUntil_due:
  "ProcessedUntil E t pids pm = Ret pm' \<Longrightarrow> exitEvents pm pid = Some t' \<Longrightarrow> t' \<le> t \<Longrightarrow> pid \<in> set pids \<Longrightarrow>
   exitEvents pm' pid = None \<and> pidToProcessInfo pm' pid = None"
proof (induction pids arbitrary: pm)
  case (Cons q pids)
  show ?case using Cons.prems(1)
  proof (cases rule: ProcessedUntil_turn)
    case 1
    then show ?thesis using Cons.IH Cons.prems by fastforce
  next
    case (2 a t'')
    then show ?thesis using Cons.IH Cons.prems ProcessedUntil_none [OF 2(3), of pid] by (cases "pid = q") auto
  qed
qed simp

subsection \<open>Steps\<close>

text \<open>
  The calls that change the process manager, each at a time of its own.  A step is labelled with the
  mappings it read and with the time up to which traces are processed.
\<close>

datatype pm_event = Handled RawMapping | Processed int

inductive pm_step ::
  "('c, 'k, 'e, 'd, 'i, 'm, 'x, 'h) pm_env \<Rightarrow> ('d \<Rightarrow> 'k ebpfMapsImpl \<Rightarrow> 'k ebpfMapsImpl) \<Rightarrow> pm_event list \<Rightarrow>
     ('c, 'k, 'e, 'd, 'i, 'm, 'x, 'h) ProcessManager \<Rightarrow> ('c, 'k, 'e, 'd, 'i, 'm, 'x, 'h) ProcessManager \<Rightarrow> bool"
  for E unload where
  synchronize: "SynchronizeProcess (E\<lparr>en_now := now\<rparr>) pr pm = Ret pm' \<Longrightarrow>
    pm_step E unload (map Handled (fst (pr_maps pr))) pm pm'"
| pid_exit: "processPIDExit (E\<lparr>en_now := now\<rparr>) pid pm = Ret pm' \<Longrightarrow> pm_step E unload [] pm pm'"
| cleanup_pids: "CleanupPIDs (E\<lparr>en_now := now\<rparr>) live pids pm = Ret pm' \<Longrightarrow> pm_step E unload [] pm pm'"
| processed_until: "ProcessedUntil (E\<lparr>en_now := now\<rparr>) t pids pm = Ret pm' \<Longrightarrow> pm_step E unload [Processed t] pm pm'"
| cleanup_unused: "CleanupUnused (en_bpf E) unload now age order (pm_eim pm) = Ret (r, mgr) \<Longrightarrow>
    pm_step E unload [] pm (pm\<lparr>pm_eim := mgr\<rparr>)"

abbreviation pm_run ::
  "('c, 'k, 'e, 'd, 'i, 'm, 'x, 'h) pm_env \<Rightarrow> ('d \<Rightarrow> 'k ebpfMapsImpl \<Rightarrow> 'k ebpfMapsImpl) \<Rightarrow> ('c, 'k, 'e, 'd, 'i, 'm, 'x, 'h) ProcessManager \<Rightarrow> pm_event list \<Rightarrow> ('c, 'k, 'e, 'd, 'i, 'm, 'x, 'h) ProcessManager \<Rightarrow> bool" where
  "pm_run E unload \<equiv> trace_run (pm_step E unload)"

lemma pm_run_one: "pm_step E unload es pm pm' \<Longrightarrow> pm_run E unload pm es pm'"
  using trace_run.extend [where stp = "pm_step E unload", OF trace_run.start] by fastforce

lemma pm_step_refs:
  assumes "pm_step E unload es pm pm'" "unused_inv (tables_of pm)" "\<And>f. refs_of pm f + length es < 2 ^ 64"
  shows "balanced (length es) pm pm'"
  using assms(1)
proof cases
  case (synchronize now pr)
  then show ?thesis using SynchronizeProcess_refs [OF synchronize(2) assms(2)] assms(3) by simp
next
  case (pid_exit now pid)
  then show ?thesis using processPIDExit_refs [OF pid_exit(2) assms(2)] by simp
next
  case (cleanup_pids now live pids)
  then show ?thesis using exit_all_refs [OF cleanup_pids(2) [unfolded CleanupPIDs_def] assms(2)] by simp
next
  case (processed_until now t pids)
  then show ?thesis
    using balanced_trans [OF ProcessedUntil_refs [OF processed_until(2) assms(2)] quiet_balanced [OF quiet_refl, of _ "length es"]]
      balanced_inv [OF ProcessedUntil_refs [OF processed_until(2) assms(2)]] by simp
next
  case (cleanup_unused now age order r mgr)
  have "within 0 pm pm'" using cleanup_unused(2) by (simp add: within_def maps_of_def)
  then show ?thesis
    using cleanup_unused cleanup_inv [OF _ assms(2)] within_published [of 0 pm pm'] by (auto simp: CleanupUnused_def balanced_def)
qed

lemma pm_step_kept:
  assumes "pm_step E unload es pm pm'" "exitEvents pm pid = Some t" "\<And>t'. Processed t' \<in> set es \<Longrightarrow> t' < t"
  shows "exitEvents pm' pid = Some t \<and> pidToProcessInfo pm' pid = pidToProcessInfo pm pid"
  using assms(1)
proof cases
  case (synchronize now pr)
  then show ?thesis using SynchronizeProcess_kept [OF synchronize(2), of pid] assms(2) by (simp add: exit_kept_def)
next
  case (pid_exit now q)
  then show ?thesis using processPIDExit_kept [OF pid_exit(2), of pid] assms(2) by (simp add: exit_kept_def)
next
  case (cleanup_pids now live pids)
  then show ?thesis using exit_all_kept [OF cleanup_pids(2) [unfolded CleanupPIDs_def], of pid] assms(2) by (simp add: exit_kept_def)
next
  case (processed_until now t' pids)
  then show ?thesis using ProcessedUntil_later [OF processed_until(2) assms(2)] assms(3) by simp
next
  case (cleanup_unused now age order r mgr)
  then show ?thesis using assms(2) by simp
qed

text \<open>The invariants over runs.\<close>

interpretation pm_refs: trace_invariant "pm_step E unload"
    "\<lambda>es pm. length es < 2 ^ 64 \<longrightarrow> unused_inv (tables_of pm) \<and> (\<forall>f. refs_of pm f \<le> length es \<and> published pm f \<le> refs_of pm f)" for E unload
proof unfold_locales
  fix es es' :: "pm_event list" and pm pm'
  assume inv: "length es < 2 ^ 64 \<longrightarrow> unused_inv (tables_of pm) \<and> (\<forall>f. refs_of pm f \<le> length es \<and> published pm f \<le> refs_of pm f)"
    and s: "pm_step E unload es' pm pm'"
  show "length (es @ es') < 2 ^ 64 \<longrightarrow> unused_inv (tables_of pm') \<and> (\<forall>f. refs_of pm' f \<le> length (es @ es') \<and> published pm' f \<le> refs_of pm' f)"
  proof
    assume len: "length (es @ es') < 2 ^ 64"
    then have i: "unused_inv (tables_of pm)" "refs_of pm f \<le> length es" "published pm f \<le> refs_of pm f" for f using inv by auto
    have "refs_of pm f + length es' < 2 ^ 64" for f using len i(2) [of f] by simp
    note b = pm_step_refs [OF s i(1) this]
    have "refs_of pm' f \<le> length (es @ es') \<and> published pm' f \<le> refs_of pm' f" for f
    proof -
      have "refs_of pm' f \<le> refs_of pm f + length es'" "published pm' f + refs_of pm f \<le> published pm f + refs_of pm' f"
        using b by (simp_all add: balanced_def)
      then show ?thesis using i(2,3) [of f] by simp
    qed
    then show "unused_inv (tables_of pm') \<and> (\<forall>f. refs_of pm' f \<le> length (es @ es') \<and> published pm' f \<le> refs_of pm' f)"
      using balanced_inv [OF b] by blast
  qed
qed

interpretation pm_exits: trace_invariant "pm_step E unload"
    "\<lambda>es pm. (\<forall>t'. Processed t' \<in> set es \<longrightarrow> t' < t) \<longrightarrow> exitEvents pm pid = Some t \<and> pidToProcessInfo pm pid = info" for E unload t pid info
proof unfold_locales
  fix es es' :: "pm_event list" and pm pm'
  assume "(\<forall>t'. Processed t' \<in> set es \<longrightarrow> t' < t) \<longrightarrow> exitEvents pm pid = Some t \<and> pidToProcessInfo pm pid = info"
    and "pm_step E unload es' pm pm'"
  then show "(\<forall>t'. Processed t' \<in> set (es @ es') \<longrightarrow> t' < t) \<longrightarrow> exitEvents pm' pid = Some t \<and> pidToProcessInfo pm' pid = info"
    using pm_step_kept by fastforce
qed

lemma new_refs:
  "unused_inv (tables_of (ProcessManager_New (NewExecutableInfoManager loaders eb cache) ec)) \<and>
   (\<forall>f. refs_of (ProcessManager_New (NewExecutableInfoManager loaders eb cache) ec) f \<le> 0 \<and>
     published (ProcessManager_New (NewExecutableInfoManager loaders eb cache) ec) f \<le>
       refs_of (ProcessManager_New (NewExecutableInfoManager loaders eb cache) ec) f)"
  using eim_inv_new [of loaders eb cache] by (simp add: ProcessManager_New_def counts_refs_def published_def maps_of_def)

text \<open>A process that maps one page of a file whose ELF information is cached, and an agent without interpreters.\<close>

definition example_raw :: RawMapping where
  "example_raw = \<lparr>rm_Vaddr = 0x401000, rm_Length = 0x1000, rm_Flags = 5, rm_FileOffset = 0x1000, rm_Device = 1, rm_Inode = 2, rm_Path = ''/a''\<rparr>"

definition example_proc :: "(unit, unit) proc" where
  "example_proc = \<lparr>pr_PID = 7, pr_Exe = [], pr_Meta = (), pr_maps = ([example_raw], 0, None), pr_LastModified = \<lambda>m. 0,
     pr_GetELF = \<lambda>m. Inl ElfNotExist, pr_FileID = \<lambda>m. Inl ElfNotExist, pr_elfRef = \<lambda>m. ()\<rparr>"

definition example_elf :: elfInfo where
  "example_elf = \<lparr>elf_err = None, lastModified = 0,
     mappingFile = \<lparr>mf_FileID = NewFileID 5 6, mf_FileName = ''a'', mf_GnuBuildID = [], mf_GoBuildID = []\<rparr>,
     addressMapper = [\<lparr>am_offset = 0x1000, am_vaddr = 0x1000, am_filesz = 0x1000\<rparr>]\<rparr>"

definition example_pm_env ::
  "(u64 list, ram, unit, unit, unit, unit, unit, (OnDiskFileIdentifier \<times> elfInfo) list) pm_env" where
  "example_pm_env = \<lparr>en_bpf = ram_bpf, en_deferred = list_lru,
     en_eim = \<lparr>GetIntervalDataForFile = \<lambda>e. Inr \<lparr>NumDeltas = 0, Blocks = [\<lparr>Start = 0, End = 0, Deltas = []\<rparr>]\<rparr>,
       GetELF = \<lambda>e. Inl ErrNotExist, synthesizeIntervalData = \<lambda>f. \<lparr>NumDeltas = 0, Blocks = []\<rparr>,
       IsPotentialLibcDSO = \<lambda>e. False, ExtractLibcInfo = \<lambda>f. None\<rparr>,
     en_interp = \<lparr>io_Attach = \<lambda>d pid bias eb. (Inr None, eb), io_Detach = \<lambda>i pid eb. (False, eb),
       io_UsesAnonymousMappings = \<lambda>i. False, io_SynchronizeMappings = \<lambda>i ms eb. ((False, i), eb),
       io_UpdateLibcInfo = \<lambda>i pid l eb. ((False, i), eb)\<rparr>,
     en_elf = \<lparr>el_Get = \<lambda>h key. (map_of h key, h), el_Add = \<lambda>h key info. (key, info) # h\<rparr>,
     en_BuildIDs = \<lambda>f. ([], []), en_pageMask = 0xfff, en_probes = [], en_Executable = \<lambda>m. [], en_noContext = (),
     en_Resolve = \<lambda>a c m. c, en_now = 0\<rparr>"

abbreviation example_start :: "(u64 list, ram, unit, unit, unit, unit, unit, (OnDiskFileIdentifier \<times> elfInfo) list) ProcessManager" where
  "example_start \<equiv> ProcessManager_New (NewExecutableInfoManager [] ((example_handler ram_empty)\<lparr>available := [PidPageToMappingInfo, ReportedPIDs]\<rparr>) []) [(\<lparr>DeviceID = 1, InodeNum = 2\<rparr>, example_elf)]"


lemma example_prefixes: "mapping_prefixes (example_mapping 0x401000 0x1000 0x1000) = Ret (Inr [\<lparr>Key = 0x401000, Length = 52\<rparr>])"
proof -
  have "calculateRmb 0x401000 0x402000 = 0x1000"
    by (simp add: calculateRmb_def getRightmostSetBit_def calculateRmb_shrink.simps Let_def)
  then show ?thesis
    using bits_Len_power [of 12]
    by (simp add: mapping_prefixes_def example_mapping_def CalculatePrefixList_chain prefix_chain.simps LeadingZeros64_def)
qed

lemmas example_prefixes' = example_prefixes [unfolded example_mapping_def NewFileID_def New128_def, simplified]

lemma example_sync:
  "\<exists>pm info. SynchronizeProcess (example_pm_env\<lparr>en_now := 1\<rparr>) example_proc example_start = Ret pm \<and>
     pidToProcessInfo pm 7 = Some info \<and> exitEvents pm 7 = None \<and> mappings info = [example_mapping 0x401000 0x1000 0x1000]"
proof -
  have "case SynchronizeProcess (example_pm_env\<lparr>en_now := 1\<rparr>) example_proc example_start of
      Ret pm \<Rightarrow> (case pidToProcessInfo pm 7 of None \<Rightarrow> False
        | Some info \<Rightarrow> exitEvents pm 7 = None \<and> mappings info = [example_mapping 0x401000 0x1000 0x1000])
    | _ \<Rightarrow> False"
    by (simp add: Let_def IsFileBacked_def IsVDSO_def IsMemFD_def IsPrctlNamed_def HasSuffix_def HasPrefix_def SynchronizeProcess_def getOrCreateProcessInfo_def ProcessManager_New_def pm_ebpf_def UpdatePidPageMappingInfo_def
      NewExecutableInfoManager_def NumInterpreterLoaders_def on_map_def trackMapError_def EncodeBiasAndUnwindProgram_def set_ebpf_def
      sync_mapping_def note_mapping_def old_mapping_def publish_def IsContextMapping_def collector_add_def isInterpreterMapping_def
      IsExecutable_def IsAnonymous_def remove_table_def newFrameMapping_def getELFInfo_def RawMapping_GetOnDiskFileIdentifier_def
      AddOrIncRef_def AddOrIncRef_fast_def AddOrIncRef_gather_def AddOrIncRef_insert_def loadDeltas_def detectAndLoadInterpData_def
      assignLibcInfo_def sync_publish_def processRemovedInterpreters_def shrink_size_def processNewMapping_def example_prefixes'
      sort_mappings_def call_all_def remove_reported_def RemoveReportedPID_def example_mapping_def mapping_fileID_def FileIDFromLibpf_def NewFileID_def New128_def
      example_pm_env_def example_proc_def example_handler_def ram_bpf_def list_lru_def example_elf_def example_raw_def)
  then show ?thesis by (auto split: run.split_asm option.split_asm)
qed

text \<open>
  C5: However synchronisations, exits and clean-ups follow each other, every executable is referenced at
  least as often as live processes map it: the executable of every mapping of a process that has not
  exited is loaded, with a reference count that is not zero, and not queued for removal.
\<close>

theorem mapped_executables_referenced:
  assumes "pm_run E unload (ProcessManager_New (NewExecutableInfoManager loaders eb cache) ec) es pm" "length es < 2 ^ 64"
    "pidToProcessInfo pm pid = Some info" "exitEvents pm pid = None" "m \<in> set (mappings info)"
  shows "published pm (mapping_fileID m) \<le> rc_of (state (pm_eim pm)) (mapping_fileID m) \<and>
    (\<exists>e. executables (state (pm_eim pm)) (mapping_fileID m) = Some e \<and> rc e \<noteq> 0) \<and>
    unusedExecutables (state (pm_eim pm)) (mapping_fileID m) = None"
proof -
  let ?f = "mapping_fileID m"
  have "length es < 2 ^ 64 \<longrightarrow> unused_inv (tables_of pm) \<and> (\<forall>f. refs_of pm f \<le> length es \<and> published pm f \<le> refs_of pm f)"
    by (rule pm_refs.run_inv [OF assms(1)]) (use new_refs [of loaders eb cache ec] in simp)
  then have inv: "unused_inv (tables_of pm)" "published pm ?f \<le> refs_of pm ?f" using assms(2) by auto
  have "0 < maps_file ?f (mappings info)" by (rule gr0I) (use assms(5) in \<open>auto simp: maps_file_def count_list_0_iff\<close>)
  then have "0 < published pm ?f" using assms(3,4) by (simp add: published_at [of pm ?f pid] maps_of_def)
  then have "0 < refs_of pm ?f" using inv(2) by simp
  then obtain e where e: "executables (tables_of pm) ?f = Some e" "rc e \<noteq> 0"
    by (auto simp: rc_of_def unat_gt_0 split: option.split_asm)
  then have "unusedExecutables (tables_of pm) ?f = None" using inv(1) by (simp add: unused_inv_def)
  then show ?thesis using e inv(2) by blast
qed

theorem mapped_executables_referenced_witness:
  "\<exists>pm info. pm_run example_pm_env (\<lambda>d eb. eb) example_start [Handled example_raw] pm \<and> pidToProcessInfo pm 7 = Some info \<and>
     mappings info = [example_mapping 0x401000 0x1000 0x1000] \<and> (\<exists>e. executables (state (pm_eim pm)) 5 = Some e \<and> rc e \<noteq> 0)"
proof -
  obtain pm info where s: "SynchronizeProcess (example_pm_env\<lparr>en_now := 1\<rparr>) example_proc example_start = Ret pm"
    and i: "pidToProcessInfo pm 7 = Some info" "exitEvents pm 7 = None" "mappings info = [example_mapping 0x401000 0x1000 0x1000]"
    using example_sync by blast
  have "pm_step example_pm_env (\<lambda>d eb. eb) [Handled example_raw] example_start pm"
    using pm_step.synchronize [OF s] by (simp add: example_proc_def)
  then have r: "pm_run example_pm_env (\<lambda>d eb. eb) example_start [Handled example_raw] pm" by (rule pm_run_one)
  have "example_mapping 0x401000 0x1000 0x1000 \<in> set (mappings info)" using i(3) by simp
  note mapped_executables_referenced [OF r _ i(1,2) this]
  then show ?thesis using r i by auto
qed

text \<open>
  C15: What is known of a process that has exited, its metadata and its mappings, stays available to the
  traces that were taken before: it does not change until traces up to its exit time are processed, and
  then it is forgotten.
\<close>

theorem exited_process_kept:
  assumes "pm_run E unload pm es pm'" "exitEvents pm pid = Some t" "\<forall>t'. Processed t' \<in> set es \<longrightarrow> t' < t"
  shows "metaForPID pid pm' = metaForPID pid pm \<and> findMappingForTrace pid fid addr pm' = findMappingForTrace pid fid addr pm \<and>
    (t \<le> t' \<and> pid \<in> set pids \<and> ProcessedUntil E t' pids pm' = Ret pm'' \<longrightarrow>
      metaForPID pid pm'' = None \<and> findMappingForTrace pid fid addr pm'' = None)"
proof -
  have "(\<forall>t'. Processed t' \<in> set es \<longrightarrow> t' < t) \<longrightarrow> exitEvents pm' pid = Some t \<and> pidToProcessInfo pm' pid = pidToProcessInfo pm pid"
    by (rule pm_exits.run_inv [OF assms(1)]) (use assms(2) in simp)
  then have k: "exitEvents pm' pid = Some t" "pidToProcessInfo pm' pid = pidToProcessInfo pm pid" using assms(3) by auto
  then show ?thesis
    using ProcessedUntil_due [of E t' pids pm' pm'' pid t] by (simp add: metaForPID_def findMappingForTrace_def)
qed

theorem exited_process_kept_witness:
  "\<exists>pm' pm''. pm_run example_pm_env (\<lambda>d eb. eb)
       (example_start\<lparr>pidToProcessInfo := [7 \<mapsto> example_info], exitEvents := [7 \<mapsto> 3]\<rparr>) [Processed 2] pm' \<and>
     metaForPID 7 pm' = Some ((), ()) \<and> ProcessedUntil example_pm_env 3 [7] pm' = Ret pm'' \<and> metaForPID 7 pm'' = None"
proof -
  let ?pm = "example_start\<lparr>pidToProcessInfo := [7 \<mapsto> example_info], exitEvents := [7 \<mapsto> 3]\<rparr>"
  have "ProcessedUntil (example_pm_env\<lparr>en_now := 0\<rparr>) 2 [7] ?pm = Ret ?pm" by simp
  then have r: "pm_run example_pm_env (\<lambda>d eb. eb) ?pm [Processed 2] ?pm" by (rule pm_run_one [OF pm_step.processed_until])
  obtain pm'' where u: "ProcessedUntil example_pm_env 3 [7] ?pm = Ret pm''"
    by (simp add: ProcessManager_New_def)
  have "metaForPID 7 ?pm = Some ((), ())" by (simp add: metaForPID_def)
  then show ?thesis using r u exited_process_kept [OF r, of 7 3 0 0 3 "[7]" pm''] by auto
qed

end
