(* ===== verification/MapTrie.thy ===== *)
theory MapTrie
  imports ProcRefs UnwindProps Tracemgmt
begin

text \<open>
  The mappings of processes across the boundary to the kernel: the process manager enters a mapping into
  the trie \<open>pid_page_to_mapping_info\<close> as a list of prefixes, and the unwinder looks the program counter
  of a frame up there.
\<close>

section \<open>Keys of the trie\<close>

lemma byte_of_bit:
  assumes "n < (32 :: nat)"
  obtains d where "d < 8" "n = d" | d where "d < 8" "n = d + 8" | d where "d < 8" "n = d + 16" | d where "d < 8" "n = d + 24"
proof -
  have "n < 8 \<or> (\<exists>d < 8. n = d + 8) \<or> (\<exists>d < 8. n = d + 16) \<or> (\<exists>d < 8. n = d + 24)" using assms by presburger
  then show thesis using that by blast
qed

lemma bit_ReverseBytes32:
  assumes "d < 8"
  shows "bit (ReverseBytes32 x) d = bit x (d + 24)" "bit (ReverseBytes32 x) (d + 8) = bit x (d + 16)"
    "bit (ReverseBytes32 x) (d + 16) = bit x (d + 8)" "bit (ReverseBytes32 x) (d + 24) = bit x d"
proof -
  have m: "(0xff0000 :: u32) = push_bit 16 (mask 8)" "(0xff00 :: u32) = push_bit 8 (mask 8)" by (simp_all add: mask_eq_exp_minus_1 push_bit_eq_mult)
  have "bit x k \<Longrightarrow> k < 32" for k using bit_imp_le_length [of x k] by simp
  then have no: "\<not> bit x (d + 32)" "\<not> bit x (d + 40)" "\<not> bit x (d + 48)" by fastforce+
  show "bit (ReverseBytes32 x) d = bit x (d + 24)" "bit (ReverseBytes32 x) (d + 8) = bit x (d + 16)"
    "bit (ReverseBytes32 x) (d + 16) = bit x (d + 8)" "bit (ReverseBytes32 x) (d + 24) = bit x d"
    unfolding ReverseBytes32_def m using assms no by (auto simp: bit_simps add.commute)
qed

lemma ReverseBytes32_twice [simp]: "ReverseBytes32 (ReverseBytes32 x) = x"
proof (rule bit_word_eqI)
  fix n
  assume "n < LENGTH(32)"
  then have "n < 32" by simp
  then show "bit (ReverseBytes32 (ReverseBytes32 x)) n = bit x n" by (cases rule: byte_of_bit) (simp_all add: bit_ReverseBytes32)
qed

lemma ReverseBytes64_twice [simp]: "ReverseBytes64 (ReverseBytes64 x) = x"
proof -
  have lo: "ucast (ReverseBytes64 x) = ReverseBytes32 (ucast (drop_bit 32 x))" for x
    unfolding ReverseBytes64_def by (rule bit_word_eqI) (auto simp: bit_simps dest: bit_imp_le_length)
  have hi: "ucast (drop_bit 32 (ReverseBytes64 x)) = ReverseBytes32 (ucast x)" for x
    unfolding ReverseBytes64_def by (rule bit_word_eqI) (auto simp: bit_simps dest: bit_imp_le_length)
  have "ReverseBytes64 (ReverseBytes64 x) = push_bit 32 (ucast (ucast (drop_bit 32 x) :: u32)) OR ucast (ucast x :: u32)"
    by (subst ReverseBytes64_def) (simp add: lo hi)
  also have "\<dots> = x" by (rule bit_word_eqI) (auto simp: bit_simps)
  finally show ?thesis .
qed

lemma length_bits_msb [simp]: "length (bits_msb (w :: 'a::len word)) = LENGTH('a)"
  by (simp add: bits_msb_def)

lemma take_bits_msb_eq:
  assumes "n \<le> LENGTH('a)"
  shows "take n (bits_msb w) = take n (bits_msb (v :: 'a::len word)) \<longleftrightarrow> drop_bit (LENGTH('a) - n) w = drop_bit (LENGTH('a) - n) v"
proof -
  have "take n (bits_msb u) = map (bit u) (rev [LENGTH('a) - n..<LENGTH('a)])" for u :: "'a word"
    using assms by (simp add: bits_msb_def take_map take_rev)
  then have "take n (bits_msb w) = take n (bits_msb v) \<longleftrightarrow> (\<forall>i. LENGTH('a) - n \<le> i \<and> i < LENGTH('a) \<longrightarrow> bit w i = bit v i)"
    by (simp add: Ball_def)
  also have "\<dots> \<longleftrightarrow> (\<forall>j. bit (drop_bit (LENGTH('a) - n) w) j = bit (drop_bit (LENGTH('a) - n) v) j)" (is "?l \<longleftrightarrow> ?r")
  proof
    assume l: ?l
    show ?r
    proof
      fix j
      have "bit w (LENGTH('a) - n + j) = bit v (LENGTH('a) - n + j)" using l bit_imp_le_length le_add1 by metis
      then show "bit (drop_bit (LENGTH('a) - n) w) j = bit (drop_bit (LENGTH('a) - n) v) j" by (simp add: bit_simps)
    qed
  next
    assume r: ?r
    show ?l
    proof (intro allI impI)
      fix i
      assume "LENGTH('a) - n \<le> i \<and> i < LENGTH('a)"
      then show "bit w i = bit v i" using spec [OF r, of "i - (LENGTH('a) - n)"] by (simp add: bit_simps)
    qed
  qed
  also have "\<dots> \<longleftrightarrow> drop_bit (LENGTH('a) - n) w = drop_bit (LENGTH('a) - n) v" by (auto intro: bit_eqI)
  finally show ?thesis .
qed

lemma bits_msb_eq [simp]: "bits_msb w = bits_msb (v :: 'a::len word) \<longleftrightarrow> w = v"
  using take_bits_msb_eq [of "LENGTH('a)" w v] by simp

text \<open>What a lookup compares: the process and the address.\<close>

definition address_bits :: "u32 \<Rightarrow> u64 \<Rightarrow> bool list" where
  "address_bits pid a = bits_msb pid @ bits_msb a"

definition prefix_bits :: "u32 \<Rightarrow> Prefix \<Rightarrow> bool list" where
  "prefix_bits pid p = trie_bits (getPIDPageFromPrefix pid p)"

lemma lookup_bits: "trie_bits \<lparr>PrefixLen = 96, Pid = ReverseBytes32 pid, pp_Page = ReverseBytes64 a\<rparr> = address_bits pid a"
  by (simp add: trie_bits_def address_bits_def)

lemma prefix_bits_alt:
  assumes "unat (Length p) \<le> 64"
  shows "prefix_bits pid p = bits_msb pid @ take (unat (Length p)) (bits_msb (Key p))"
proof -
  have "unat (0x20 + Length p) = 32 + unat (Length p)" using assms by (simp add: unat_word_ariths)
  then show ?thesis by (simp add: prefix_bits_def getPIDPageFromPrefix_def getPIDPage_def trie_bits_def)
qed

text \<open>The entry of a prefix is on the way of the addresses that the prefix matches, and of no other.\<close>

text \<open>The entry of a prefix is on the path of the addresses that the prefix matches, and of no other.\<close>

lemma prefix_on_path:
  assumes "unat (Length p) \<le> 64" "n \<le> 96"
  shows "take n (address_bits pid' a) = prefix_bits pid p \<longleftrightarrow> n = 32 + unat (Length p) \<and> pid' = pid \<and> prefix_match p a"
proof -
  have len: "length (take n (address_bits pid' a)) = n" "length (prefix_bits pid p) = 32 + unat (Length p)"
    using assms by (simp_all add: address_bits_def prefix_bits_alt)
  have "take (32 + unat (Length p)) (address_bits pid' a) = prefix_bits pid p \<longleftrightarrow> pid' = pid \<and> prefix_match p a"
    using take_bits_msb_eq [of "unat (Length p)" a "Key p"] assms(1)
    by (simp add: address_bits_def prefix_bits_alt prefix_match_def prefix_shift_def)
  then show ?thesis using len by metis
qed

section \<open>Lookups\<close>

lemma lpm_lookup_cong:
  assumes "\<And>n. n \<le> length bs \<Longrightarrow> t' (take n bs) = t (take n bs)"
  shows "lpm_lookup t' bs = lpm_lookup t bs"
proof -
  have "t' (take n bs) = t (take n bs)" if "n \<in> set [0..<Suc (length bs)]" for n
    using that by (intro assms) (simp del: upt_Suc)
  then show ?thesis unfolding lpm_lookup_def by (intro fold_cong) (simp_all only:)
qed

lemma fold_option_none: "(\<And>n. n \<in> set ns \<Longrightarrow> g n = None) \<Longrightarrow> fold (\<lambda>n found. case g n of None \<Rightarrow> found | Some v \<Rightarrow> Some v) ns r = r"
  by (induction ns arbitrary: r) auto

lemma fold_option_one:
  assumes "g i = Some v" "i \<in> set ns" "\<And>n. n \<in> set ns \<Longrightarrow> n \<noteq> i \<Longrightarrow> g n = None"
  shows "fold (\<lambda>n found. case g n of None \<Rightarrow> found | Some v \<Rightarrow> Some v) ns r = Some v"
  using assms(2,3)
proof (induction ns arbitrary: r)
  case (Cons n ns)
  show ?case
  proof (cases "n = i")
    case True
    then show ?thesis
      using Cons assms(1) fold_option_none [of ns g "Some v"] by (cases "i \<in> set ns") auto
  qed (use Cons in auto)
qed simp

lemma lpm_lookup_one:
  assumes "i \<le> length bs" "t (take i bs) = Some v" "\<And>n. n \<le> length bs \<Longrightarrow> n \<noteq> i \<Longrightarrow> t (take n bs) = None"
  shows "lpm_lookup t bs = Some v"
  unfolding lpm_lookup_def using assms by (intro fold_option_one [of "\<lambda>n. t (take n bs)" i]) auto

lemma lpm_lookup_None: "lpm_lookup t bs = None \<longleftrightarrow> (\<forall>n \<le> length bs. t (take n bs) = None)"
proof -
  have "fold (\<lambda>n found. case g n of None \<Rightarrow> found | Some v \<Rightarrow> Some v) ns r = None \<longleftrightarrow> r = None \<and> (\<forall>n \<in> set ns. g n = None)"
    for g :: "nat \<Rightarrow> bval option" and ns r
    by (induction ns arbitrary: r) (auto split: option.split)
  from this [of "\<lambda>n. t (take n bs)" "[0..<Suc (length bs)]" None] show ?thesis
    unfolding lpm_lookup_def by (simp add: Ball_def less_Suc_eq_le del: upt_Suc take_all)
qed

text \<open>A table to which the prefixes of a mapping are added.\<close>

definition with_prefixes :: "u32 \<Rightarrow> Prefix list \<Rightarrow> bval \<Rightarrow> (bool list \<Rightarrow> bval option) \<Rightarrow> bool list \<Rightarrow> bval option" where
  "with_prefixes pid ps v t = (\<lambda>bs. if bs \<in> prefix_bits pid ` set ps then Some v else t bs)"

lemma with_prefixes_hit:
  assumes "\<And>p. p \<in> set ps \<Longrightarrow> unat (Length p) \<le> 64" "p \<in> set ps" "prefix_match p a" "\<And>q. q \<in> set ps \<Longrightarrow> prefix_match q a \<Longrightarrow> q = p"
    "lpm_lookup t (address_bits pid a) = None"
  shows "lpm_lookup (with_prefixes pid ps v t) (address_bits pid a) = Some v"
proof (rule lpm_lookup_one [of "32 + unat (Length p)"])
  have [simp]: "length (address_bits pid a) = 96" by (simp add: address_bits_def)
  have on: "take n (address_bits pid a) = prefix_bits pid q \<longleftrightarrow> n = 32 + unat (Length q) \<and> prefix_match q a" if "q \<in> set ps" "n \<le> 96" for n q
    using prefix_on_path [OF assms(1) [OF that(1)] that(2)] by simp
  show "32 + unat (Length p) \<le> length (address_bits pid a)" using assms(1,2) by simp
  then show "with_prefixes pid ps v t (take (32 + unat (Length p)) (address_bits pid a)) = Some v"
    using on [OF assms(2), of "32 + unat (Length p)"] assms(2,3) by (auto simp: with_prefixes_def)
  fix n
  assume n: "n \<le> length (address_bits pid a)" "n \<noteq> 32 + unat (Length p)"
  then have "take n (address_bits pid a) \<notin> prefix_bits pid ` set ps" using on assms(4) by fastforce
  then show "with_prefixes pid ps v t (take n (address_bits pid a)) = None"
    using assms(5) n(1) by (simp add: with_prefixes_def lpm_lookup_None)
qed

lemma with_prefixes_miss:
  assumes "\<And>p. p \<in> set ps \<Longrightarrow> unat (Length p) \<le> 64" "pid' \<noteq> pid \<or> (\<forall>p \<in> set ps. \<not> prefix_match p a)"
  shows "lpm_lookup (with_prefixes pid ps v t) (address_bits pid' a) = lpm_lookup t (address_bits pid' a)"
proof (rule lpm_lookup_cong)
  fix n
  assume "n \<le> length (address_bits pid' a)"
  then have "n \<le> 96" by (simp add: address_bits_def)
  then have "take n (address_bits pid' a) \<notin> prefix_bits pid ` set ps" using prefix_on_path assms by fastforce
  then show "with_prefixes pid ps v t (take n (address_bits pid' a)) = t (take n (address_bits pid' a))"
    by (simp add: with_prefixes_def)
qed

section \<open>The prefixes of a mapping\<close>

lemma prefix_chain_Length: "p \<in> set (prefix_chain c e) \<Longrightarrow> unat (Length p) \<le> 64"
proof (induction c e rule: prefix_chain.induct)
  case (1 c e)
  show ?case
  proof (cases "c < e")
    case True
    have "bits_Len (unat (calculateRmb c e)) \<ge> 1"
      using calculateRmb_bounds [OF True] by (simp add: bits_Len.simps [of "unat _"] word_less_nat_alt)
    then have "1 + LeadingZeros64 (calculateRmb c e) \<le> 64" by (simp add: LeadingZeros64_def)
    moreover from this have "unat (of_nat (1 + LeadingZeros64 (calculateRmb c e)) :: u32) = 1 + LeadingZeros64 (calculateRmb c e)"
      unfolding unat_of_nat by simp
    ultimately have "unat (of_nat (1 + LeadingZeros64 (calculateRmb c e)) :: u32) \<le> 64" by (simp only:)
    then show ?thesis using 1 True by (auto simp: prefix_chain.simps [of c e])
  next
    case False
    then show ?thesis using 1 by (simp add: prefix_chain.simps [of c e])
  qed
qed

lemma prefix_chain_length: "length (prefix_chain c e) \<le> unat e - unat c"
proof (induction c e rule: prefix_chain.induct)
  case (1 c e)
  show ?case
  proof (cases "c < e")
    case True
    note b = calculateRmb_bounds [OF True]
    have "unat c < unat e" "unat (c + calculateRmb c e) \<le> unat e" using True b(4) by (simp_all add: word_less_nat_alt word_le_nat_alt)
    then show ?thesis using 1 True b(1,3) by (simp add: prefix_chain.simps [of c e])
  qed (simp add: prefix_chain.simps [of c e])
qed

lemma mapping_prefixes_chain:
  assumes "mapping_prefixes m = Ret (Inr ps)"
  shows "ps = prefix_chain (m_Vaddr m) (m_Vaddr m + fm_End (m_Frame m) - fm_Start (m_Frame m))"
    "m_Vaddr m < m_Vaddr m + fm_End (m_Frame m) - fm_Start (m_Frame m)"
proof -
  show lt: "m_Vaddr m < m_Vaddr m + fm_End (m_Frame m) - fm_Start (m_Frame m)"
    using assms by (auto simp: mapping_prefixes_def CalculatePrefixList_def Let_def split: if_split_asm)
  show "ps = prefix_chain (m_Vaddr m) (m_Vaddr m + fm_End (m_Frame m) - fm_Start (m_Frame m))"
    using assms CalculatePrefixList_chain [OF lt] by (simp add: mapping_prefixes_def Let_def)
qed

text \<open>What the loop over the prefixes leaves in the trie: as many of them as it counts.\<close>

definition mapping_value :: "u64 \<Rightarrow> u64 \<Rightarrow> bval" where
  "mapping_value fileID bias = VMapping \<lparr>File_id = fileID, Bias_and_unwind_program = bias OR push_bit 56 1\<rparr>"

lemma with_prefixes_Cons: "with_prefixes pid (p # ps) v t = with_prefixes pid ps v (t(prefix_bits pid p \<mapsto> v))"
  by (auto simp: with_prefixes_def fun_eq_iff)

lemma UpdatePidPageMappingInfo_trie:
  assumes "UpdatePidPageMappingInfo K pid p fileID bias eb = Ret (err, eb')" "trie_laws K trie"
  shows "trie (kern eb') = (if err = None then (trie (kern eb))(prefix_bits pid p \<mapsto> mapping_value fileID bias) else trie (kern eb)) \<and>
    (err = None \<longrightarrow> drop_bit 56 bias = 0)"
proof (cases "drop_bit 56 bias > 0")
  case True
  then show ?thesis using assms(1) by (auto simp: UpdatePidPageMappingInfo_def EncodeBiasAndUnwindProgram_def)
next
  case False
  obtain e k where u: "bpf_Update K PidPageToMappingInfo (KPid (getPIDPageFromPrefix pid p)) (mapping_value fileID bias)
      UpdateAny (kern eb) = (e, k)" by (metis prod.exhaust)
  have "trie k = (if e = None then (trie (kern eb))(prefix_bits pid p \<mapsto> mapping_value fileID bias) else trie (kern eb))"
    using assms(2) [unfolded trie_laws_def trie_update_law_def, THEN conjunct1, THEN conjunct1, rule_format,
      of "getPIDPageFromPrefix pid p" "mapping_value fileID bias" UpdateAny "kern eb"]
    by (simp add: prefix_bits_def u)
  moreover have "err = map_option BpfErr e" "kern eb' = k"
    using assms(1) False u [unfolded mapping_value_def] by (auto simp: UpdatePidPageMappingInfo_def EncodeBiasAndUnwindProgram_def on_map_def trackMapError_def
      split: if_split_asm option.split_asm)
  ultimately show ?thesis using False by (simp add: word_gt_0)
qed

lemma add_prefixes_trie:
  "add_prefixes K pid fileID bias ps n eb = Ret (n', eb') \<Longrightarrow> trie_laws K trie \<Longrightarrow>
   \<exists>j \<le> length ps. n' = n + of_nat j \<and> (0 < j \<longrightarrow> drop_bit 56 bias = 0) \<and>
     trie (kern eb') = with_prefixes pid (take j ps) (mapping_value fileID bias) (trie (kern eb))"
proof (induction ps arbitrary: n eb)
  case Nil
  then show ?case by (simp add: with_prefixes_def)
next
  case (Cons p ps)
  then obtain err eb1 where u: "UpdatePidPageMappingInfo K pid p fileID bias eb = Ret (err, eb1)"
    and r: "(if err \<noteq> None then Ret (n, eb1) else add_prefixes K pid fileID bias ps (n + 1) eb1) = Ret (n', eb')" by auto
  note upd = UpdatePidPageMappingInfo_trie [OF u Cons.prems(2)]
  show ?case
  proof (cases "err = None")
    case False
    then show ?thesis using r upd by (intro exI [of _ 0]) (auto simp: with_prefixes_def)
  next
    case True
    then have "add_prefixes K pid fileID bias ps (n + 1) eb1 = Ret (n', eb')" using r by simp
    from Cons.IH [OF this Cons.prems(2)] obtain j where "j \<le> length ps" "n' = n + 1 + of_nat j"
      "trie (kern eb') = with_prefixes pid (take j ps) (mapping_value fileID bias) (trie (kern eb1))" by blast
    then show ?thesis using upd True by (intro exI [of _ "Suc j"]) (simp add: with_prefixes_Cons)
  qed
qed

text \<open>Removing them takes them all out again, whatever the calls report.\<close>

definition without_prefixes :: "u32 \<Rightarrow> Prefix list \<Rightarrow> (bool list \<Rightarrow> bval option) \<Rightarrow> bool list \<Rightarrow> bval option" where
  "without_prefixes pid ps t = (\<lambda>bs. if bs \<in> prefix_bits pid ` set ps then None else t bs)"

lemma without_prefixes_simps [simp]:
  "without_prefixes pid [] t = t" "without_prefixes pid ps (t(prefix_bits pid p := None)) = without_prefixes pid (p # ps) t"
  by (auto simp: without_prefixes_def fun_eq_iff)

lemma kern_trackMapError [simp]: "kern (snd (trackMapError metric err eb)) = kern eb"
  by (simp add: trackMapError_def split: option.split)

lemma trie_Delete:
  "trie_laws K trie \<Longrightarrow> trie (snd (bpf_Delete K PidPageToMappingInfo (KPid p) k)) = (trie k)(trie_bits p := None)"
  by (simp add: trie_laws_def trie_delete_law_def)

lemma trie_BatchDelete:
  assumes "trie_laws K trie"
  shows "\<exists>j \<le> length ps. (snd (fst (bpf_BatchDelete K PidPageToMappingInfo (map KPid ps) k)) = None \<longrightarrow> j = length ps) \<and>
    trie (snd (bpf_BatchDelete K PidPageToMappingInfo (map KPid ps) k)) = (\<lambda>bs. if bs \<in> trie_bits ` set (take j ps) then None else trie k bs)"
  using assms [unfolded trie_laws_def trie_delete_law_def] by (elim conjE) (rule spec, erule spec)

lemma DeletePidPageMappingInfoSingle_trie:
  "DeletePidPageMappingInfoSingle K pid ps n err eb = Ret (r, eb') \<Longrightarrow> trie_laws K trie \<Longrightarrow>
   trie (kern eb') = without_prefixes pid ps (trie (kern eb))"
proof (induction ps arbitrary: n err eb)
  case (Cons p ps)
  obtain e k where d: "bpf_Delete K PidPageToMappingInfo (KPid (getPIDPageFromPrefix pid p)) (kern eb) = (e, k)" by (metis prod.exhaust)
  have "trie k = (trie (kern eb))(prefix_bits pid p := None)"
    using trie_Delete [OF Cons.prems(2), of "getPIDPageFromPrefix pid p" "kern eb"] by (simp add: d prefix_bits_def)
  moreover obtain n1 err1 eb1 where "DeletePidPageMappingInfoSingle K pid ps n1 err1 eb1 = Ret (r, eb')" "kern eb1 = k"
    using Cons.prems(1) d by (auto simp: on_map_def split: if_split_asm option.split_asm)
  ultimately show ?case using Cons.IH [OF _ Cons.prems(2), of n1 err1 eb1] by (simp only: without_prefixes_simps)
qed simp

lemma DeletePidPageMappingInfoBatch_trie:
  assumes "DeletePidPageMappingInfoBatch K pid ps eb = Ret ((n, err), eb')" "trie_laws K trie"
  shows "\<exists>j \<le> length ps. (err = None \<longrightarrow> j = length ps) \<and> trie (kern eb') = without_prefixes pid (take j ps) (trie (kern eb))"
proof -
  let ?keys = "map (getPIDPageFromPrefix pid) ps"
  obtain d e k where b: "bpf_BatchDelete K PidPageToMappingInfo (map KPid ?keys) (kern eb) = ((d, e), k)" by (metis prod.exhaust)
  obtain j where j: "j \<le> length ?keys" "e = None \<longrightarrow> j = length ?keys"
    "trie k = (\<lambda>bs. if bs \<in> trie_bits ` set (take j ?keys) then None else trie (kern eb) bs)"
    using trie_BatchDelete [OF assms(2), of ?keys "kern eb"] unfolding b fst_conv snd_conv by blast
  have "prefix_bits pid ` set (take j ps) = trie_bits ` set (take j ?keys)" by (simp add: take_map image_image prefix_bits_def)
  then have "trie k = without_prefixes pid (take j ps) (trie (kern eb))" by (simp add: j(3) without_prefixes_def)
  moreover have "kern eb' = k" "err = None \<longrightarrow> e = None"
    using assms(1) b by (auto simp: DeletePidPageMappingInfoBatch_def on_map_def Let_def comp_def trackMapError_def
      split: if_split_asm option.split_asm elim: errors_Join.elims)
  ultimately show ?thesis using j by (intro exI [of _ j]) auto
qed

lemma without_prefixes_twice: "set qs \<subseteq> set ps \<Longrightarrow> without_prefixes pid ps (without_prefixes pid qs t) = without_prefixes pid ps t"
  by (auto simp: without_prefixes_def fun_eq_iff)

lemma DeletePidPageMappingInfo_trie:
  assumes "DeletePidPageMappingInfo K pid ps eb = Ret (r, eb')" "trie_laws K trie"
  shows "trie (kern eb') = without_prefixes pid ps (trie (kern eb))"
proof (cases "hasLPMTrieBatchOperations eb")
  case False
  then show ?thesis using assms DeletePidPageMappingInfoSingle_trie by (simp add: DeletePidPageMappingInfo_def)
next
  case True
  then obtain n err eb1 where b: "DeletePidPageMappingInfoBatch K pid ps eb = Ret ((n, err), eb1)"
    using assms(1) by (auto simp: DeletePidPageMappingInfo_def)
  obtain j where j: "j \<le> length ps" "err = None \<longrightarrow> j = length ps" "trie (kern eb1) = without_prefixes pid (take j ps) (trie (kern eb))"
    using DeletePidPageMappingInfoBatch_trie [OF b assms(2)] by blast
  show ?thesis
  proof (cases err)
    case None
    then show ?thesis using assms(1) True b j by (simp add: DeletePidPageMappingInfo_def)
  next
    case (Some e)
    then obtain r2 where "DeletePidPageMappingInfoSingle K pid ps 0 None eb1 = Ret (r2, eb')"
      using assms(1) True b by (auto simp: DeletePidPageMappingInfo_def)
    then show ?thesis
      using DeletePidPageMappingInfoSingle_trie [OF _ assms(2)] j(3) by (simp add: without_prefixes_twice set_take_subset)
  qed
qed

section \<open>Mappings and program counters\<close>

lemma set_ebpf_ebpf [simp]: "pm_ebpf (set_ebpf eb pm) = eb"
  by (simp add: pm_ebpf_def set_ebpf_def)

lemma processNewMapping_trie:
  assumes "processNewMapping K pid m pm = Ret (n, pm')" "mapping_prefixes m = Ret (Inr ps)" "n = of_nat (length ps)" "trie_laws K trie"
  shows "trie (kern (pm_ebpf pm')) =
      with_prefixes pid ps (mapping_value (mapping_fileID m) (m_Vaddr m - fm_Start (m_Frame m))) (trie (kern (pm_ebpf pm))) \<and>
    drop_bit 56 (m_Vaddr m - fm_Start (m_Frame m)) = 0"
proof -
  let ?c = "m_Vaddr m" and ?e = "m_Vaddr m + fm_End (m_Frame m) - fm_Start (m_Frame m)"
  note ps = mapping_prefixes_chain [OF assms(2)]
  have "unat ?e < 2 ^ 64" using unsigned_less [of ?e] by simp
  then have "length ps < 2 ^ 64" using prefix_chain_length [of ?c ?e] unfolding ps(1) by linarith
  moreover have "0 < length ps" using ps by (simp add: prefix_chain.simps [of ?c ?e])
  moreover obtain eb where a: "add_prefixes K pid (mapping_fileID m) (m_Vaddr m - fm_Start (m_Frame m)) ps 0 (pm_ebpf pm) = Ret (n, eb)"
    and pm': "pm' = set_ebpf eb pm"
    using assms(1,2) by (auto simp: processNewMapping_def)
  moreover obtain j where "j \<le> length ps" "n = 0 + of_nat j" "0 < j \<longrightarrow> drop_bit 56 (m_Vaddr m - fm_Start (m_Frame m)) = 0"
    "trie (kern eb) = with_prefixes pid (take j ps) (mapping_value (mapping_fileID m) (m_Vaddr m - fm_Start (m_Frame m))) (trie (kern (pm_ebpf pm)))"
    using add_prefixes_trie [OF a assms(4)] by blast
  moreover from calculation have "j = length ps"
    using assms(3) unfolding word_unat_eq_iff by (simp add: unat_of_nat)
  ultimately show ?thesis by simp
qed

lemma decode_native:
  assumes "drop_bit 56 bias = 0"
  shows "decode_bias_and_unwind_program (bias OR push_bit 56 1) = (bias, PROG_UNWIND_NATIVE)"
proof -
  have "DecodeBiasAndUnwindProgram (bias OR push_bit 56 (ucast (1 :: u8))) = (bias, 1)" by (rule Encode_Decode [OF assms])
  moreover have "drop_bit 56 (bias OR push_bit 56 1) = (1 :: u64)"
    using assms by (simp add: drop_bit_or)
  ultimately show ?thesis by (simp add: DecodeBiasAndUnwindProgram_def decode_bias_and_unwind_program_def)
qed

lemma chain_matches:
  assumes "s < e"
  shows "a \<in> {s..<e} \<Longrightarrow> \<exists>p \<in> set (prefix_chain s e). prefix_match p a \<and> (\<forall>q \<in> set (prefix_chain s e). prefix_match q a \<longrightarrow> q = p)"
    "a \<notin> {s..<e} \<Longrightarrow> \<forall>p \<in> set (prefix_chain s e). \<not> prefix_match p a"
proof -
  note u = prefix_chain_unique_match [of s e a]
  show "\<exists>p \<in> set (prefix_chain s e). prefix_match p a \<and> (\<forall>q \<in> set (prefix_chain s e). prefix_match q a \<longrightarrow> q = p)" if "a \<in> {s..<e}"
  proof -
    have "length (filter (\<lambda>p. prefix_match p a) (prefix_chain s e)) = 1" using u that assms by simp
    then obtain p where "filter (\<lambda>p. prefix_match p a) (prefix_chain s e) = [p]" by (auto simp: length_Suc_conv)
    then have "{q \<in> set (prefix_chain s e). prefix_match q a} = {p}" by (metis list.set set_filter)
    then show ?thesis by auto
  qed
  show "\<forall>p \<in> set (prefix_chain s e). \<not> prefix_match p a" if "a \<notin> {s..<e}"
    using u that assms by (auto simp: filter_empty_conv split: if_split_asm)
qed

text \<open>The lookup of the unwinder, by the bits of process and address.\<close>

lemma resolve_by_lookup:
  assumes "trie_laws K trie"
  shows "resolve_unwind_mapping K k unwinder record =
    (let s = rec_state record; pc = pc_of s
     in if is_kernel_address pc
        then ((ERR_NATIVE_UNEXPECTED_KERNEL_ADDRESS, unwinder), fail_metric ''UnwindNativeErrKernelAddress'' record)
        else if pc < 0x1000 then ((ERR_NATIVE_SMALL_PC, unwinder), fail_metric ''UnwindNativeSmallPC'' record)
        else case lpm_lookup (trie k) (address_bits (tr_pid (rec_trace record)) pc) of
          Some (VMapping val) \<Rightarrow>
            (let (bias, unwinder) = decode_bias_and_unwind_program (Bias_and_unwind_program val)
             in ((ERR_OK, unwinder), record\<lparr>rec_state := s\<lparr>text_section_bias := bias, text_section_id := File_id val,
                  text_section_offset := pc - bias\<rparr>\<rparr>))
        | _ \<Rightarrow> ((ERR_NATIVE_NO_PID_PAGE_MAPPING, unwinder), fail_metric ''UnwindNativeErrWrongTextSection'' record))"
  using assms unfolding resolve_unwind_mapping_def trie_laws_def trie_lookup_law_def by (simp only: lookup_bits)

text \<open>
  C4: A mapping that the process manager has entered resolves in the unwinder: a program counter of
  that process inside the mapping, which was not mapped before, gets the file of the mapping, its bias,
  the native unwinder, and as offset the address in the file.  Every other program counter, and every
  one of another process, resolves as it did before.
\<close>

theorem new_mapping_resolved:
  assumes "trie_laws K trie"
    and "processNewMapping K pid m pm = Ret (n, pm')" "mapping_prefixes m = Ret (Inr ps)" "n = of_nat (length ps)"
    and "pc = pc_of (rec_state record)"
  shows "if tr_pid (rec_trace record) = pid \<and> pc \<in> {m_Vaddr m..<m_Vaddr m + (fm_End (m_Frame m) - fm_Start (m_Frame m))}
    then \<not> is_kernel_address pc \<and> 0x1000 \<le> pc \<and> lpm_lookup (trie (kern (pm_ebpf pm))) (address_bits pid pc) = None \<longrightarrow>
      resolve_unwind_mapping K (kern (pm_ebpf pm')) unwinder record = ((ERR_OK, PROG_UNWIND_NATIVE),
        record\<lparr>rec_state := (rec_state record)\<lparr>text_section_bias := m_Vaddr m - fm_Start (m_Frame m),
          text_section_id := mapping_fileID m, text_section_offset := fm_Start (m_Frame m) + (pc - m_Vaddr m)\<rparr>\<rparr>)
    else resolve_unwind_mapping K (kern (pm_ebpf pm')) unwinder record = resolve_unwind_mapping K (kern (pm_ebpf pm)) unwinder record"
proof -
  let ?s = "m_Vaddr m" and ?e = "m_Vaddr m + (fm_End (m_Frame m) - fm_Start (m_Frame m))"
  have e: "m_Vaddr m + fm_End (m_Frame m) - fm_Start (m_Frame m) = ?e" by (simp add: add_diff_eq)
  note ps = mapping_prefixes_chain [OF assms(3), unfolded e]
  note trie = processNewMapping_trie [OF assms(2-4,1)]
  have len: "unat (Length p) \<le> 64" if "p \<in> set ps" for p using that prefix_chain_Length unfolding ps(1) by blast
  note r = resolve_by_lookup [OF assms(1), of _ unwinder "record", unfolded Let_def, folded assms(5)]
  show ?thesis
  proof (cases "tr_pid (rec_trace record) = pid \<and> pc \<in> {?s..<?e}")
    case False
    then have "tr_pid (rec_trace record) \<noteq> pid \<or> (\<forall>p \<in> set ps. \<not> prefix_match p pc)"
      using chain_matches(2) [OF ps(2)] unfolding ps(1) by blast
    from with_prefixes_miss [OF len this] show ?thesis unfolding if_not_P [OF False] r conjunct1 [OF trie] by simp
  next
    case True
    then obtain p where p: "p \<in> set ps" "prefix_match p pc" "\<And>q. q \<in> set ps \<Longrightarrow> prefix_match q pc \<Longrightarrow> q = p"
      using chain_matches(1) [OF ps(2)] unfolding ps(1) by blast
    have "pc - (m_Vaddr m - fm_Start (m_Frame m)) = fm_Start (m_Frame m) + (pc - m_Vaddr m)" by simp
    then show ?thesis
      using True with_prefixes_hit [OF len p, of "trie (kern (pm_ebpf pm))" pid] decode_native [OF conjunct2 [OF trie]]
      unfolding if_P [OF True] r conjunct1 [OF trie] by (intro impI) (simp add: mapping_value_def leD)
  qed
qed

text \<open>A sample of process 7 inside the mapping of the example.\<close>

definition example_sample :: PerCPURecord where
  "example_sample = (example_record 0)\<lparr>rec_trace := empty_trace\<lparr>tr_pid := 7\<rparr>,
     rec_state := (rec_state (example_record 0))\<lparr>regs := (replicate 16 0)[R_pc := 0x401234]\<rparr>\<rparr>"

lemma example_add:
  "\<exists>pm'. processNewMapping ram_bpf 7 (example_mapping 0x401000 0x1000 0x1000) example_start = Ret (1, pm') \<and>
     PidPageToMappingInfo \<in> set (available (pm_ebpf pm'))"
  by (simp add: processNewMapping_def example_prefixes UpdatePidPageMappingInfo_def EncodeBiasAndUnwindProgram_def
    on_map_def pm_ebpf_def set_ebpf_def ProcessManager_New_def NewExecutableInfoManager_def example_handler_def trackMapError_def ram_bpf_def)

lemma example_unmapped: "ram_trie (kern (pm_ebpf example_start)) bs = None"
  by (simp add: pm_ebpf_def ProcessManager_New_def NewExecutableInfoManager_def example_handler_def)

lemma example_lookup: "lpm_lookup (ram_trie (kern (pm_ebpf example_start))) bs = None"
  by (simp add: lpm_lookup_None example_unmapped)

theorem new_mapping_resolved_witness:
  "\<exists>pm' record. processNewMapping ram_bpf 7 (example_mapping 0x401000 0x1000 0x1000) example_start = Ret (1, pm') \<and>
     resolve_unwind_mapping ram_bpf (kern (pm_ebpf pm')) 0 example_sample = ((ERR_OK, PROG_UNWIND_NATIVE), record) \<and>
     text_section_id (rec_state record) = 5 \<and> text_section_offset (rec_state record) = 0x1234"
proof -
  obtain pm' where a: "processNewMapping ram_bpf 7 (example_mapping 0x401000 0x1000 0x1000) example_start = Ret (1, pm')"
    using example_add by blast
  have pc: "0x401234 = pc_of (rec_state example_sample)" by (simp add: example_sample_def)
  show ?thesis
    using a new_mapping_resolved [OF ram_trie_laws a example_prefixes _ pc, of 0]
    by (simp add: example_sample_def example_record_def is_kernel_address_def example_lookup)
qed

text \<open>
  C18: Removing a mapping undoes what adding it did: if none of its entries was there before, every
  program counter of every process resolves afterwards as it did before the mapping was added, whatever
  errors the kernel reports for the deletions.
\<close>

theorem removed_mapping_restores:
  assumes "trie_laws (en_bpf E) trie"
    and "processNewMapping (en_bpf E) pid m pm = Ret (n, pm1)" "mapping_prefixes m = Ret (Inr ps)" "n = of_nat (length ps)"
    and "\<forall>p \<in> set ps. trie (kern (pm_ebpf pm)) (prefix_bits pid p) = None"
    and "processRemovedMapping E pid m pm1 = Ret (n', pm')"
  shows "resolve_unwind_mapping (en_bpf E) (kern (pm_ebpf pm')) unwinder record =
    resolve_unwind_mapping (en_bpf E) (kern (pm_ebpf pm)) unwinder record"
proof -
  obtain r eb where d: "DeletePidPageMappingInfo (en_bpf E) pid ps (pm_ebpf pm1) = Ret (r, eb)"
    and pm': "pm' = (set_ebpf eb pm1)\<lparr>pm_eim := snd (DecRef (en_now E) (mapping_fileID m) (pm_eim (set_ebpf eb pm1)))\<rparr>"
    using assms(3,6) by (auto simp: processRemovedMapping_def Let_def)
  have "kern (pm_ebpf pm') = kern eb"
    unfolding pm' by (simp add: pm_ebpf_def set_ebpf_def DecRef_def Let_def split: option.split)
  moreover have "trie (kern eb) = trie (kern (pm_ebpf pm))"
    using DeletePidPageMappingInfo_trie [OF d assms(1)] processNewMapping_trie [OF assms(2-4,1)] assms(5)
    by (auto simp: with_prefixes_def without_prefixes_def fun_eq_iff)
  ultimately show ?thesis by (simp only: resolve_by_lookup [OF assms(1)])
qed

lemma Single_returns:
  "PidPageToMappingInfo \<in> set (available eb) \<Longrightarrow> \<exists>r. DeletePidPageMappingInfoSingle K pid ps n err eb = Ret r"
proof (induction ps arbitrary: n err eb)
  case (Cons p ps)
  then show ?case by (auto simp: on_map_def trackMapError_def split: prod.split option.split)
qed simp

lemma Delete_returns: "PidPageToMappingInfo \<in> set (available eb) \<Longrightarrow> \<exists>r. DeletePidPageMappingInfo K pid ps eb = Ret r"
proof (cases "hasLPMTrieBatchOperations eb")
  case True
  assume av: "PidPageToMappingInfo \<in> set (available eb)"
  obtain d e k where "bpf_BatchDelete K PidPageToMappingInfo (map (\<lambda>p. KPid (getPIDPageFromPrefix pid p)) ps) (kern eb) = ((d, e), k)"
    by (metis prod.exhaust)
  then have "\<exists>n err eb1. DeletePidPageMappingInfoBatch K pid ps eb = Ret ((n, err), eb1) \<and> available eb1 = available eb"
    using av by (cases "d < 0"; cases e) (simp_all add: DeletePidPageMappingInfoBatch_def on_map_def trackMapError_def)
  then obtain n err eb1 where b: "DeletePidPageMappingInfoBatch K pid ps eb = Ret ((n, err), eb1)" "available eb1 = available eb" by blast
  obtain r where "DeletePidPageMappingInfoSingle K pid ps 0 None eb1 = Ret r" using Single_returns [of eb1] av b(2) by fastforce
  then show ?thesis using True b(1) by (auto simp: DeletePidPageMappingInfo_def split: option.split prod.split)
qed (simp add: DeletePidPageMappingInfo_def Single_returns del: split_paired_Ex)

theorem removed_mapping_restores_witness:
  "\<exists>pm1 pm' n'. processNewMapping ram_bpf 7 (example_mapping 0x401000 0x1000 0x1000) example_start = Ret (1, pm1) \<and>
     processRemovedMapping example_pm_env 7 (example_mapping 0x401000 0x1000 0x1000) pm1 = Ret (n', pm') \<and>
     fst (fst (resolve_unwind_mapping ram_bpf (kern (pm_ebpf pm')) 0 example_sample)) = ERR_NATIVE_NO_PID_PAGE_MAPPING"
proof -
  let ?m = "example_mapping 0x401000 0x1000 0x1000"
  have E: "en_bpf example_pm_env = ram_bpf" by (simp add: example_pm_env_def)
  obtain pm1 where a: "processNewMapping ram_bpf 7 ?m example_start = Ret (1, pm1)"
    and av: "PidPageToMappingInfo \<in> set (available (pm_ebpf pm1))" using example_add by blast
  have "\<exists>n' pm'. processRemovedMapping example_pm_env 7 ?m pm1 = Ret (n', pm')"
    using Delete_returns [OF av] by (auto simp: processRemovedMapping_def example_prefixes Let_def split: prod.split)
  then obtain n' pm' where d: "processRemovedMapping example_pm_env 7 ?m pm1 = Ret (n', pm')" by blast
  have "resolve_unwind_mapping ram_bpf (kern (pm_ebpf pm')) 0 example_sample = resolve_unwind_mapping ram_bpf (kern (pm_ebpf example_start)) 0 example_sample"
    using removed_mapping_restores [of example_pm_env ram_trie 7 ?m example_start, unfolded E, OF ram_trie_laws a example_prefixes _ _ d]
    by (simp add: example_unmapped)
  moreover have "fst (fst (resolve_unwind_mapping ram_bpf (kern (pm_ebpf example_start)) 0 example_sample)) = ERR_NATIVE_NO_PID_PAGE_MAPPING"
    unfolding resolve_by_lookup [OF ram_trie_laws] by (simp add: example_sample_def is_kernel_address_def example_lookup)
  ultimately show ?thesis using a d by auto
qed

end
