(* ===== verification/Spec2Isabelle.thy ===== *)
theory Spec2Isabelle
  imports Lpm EhframeProps UnwindProps Libpf TraceProps MapTrie
begin

text \<open>
  Verification library for the eBPF profiler agent.
\<close>

end
